(* ===== verification/Prelude.thy ===== *)
theory Prelude
  imports Complex_Main "HOL-Library.AList"
begin

text \<open>
  What every component of the model shares: Python's numbers, dynamically typed values and
  exceptions, insertion-ordered dictionaries, and the string operations the parsers use.

  A Python float is one of \<open>Fin r\<close>, the two infinities and NaN, with the IEEE comparisons
  (NaN compares false with everything). Finite arithmetic is exact: rounding is not modelled.
  A Python int is an \<open>int\<close>. A \<open>str\<close> is a list of characters below code point 256.
  A value that came out of a JSON or TOML document is a \<open>pyval\<close>, whatever type the code
  hopes it has; what the code does with the wrong type is a branch of the model.
\<close>

named_theorems res_simps "unfolding of the result combinators"
named_theorems num_simps "evaluation of comparisons on dynamically typed numbers"

section \<open>Python floats\<close>

datatype pyfloat = Fin real | PosInf | NegInf | NaN

instantiation pyfloat :: ord
begin

fun less_pyfloat :: "pyfloat \<Rightarrow> pyfloat \<Rightarrow> bool" where
  "less_pyfloat (Fin a) (Fin b) = (a < b)"
| "less_pyfloat (Fin a) PosInf = True"
| "less_pyfloat NegInf (Fin b) = True"
| "less_pyfloat NegInf PosInf = True"
| "less_pyfloat _ _ = False"

fun less_eq_pyfloat :: "pyfloat \<Rightarrow> pyfloat \<Rightarrow> bool" where
  "less_eq_pyfloat NaN _ = False"
| "less_eq_pyfloat _ NaN = False"
| "less_eq_pyfloat (Fin a) (Fin b) = (a \<le> b)"
| "less_eq_pyfloat NegInf _ = True"
| "less_eq_pyfloat _ PosInf = True"
| "less_eq_pyfloat _ _ = False"

instance ..

end

text \<open>Python's \<open>max(a, b)\<close> keeps the first argument unless the second compares greater.\<close>

definition fmax :: "pyfloat \<Rightarrow> pyfloat \<Rightarrow> pyfloat" where
  "fmax a b = (if a < b then b else a)"

text \<open>\<open>x - b\<close> for a finite \<open>b\<close>, the only subtraction the program does on such floats.\<close>

fun fsub :: "pyfloat \<Rightarrow> real \<Rightarrow> pyfloat" where
  "fsub (Fin a) b = Fin (a - b)"
| "fsub PosInf b = PosInf"
| "fsub NegInf b = NegInf"
| "fsub NaN b = NaN"

definition trunc :: "real \<Rightarrow> int" where
  "trunc r = (if 0 \<le> r then \<lfloor>r\<rfloor> else \<lceil>r\<rceil>)"

lemma not_less_NaN [simp]: "\<not> (x < NaN)" "\<not> (NaN < (x::pyfloat))"
  by (cases x; simp)+

lemma not_le_NaN [simp]: "\<not> (x \<le> NaN)" "\<not> (NaN \<le> (x::pyfloat))"
  by (cases x; simp)+

lemma fin_less_iff: "Fin a < x \<longleftrightarrow> x = PosInf \<or> (\<exists>b. x = Fin b \<and> a < b)"
  by (cases x) auto

lemma le_fin_iff: "x \<le> Fin b \<longleftrightarrow> x = NegInf \<or> (\<exists>a. x = Fin a \<and> a \<le> b)"
  by (cases x) auto

lemma pyfloat_not_le: "x \<noteq> NaN \<Longrightarrow> y \<noteq> NaN \<Longrightarrow> \<not> (x \<le> y) \<longleftrightarrow> y < (x::pyfloat)"
  by (cases x; cases y) auto

lemma pyfloat_less_imp_le: "x < y \<Longrightarrow> x \<le> (y::pyfloat)"
  by (cases x; cases y) auto

lemma pyfloat_le_less_trans: "x \<le> y \<Longrightarrow> y < z \<Longrightarrow> x < (z::pyfloat)"
  by (cases x; cases y; cases z) auto

lemma pyfloat_le_refl: "x \<noteq> NaN \<Longrightarrow> x \<le> (x::pyfloat)"
  by (cases x) auto

lemma fmax_not_NaN: "a \<noteq> NaN \<Longrightarrow> b \<noteq> NaN \<Longrightarrow> fmax a b \<noteq> NaN"
  by (simp add: fmax_def)

lemma fmax_ge1: "a \<noteq> NaN \<Longrightarrow> a \<le> fmax a b"
  by (simp add: fmax_def pyfloat_less_imp_le pyfloat_le_refl)

lemma fmax_ge2: "a \<noteq> NaN \<Longrightarrow> b \<noteq> NaN \<Longrightarrow> b \<le> fmax a b"
  by (cases a; cases b) (auto simp: fmax_def)

lemma fmax_assoc2: "b \<noteq> NaN \<Longrightarrow> fmax (fmax a b) b = fmax a b"
  by (cases a; cases b) (auto simp: fmax_def)

section \<open>Dynamically typed values\<close>

text \<open>
  \<open>PDate\<close> is any other object a document can hold (TOML dates and times): neither a number
  nor a container, and true in a boolean context.
\<close>

datatype pyval =
    PNone
  | PBool bool
  | PInt int
  | PFloat pyfloat
  | PStr string
  | PList "pyval list"
  | PDict "(string \<times> pyval) list"
  | PDate string

fun truthy :: "pyval \<Rightarrow> bool" where
  "truthy PNone = False"
| "truthy (PBool b) = b"
| "truthy (PInt i) = (i \<noteq> 0)"
| "truthy (PFloat f) = (f \<noteq> Fin 0)"
| "truthy (PStr s) = (s \<noteq> [])"
| "truthy (PList xs) = (xs \<noteq> [])"
| "truthy (PDict kvs) = (kvs \<noteq> [])"
| "truthy (PDate _) = True"

text \<open>\<open>isinstance(v, int)\<close> holds of bools too; the code excludes them where it means to.\<close>

fun is_plain_int :: "pyval \<Rightarrow> bool" where
  "is_plain_int (PInt _) = True"
| "is_plain_int _ = False"

fun num_of :: "pyval \<Rightarrow> pyfloat option" where
  "num_of (PBool b) = Some (Fin (if b then 1 else 0))"
| "num_of (PInt i) = Some (Fin (real_of_int i))"
| "num_of (PFloat f) = Some f"
| "num_of _ = None"

section \<open>Exceptions and results\<close>

text \<open>
  A message is kept as the pieces of the f-string that builds it; \<open>Exc\<close> stands for the
  text of an exception raised elsewhere and \<open>Clock\<close> for a formatted local time.
  \<open>ConnectionLost\<close> is ConnectionResetError or BrokenPipeError.
\<close>

datatype exn =
    TypeError
  | ValueError
  | KeyError
  | AttributeError
  | OverflowError
  | OSError
  | UnicodeDecodeError
  | ConfigError "piece list"
  | DurationError "piece list"
  | GpuSpecError "piece list"
  | LeaseError "piece list"
  | PauseHeld "conflict list"
  | ProtocolError "piece list"
  | IncompleteReadError
  | JSONDecodeError
  | ImportError
  | RuntimeError string
  | ConnectionLost
  | IPCClientError "piece list"
  | DaemonDown "piece list"
  | OtherExn string
and piece = Lit string | Val pyval | Repr pyval | Exc exn | Clock pyfloat
and conflict = Conflict (cf_gpu: int) (cf_holder: string) (cf_remaining: int)

type_synonym 'a res = "exn + 'a"
type_synonym message = "piece list"

text \<open>
  What the standard library's formatting turns the pieces into is a parameter: \<open>repr\<close> and
  \<open>str\<close> of a value, \<open>str\<close> of an exception, and \<open>strftime\<close>.
\<close>

record formatter =
  fmt_str :: "pyval \<Rightarrow> string"
  fmt_repr :: "pyval \<Rightarrow> string"
  fmt_exn :: "exn \<Rightarrow> string"
  fmt_clock :: "pyfloat \<Rightarrow> string"

text \<open>A formatter for examples.\<close>

definition plain_fmt :: formatter where
  "plain_fmt =
     \<lparr>fmt_str = (\<lambda>_. ''1''), fmt_repr = (\<lambda>_. ''1''), fmt_exn = (\<lambda>_. []), fmt_clock = (\<lambda>_. [])\<rparr>"

fun render_piece :: "formatter \<Rightarrow> piece \<Rightarrow> string" where
  "render_piece F (Lit s) = s"
| "render_piece F (Val v) = fmt_str F v"
| "render_piece F (Repr v) = fmt_repr F v"
| "render_piece F (Exc e) = fmt_exn F e"
| "render_piece F (Clock t) = fmt_clock F t"

definition render :: "formatter \<Rightarrow> message \<Rightarrow> string" where
  "render F ps = concat (map (render_piece F) ps)"

fun rbind :: "'a res \<Rightarrow> ('a \<Rightarrow> 'b res) \<Rightarrow> 'b res" where
  "rbind (Inl e) f = Inl e"
| "rbind (Inr x) f = f x"

fun rmap :: "('a \<Rightarrow> 'b res) \<Rightarrow> 'a list \<Rightarrow> 'b list res" where
  "rmap f [] = Inr []"
| "rmap f (x # xs) = rbind (f x) (\<lambda>y. rbind (rmap f xs) (\<lambda>ys. Inr (y # ys)))"

lemma rbind_Inr_iff [res_simps]: "rbind r f = Inr y \<longleftrightarrow> (\<exists>x. r = Inr x \<and> f x = Inr y)"
  by (cases r) auto

lemma rbind_Inl_iff [res_simps]:
  "rbind r f = Inl e \<longleftrightarrow> r = Inl e \<or> (\<exists>x. r = Inr x \<and> f x = Inl e)"
  by (cases r) auto

lemma rmap_Inr_all: "(\<And>x. x \<in> set xs \<Longrightarrow> f x = Inr (g x)) \<Longrightarrow> rmap f xs = Inr (map g xs)"
  by (induction xs) auto

text \<open>An order comparison of two numbers; on anything else Python raises TypeError.\<close>

definition py_cmp :: "(pyfloat \<Rightarrow> pyfloat \<Rightarrow> bool) \<Rightarrow> pyval \<Rightarrow> pyval \<Rightarrow> bool res" where
  "py_cmp r a b =
     (case num_of a of
        None \<Rightarrow> Inl TypeError
      | Some x \<Rightarrow> (case num_of b of None \<Rightarrow> Inl TypeError | Some y \<Rightarrow> Inr (r x y)))"

abbreviation py_lt :: "pyval \<Rightarrow> pyval \<Rightarrow> bool res" where
  "py_lt \<equiv> py_cmp (<)"

abbreviation py_le :: "pyval \<Rightarrow> pyval \<Rightarrow> bool res" where
  "py_le \<equiv> py_cmp (\<le>)"

lemma py_cmp_num [num_simps]:
  "num_of a = Some x \<Longrightarrow> num_of b = Some y \<Longrightarrow> py_cmp r a b = Inr (r x y)"
  by (simp add: py_cmp_def)

lemma py_cmp_InrD:
  "py_cmp r a b = Inr c \<Longrightarrow> \<exists>x y. num_of a = Some x \<and> num_of b = Some y \<and> c = r x y"
  by (auto simp: py_cmp_def split: option.splits)

section \<open>Dictionaries\<close>

text \<open>
  A dict is an association list in insertion order, with the library's operations: assigning to
  a present key keeps its place, a new key goes to the end, \<open>del\<close> removes the entry.
\<close>

abbreviation dset :: "'k \<Rightarrow> 'v \<Rightarrow> ('k \<times> 'v) list \<Rightarrow> ('k \<times> 'v) list" where
  "dset \<equiv> AList.update"

abbreviation ddel :: "'k \<Rightarrow> ('k \<times> 'v) list \<Rightarrow> ('k \<times> 'v) list" where
  "ddel \<equiv> AList.delete"

abbreviation dkeys :: "('k \<times> 'v) list \<Rightarrow> 'k list" where
  "dkeys d \<equiv> map fst d"

abbreviation dvals :: "('k \<times> 'v) list \<Rightarrow> 'v list" where
  "dvals d \<equiv> map snd d"

lemma dset_lookup [simp]: "map_of (dset k v d) = (map_of d)(k \<mapsto> v)"
  by (rule update_conv')

lemma ddel_lookup [simp]: "map_of (ddel k d) = (map_of d)(k := None)"
  by (rule delete_conv')

lemma distinct_dset [simp]: "distinct (dkeys d) \<Longrightarrow> distinct (dkeys (dset k v d))"
  by (rule distinct_update)

lemma distinct_ddel [simp]: "distinct (dkeys d) \<Longrightarrow> distinct (dkeys (ddel k d))"
  by (rule distinct_delete)

lemma ddel_filter: "ddel k d = filter (\<lambda>p. fst p \<noteq> k) d"
  by (induction d) auto

lemma ddel_keys: "set (dkeys (ddel k d)) = set (dkeys d) - {k}"
  by (auto simp: ddel_filter)

lemma set_dset_subset: "set (dset k v d) \<subseteq> insert (k, v) (set d)"
  by (induction d) auto

lemma dset_fresh: "k \<notin> set (dkeys d) \<Longrightarrow> dset k v d = d @ [(k, v)]"
  by (induction d) auto

lemma map_of_filter_distinct:
  "distinct (dkeys d) \<Longrightarrow>
   map_of (filter P d) k = (case map_of d k of None \<Rightarrow> None | Some v \<Rightarrow> if P (k, v) then Some v else None)"
  by (induction d) (auto split: option.splits simp: map_of_eq_None_iff image_iff)

end
