(* ===== verification/PyText.thy ===== *)
theory PyText
  imports Prelude
begin

text \<open>
  Strings as the program uses them: \<open>strip\<close>, \<open>lower\<close>, \<open>split\<close> and \<open>join\<close>, decimal
  numerals, and the conversions \<open>int(x)\<close> and \<open>float(x)\<close> of the standard library on a
  dynamically typed value. \<open>int\<close> and \<open>float\<close> of a string accept surrounding blanks, a sign
  and single underscores between digits, as Python does; the interpreter's limit on the number
  of digits it converts is not modelled.
\<close>

named_theorems digit_simps "facts on decimal digits and numerals"

section \<open>Characters\<close>

definition code :: "char \<Rightarrow> nat" where
  "code c = of_char c"

definition is_digit :: "char \<Rightarrow> bool" where
  "is_digit c \<longleftrightarrow> 48 \<le> code c \<and> code c \<le> 57"

definition is_space :: "char \<Rightarrow> bool" where
  "is_space c \<longleftrightarrow> code c \<in> {9, 10, 11, 12, 13, 28, 29, 30, 31, 32, 133, 160}"

definition ascii_space :: "char \<Rightarrow> bool" where
  "ascii_space c \<longleftrightarrow> code c \<in> {9, 10, 11, 12, 13, 32}"

definition lower_char :: "char \<Rightarrow> char" where
  "lower_char c =
     (let n = code c in
      if 65 \<le> n \<and> n \<le> 90 \<or> 192 \<le> n \<and> n \<le> 222 \<and> n \<noteq> 215 then char_of (n + 32) else c)"

text \<open>
  \<open>upper\<close> of one character: \<open>CHR 0xDF\<close> (sharp s) becomes two letters; the two characters whose
  capital lies beyond code point 255 (0xB5 and 0xFF) are left as they are.
\<close>

definition upper_char :: "char \<Rightarrow> string" where
  "upper_char c =
     (let n = code c in
      if 97 \<le> n \<and> n \<le> 122 \<or> 224 \<le> n \<and> n \<le> 254 \<and> n \<noteq> 247 then [char_of (n - 32)]
      else if n = 223 then ''SS'' else [c])"

definition digit_char :: "nat \<Rightarrow> char" where
  "digit_char d = char_of (48 + d)"

lemma code_digit_char [simp]: "d < 10 \<Longrightarrow> code (digit_char d) = 48 + d"
  by (simp add: code_def digit_char_def)

lemma is_digit_digit_char [simp]: "d < 10 \<Longrightarrow> is_digit (digit_char d)"
  by (simp add: is_digit_def)

lemma digit_not_space: "is_digit c \<Longrightarrow> \<not> is_space c"
  by (auto simp: is_digit_def is_space_def)

lemma lower_digit: "is_digit c \<Longrightarrow> lower_char c = c"
  by (auto simp: is_digit_def lower_char_def Let_def)

section \<open>Strings\<close>

definition strip_by :: "(char \<Rightarrow> bool) \<Rightarrow> string \<Rightarrow> string" where
  "strip_by P s = rev (dropWhile P (rev (dropWhile P s)))"

abbreviation strip :: "string \<Rightarrow> string" where
  "strip \<equiv> strip_by is_space"

definition lower :: "string \<Rightarrow> string" where
  "lower s = map lower_char s"

definition upper :: "string \<Rightarrow> string" where
  "upper s = concat (map upper_char s)"

fun split_on :: "char \<Rightarrow> string \<Rightarrow> string list" where
  "split_on c [] = [[]]"
| "split_on c (x # xs) =
     (if x = c then [] # split_on c xs
      else (case split_on c xs of [] \<Rightarrow> [[x]] | y # ys \<Rightarrow> (x # y) # ys))"

fun join :: "string \<Rightarrow> string list \<Rightarrow> string" where
  "join sep [] = []"
| "join sep [x] = x"
| "join sep (x # y # ys) = x @ sep @ join sep (y # ys)"

lemma split_on_nonempty [simp]: "split_on c s \<noteq> []"
  by (induction s) (auto split: list.splits)

lemma split_on_no_sep: "c \<notin> set s \<Longrightarrow> split_on c s = [s]"
  by (induction s) auto

lemma split_on_append: "c \<notin> set s \<Longrightarrow> split_on c (s @ c # t) = s # split_on c t"
  by (induction s) auto

lemma split_on_join:
  "xs \<noteq> [] \<Longrightarrow> \<forall>x \<in> set xs. c \<notin> set x \<Longrightarrow> split_on c (join [c] xs) = xs"
  by (induction "[c]" xs rule: join.induct) (auto simp: split_on_no_sep split_on_append)

lemma join_split_on: "join [c] (split_on c s) = s"
proof (induction s)
  case Nil
  then show ?case by simp
next
  case (Cons x s)
  obtain y ys where s: "split_on c s = y # ys"
    by (cases "split_on c s") auto
  with Cons show ?case by (cases ys) auto
qed

lemma split_on_parts: "p \<in> set (split_on c s) \<Longrightarrow> c \<notin> set p"
  by (induction s arbitrary: p) (auto split: list.splits if_splits)

lemma dropWhile_none: "\<forall>c \<in> set s. \<not> P c \<Longrightarrow> dropWhile P s = s"
  by (cases s) auto

lemma strip_by_none: "\<forall>c \<in> set s. \<not> P c \<Longrightarrow> strip_by P s = s"
  by (simp add: strip_by_def dropWhile_none)

lemma lower_digits: "\<forall>c \<in> set s. is_digit c \<Longrightarrow> lower s = s"
  by (induction s) (auto simp: lower_def lower_digit)

lemma lower_append [simp]: "lower (s @ t) = lower s @ lower t"
  by (simp add: lower_def)

section \<open>Decimal numerals\<close>

fun dec :: "nat \<Rightarrow> string" where
  "dec n = (if n < 10 then [digit_char n] else dec (n div 10) @ [digit_char (n mod 10)])"

declare dec.simps [simp del]

definition undec :: "string \<Rightarrow> nat" where
  "undec ds = foldl (\<lambda>a c. 10 * a + (code c - 48)) 0 ds"

definition dec_int :: "int \<Rightarrow> string" where
  "dec_int i = (if i < 0 then ''-'' @ dec (nat (- i)) else dec (nat i))"

lemma dec_small [simp]: "n < 10 \<Longrightarrow> dec n = [digit_char n]"
  by (simp add: dec.simps)

lemma dec_big [simp]: "10 \<le> n \<Longrightarrow> dec n = dec (n div 10) @ [digit_char (n mod 10)]"
  by (subst dec.simps) simp

lemma dec_digits [digit_simps]: "\<forall>c \<in> set (dec n). is_digit c"
proof (induction n rule: dec.induct)
  case (1 n)
  then show ?case by (cases "n < 10") auto
qed

lemma dec_nonempty [simp, digit_simps]: "dec n \<noteq> []"
  by (subst dec.simps) simp

lemma undec_Nil [simp]: "undec [] = 0"
  by (simp add: undec_def)

lemma undec_snoc [simp]: "undec (ds @ [c]) = 10 * undec ds + (code c - 48)"
  by (simp add: undec_def)

lemma undec_dec [simp]: "undec (dec n) = n"
proof (induction n rule: dec.induct)
  case (1 n)
  show ?case
  proof (cases "n < 10")
    case True
    then show ?thesis using undec_snoc [of "[]" "digit_char n"] by simp
  next
    case False
    with 1 have "undec (dec (n div 10)) = n div 10" by simp
    with False show ?thesis by simp
  qed
qed

section \<open>The conversions \<open>int(x)\<close> and \<open>float(x)\<close>\<close>

text \<open>A non-empty run of digits with single underscores between them; the digits are kept.\<close>

fun py_digits :: "string \<Rightarrow> string option" where
  "py_digits [] = None"
| "py_digits [c] = (if is_digit c then Some [c] else None)"
| "py_digits (c # d # cs) =
     (if is_digit c
      then map_option ((#) c) (if d = CHR ''_'' then py_digits cs else py_digits (d # cs))
      else None)"

definition py_signed :: "string \<Rightarrow> int option" where
  "py_signed s =
     (case s of
        [] \<Rightarrow> None
      | c # cs \<Rightarrow>
          if c = CHR ''-'' then map_option (\<lambda>ds. - int (undec ds)) (py_digits cs)
          else if c = CHR ''+'' then map_option (\<lambda>ds. int (undec ds)) (py_digits cs)
          else map_option (\<lambda>ds. int (undec ds)) (py_digits s))"

text \<open>\<open>int\<close> and \<open>float\<close> skip the ASCII blanks and the non-ASCII Unicode ones around a
  number, not the ASCII separators that \<open>strip\<close> removes.\<close>

definition num_space :: "char \<Rightarrow> bool" where
  "num_space c \<longleftrightarrow> ascii_space c \<or> code c = 133 \<or> code c = 160"

definition num_strip :: "string \<Rightarrow> string" where
  "num_strip s = strip_by num_space s"

definition py_int_of_str :: "string \<Rightarrow> int res" where
  "py_int_of_str s =
     (case py_signed (num_strip s) of None \<Rightarrow> Inl ValueError | Some i \<Rightarrow> Inr i)"

fun int_of_float :: "pyfloat \<Rightarrow> int res" where
  "int_of_float (Fin r) = Inr (trunc r)"
| "int_of_float NaN = Inl ValueError"
| "int_of_float _ = Inl OverflowError"

fun py_int :: "pyval \<Rightarrow> int res" where
  "py_int (PInt i) = Inr i"
| "py_int (PBool b) = Inr (if b then 1 else 0)"
| "py_int (PFloat f) = int_of_float f"
| "py_int (PStr s) = py_int_of_str s"
| "py_int _ = Inl TypeError"

definition opt_digits :: "string \<Rightarrow> string option" where
  "opt_digits s = (if s = [] then Some [] else py_digits s)"

definition py_mantissa :: "string \<Rightarrow> (string \<times> string) option" where
  "py_mantissa s =
     (let ip = takeWhile (\<lambda>c. c \<noteq> CHR ''.'') s; r = dropWhile (\<lambda>c. c \<noteq> CHR ''.'') s in
      if r = [] then map_option (\<lambda>ds. (ds, [])) (py_digits ip)
      else (case (opt_digits ip, opt_digits (tl r)) of
              (Some a, Some b) \<Rightarrow> if a = [] \<and> b = [] then None else Some (a, b)
            | _ \<Rightarrow> None))"

definition scale10 :: "int \<Rightarrow> real" where
  "scale10 e = (if 0 \<le> e then 10 ^ nat e else inverse (10 ^ nat (- e)))"

definition py_unsigned_float :: "string \<Rightarrow> pyfloat option" where
  "py_unsigned_float s =
     (if lower s = ''inf'' \<or> lower s = ''infinity'' then Some PosInf
      else if lower s = ''nan'' then Some NaN
      else let is_e = (\<lambda>c. c = CHR ''e'' \<or> c = CHR ''E'');
               m = takeWhile (\<lambda>c. \<not> is_e c) s; x = dropWhile (\<lambda>c. \<not> is_e c) s in
        (case (py_mantissa m, if x = [] then Some 0 else py_signed (tl x)) of
           (Some (a, b), Some e) \<Rightarrow>
             Some (Fin (real (undec (a @ b)) * scale10 (e - int (length b))))
         | _ \<Rightarrow> None))"

fun fneg :: "pyfloat \<Rightarrow> pyfloat" where
  "fneg (Fin r) = Fin (- r)"
| "fneg PosInf = NegInf"
| "fneg NegInf = PosInf"
| "fneg NaN = NaN"

definition py_float_of_str :: "string \<Rightarrow> pyfloat res" where
  "py_float_of_str s0 =
     (let s = num_strip s0;
          r = (case s of
                 [] \<Rightarrow> None
               | c # cs \<Rightarrow>
                   if c = CHR ''-'' then map_option fneg (py_unsigned_float cs)
                   else if c = CHR ''+'' then py_unsigned_float cs
                   else py_unsigned_float s)
      in case r of None \<Rightarrow> Inl ValueError | Some f \<Rightarrow> Inr f)"

fun py_float :: "pyval \<Rightarrow> pyfloat res" where
  "py_float (PFloat f) = Inr f"
| "py_float (PInt i) = Inr (Fin (real_of_int i))"
| "py_float (PBool b) = Inr (Fin (if b then 1 else 0))"
| "py_float (PStr s) = py_float_of_str s"
| "py_float _ = Inl TypeError"

lemma py_digits_digits: "ds \<noteq> [] \<Longrightarrow> \<forall>c \<in> set ds. is_digit c \<Longrightarrow> py_digits ds = Some ds"
  by (induction ds rule: py_digits.induct) (auto simp: is_digit_def code_def)

lemma digits_num_strip: "\<forall>c \<in> set ds. is_digit c \<Longrightarrow> num_strip ds = ds"
  by (auto simp: num_strip_def is_digit_def num_space_def ascii_space_def intro!: strip_by_none)

lemma py_signed_digits:
  assumes "ds \<noteq> []" "\<forall>c \<in> set ds. is_digit c"
  shows "py_signed ds = Some (int (undec ds))"
proof -
  obtain c cs where ds: "ds = c # cs" using assms(1) by (cases ds) auto
  with assms(2) have "c \<noteq> CHR ''-''" "c \<noteq> CHR ''+''" by (auto simp: is_digit_def code_def)
  with ds assms show ?thesis by (simp add: py_signed_def py_digits_digits)
qed

lemma py_int_of_dec [simp, digit_simps]: "py_int_of_str (dec n) = Inr (int n)"
  by (simp add: py_int_of_str_def digits_num_strip py_signed_digits dec_digits)

section \<open>Reading documents\<close>

text \<open>\<open>d[k]\<close> for a string \<open>k\<close>: only a dict has string subscripts.\<close>

definition py_item :: "pyval \<Rightarrow> string \<Rightarrow> pyval res" where
  "py_item d k =
     (case d of
        PDict kvs \<Rightarrow> (case map_of kvs k of None \<Rightarrow> Inl KeyError | Some v \<Rightarrow> Inr v)
      | _ \<Rightarrow> Inl TypeError)"

text \<open>\<open>d.get(k, dflt)\<close> of a dict, and \<open>v or {}\<close>.\<close>

definition dict_get :: "pyval \<Rightarrow> string \<Rightarrow> pyval \<Rightarrow> pyval" where
  "dict_get d k dflt =
     (case d of PDict kvs \<Rightarrow> (case map_of kvs k of None \<Rightarrow> dflt | Some v \<Rightarrow> v) | _ \<Rightarrow> dflt)"

definition or_empty :: "pyval \<Rightarrow> pyval" where
  "or_empty v = (if truthy v then v else PDict [])"

definition py_str :: "formatter \<Rightarrow> pyval \<Rightarrow> string" where
  "py_str F v = (case v of PStr s \<Rightarrow> s | _ \<Rightarrow> fmt_str F v)"

text \<open>\<open>except (KeyError, ValueError, TypeError)\<close>: UnicodeDecodeError is a ValueError,
  OverflowError is not.\<close>

definition skippable :: "exn \<Rightarrow> bool" where
  "skippable e \<longleftrightarrow> e = KeyError \<or> e = ValueError \<or> e = TypeError \<or> e = UnicodeDecodeError"

end
