(* ===== verification/Lease.thy ===== *)
theory Lease
  imports PyText
begin

text \<open>
  \<open>src/src/ocp/lease.py\<close>: per-GPU pause leases. The store is the dict of leases in memory
  and the state file on disk; a disk operation may fail, which the parameter \<open>io\<close> of each
  mutation says, and then the exception leaves with the memory already changed. The file is what
  \<open>json.loads\<close> makes of it (\<open>state_file\<close>). Wall-clock readings are parameters.

  The lemmas: what each operation does to every GPU, the well-formedness of the store and the
  round trip through the file.
\<close>

record lease =
  l_uid :: int
  l_user :: string
  l_gpu :: int
  l_acquired_at :: pyfloat
  l_expires_at :: pyfloat

type_synonym lease_map = "(int \<times> lease) list"

datatype state_file = SNoFile | SOSError | SNotUtf8 | SBadJson | SDoc pyval

record lease_store =
  ls_leases :: lease_map
  ls_disk :: state_file

section \<open>Leases\<close>

definition remaining_s :: "lease \<Rightarrow> real \<Rightarrow> int res" where
  "remaining_s l now = rbind (int_of_float (fsub (l_expires_at l) now)) (\<lambda>i. Inr (max 0 i))"

definition lease_to_dict :: "lease \<Rightarrow> pyval" where
  "lease_to_dict l =
     PDict [(''uid'', PInt (l_uid l)), (''user'', PStr (l_user l)), (''gpu'', PInt (l_gpu l)),
            (''acquired_at'', PFloat (l_acquired_at l)), (''expires_at'', PFloat (l_expires_at l))]"

definition lease_from_dict :: "formatter \<Rightarrow> pyval \<Rightarrow> lease res" where
  "lease_from_dict F d =
     rbind (rbind (py_item d ''uid'') py_int) (\<lambda>uid.
     rbind (py_item d ''user'') (\<lambda>user.
     rbind (rbind (py_item d ''gpu'') py_int) (\<lambda>gpu.
     rbind (rbind (py_item d ''acquired_at'') py_float) (\<lambda>acquired.
     rbind (rbind (py_item d ''expires_at'') py_float) (\<lambda>expires.
     Inr \<lparr>l_uid = uid, l_user = py_str F user, l_gpu = gpu, l_acquired_at = acquired,
          l_expires_at = expires\<rparr>)))))"

section \<open>Queries\<close>

definition lease_get :: "lease_store \<Rightarrow> int \<Rightarrow> lease option" where
  "lease_get s g = map_of (ls_leases s) g"

definition lease_all :: "lease_store \<Rightarrow> lease list" where
  "lease_all s = dvals (ls_leases s)"

definition covers :: "lease_store \<Rightarrow> int \<Rightarrow> bool" where
  "covers s g \<longleftrightarrow> g \<in> set (dkeys (ls_leases s))"

section \<open>Mutations\<close>

definition state_doc :: "lease_map \<Rightarrow> pyval" where
  "state_doc m = PDict [(''leases'', PList (map lease_to_dict (dvals m)))]"

definition persist :: "bool \<Rightarrow> lease_store \<Rightarrow> exn option \<times> lease_store" where
  "persist io s =
     (if io then (None, s\<lparr>ls_disk := SDoc (state_doc (ls_leases s))\<rparr>) else (Some OSError, s))"

fun conflict_loop :: "lease_map \<Rightarrow> int \<Rightarrow> real \<Rightarrow> int list \<Rightarrow> conflict list res" where
  "conflict_loop m uid now [] = Inr []"
| "conflict_loop m uid now (g # gs) =
     (case map_of m g of
        None \<Rightarrow> conflict_loop m uid now gs
      | Some existing \<Rightarrow>
          if l_uid existing \<noteq> uid
          then rbind (remaining_s existing now) (\<lambda>r.
               rbind (conflict_loop m uid now gs) (\<lambda>cs.
               Inr (Conflict g (l_user existing) r # cs)))
          else conflict_loop m uid now gs)"

definition new_lease :: "int \<Rightarrow> string \<Rightarrow> int \<Rightarrow> real \<Rightarrow> lease_map \<Rightarrow> int \<Rightarrow> lease" where
  "new_lease uid user duration now m g =
     (let existing = map_of m g;
          new_expires = fmax (case existing of None \<Rightarrow> Fin 0 | Some l \<Rightarrow> l_expires_at l)
                          (Fin (now + real_of_int duration));
          acquired = (case existing of None \<Rightarrow> Fin now | Some l \<Rightarrow> l_acquired_at l)
      in \<lparr>l_uid = uid, l_user = user, l_gpu = g, l_acquired_at = acquired,
          l_expires_at = new_expires\<rparr>)"

fun grant_loop ::
    "int \<Rightarrow> string \<Rightarrow> int \<Rightarrow> real \<Rightarrow> int list \<Rightarrow> lease_map \<Rightarrow> lease list \<times> lease_map" where
  "grant_loop uid user duration now [] m = ([], m)"
| "grant_loop uid user duration now (g # gs) m =
     (let l = new_lease uid user duration now m g;
          (ls, m') = grant_loop uid user duration now gs (dset g l m)
      in (l # ls, m'))"

definition acquire ::
    "bool \<Rightarrow> int \<Rightarrow> string \<Rightarrow> int list \<Rightarrow> int \<Rightarrow> real \<Rightarrow> lease_store \<Rightarrow> lease list res \<times> lease_store"
  where
  "acquire io uid user gpus duration now s =
     (case conflict_loop (ls_leases s) uid now gpus of
        Inl e \<Rightarrow> (Inl e, s)
      | Inr conflicts \<Rightarrow>
          if conflicts \<noteq> [] then (Inl (PauseHeld conflicts), s)
          else let (new_leases, m) = grant_loop uid user duration now gpus (ls_leases s);
                   (err, s') = persist io (s\<lparr>ls_leases := m\<rparr>)
               in (case err of Some e \<Rightarrow> (Inl e, s') | None \<Rightarrow> (Inr new_leases, s')))"

datatype release_error = RelError (re_gpu: int) (re_code: string) (re_holder: "string option")

fun release_loop ::
    "int \<Rightarrow> bool \<Rightarrow> int list \<Rightarrow> lease_map \<Rightarrow> int list \<times> release_error list \<times> lease_map" where
  "release_loop uid as_root [] m = ([], [], m)"
| "release_loop uid as_root (g # gs) m =
     (case map_of m g of
        None \<Rightarrow>
          let (rs, es, m') = release_loop uid as_root gs m
          in (rs, RelError g ''E_NO_PAUSE'' None # es, m')
      | Some l \<Rightarrow>
          if l_uid l \<noteq> uid \<and> \<not> as_root
          then let (rs, es, m') = release_loop uid as_root gs m
               in (rs, RelError g ''E_NOT_LEASE_HOLDER'' (Some (l_user l)) # es, m')
          else let (rs, es, m') = release_loop uid as_root gs (ddel g m)
               in (g # rs, es, m'))"

definition release ::
    "bool \<Rightarrow> int \<Rightarrow> int list \<Rightarrow> bool \<Rightarrow> lease_store \<Rightarrow>
     (int list \<times> release_error list) res \<times> lease_store" where
  "release io uid gpus as_root s =
     (let (released, errors, m) = release_loop uid as_root gpus (ls_leases s);
          s1 = s\<lparr>ls_leases := m\<rparr>
      in if released \<noteq> []
         then (case persist io s1 of
                 (Some e, s2) \<Rightarrow> (Inl e, s2)
               | (None, s2) \<Rightarrow> (Inr (released, errors), s2))
         else (Inr (released, errors), s1))"

definition expire :: "bool \<Rightarrow> int \<Rightarrow> lease_store \<Rightarrow> lease option res \<times> lease_store" where
  "expire io g s =
     (case lease_get s g of
        None \<Rightarrow> (Inr None, s)
      | Some l \<Rightarrow>
          (case persist io (s\<lparr>ls_leases := ddel g (ls_leases s)\<rparr>) of
             (Some e, s') \<Rightarrow> (Inl e, s')
           | (None, s') \<Rightarrow> (Inr (Some l), s')))"

text \<open>The keys come from the dict itself, so each \<open>pop\<close> finds its entry.\<close>

fun pop_all :: "int list \<Rightarrow> lease_map \<Rightarrow> lease list \<times> lease_map" where
  "pop_all [] m = ([], m)"
| "pop_all (g # gs) m =
     (let (ls, m') = pop_all gs (ddel g m)
      in (case map_of m g of None \<Rightarrow> ls | Some l \<Rightarrow> l # ls, m'))"

definition expired_keys :: "real \<Rightarrow> lease_map \<Rightarrow> int list" where
  "expired_keys now m = dkeys (filter (\<lambda>(g, l). l_expires_at l \<le> Fin now) m)"

definition sweep_expired :: "bool \<Rightarrow> real \<Rightarrow> lease_store \<Rightarrow> lease list res \<times> lease_store" where
  "sweep_expired io now s =
     (let (out, m) = pop_all (expired_keys now (ls_leases s)) (ls_leases s);
          s1 = s\<lparr>ls_leases := m\<rparr>
      in if out \<noteq> []
         then (case persist io s1 of
                 (Some e, s2) \<Rightarrow> (Inl e, s2)
               | (None, s2) \<Rightarrow> (Inr out, s2))
         else (Inr out, s1))"

section \<open>Loading\<close>

fun load_loop ::
    "formatter \<Rightarrow> real \<Rightarrow> pyval list \<Rightarrow> lease_map \<Rightarrow> lease list \<Rightarrow> lease list res \<times> lease_map" where
  "load_loop F now [] m loaded = (Inr loaded, m)"
| "load_loop F now (d # ds) m loaded =
     (case lease_from_dict F d of
        Inl e \<Rightarrow> if skippable e then load_loop F now ds m loaded else (Inl e, m)
      | Inr l \<Rightarrow>
          if Fin now < l_expires_at l
          then load_loop F now ds (dset (l_gpu l) l m) (loaded @ [l])
          else load_loop F now ds m loaded)"

definition load_leases :: "formatter \<Rightarrow> real \<Rightarrow> lease_store \<Rightarrow> lease list res \<times> lease_store" where
  "load_leases F now s =
     (case ls_disk s of
        SNoFile \<Rightarrow> (Inr [], s)
      | SOSError \<Rightarrow> (Inr [], s)
      | SBadJson \<Rightarrow> (Inr [], s)
      | SNotUtf8 \<Rightarrow> (Inl UnicodeDecodeError, s)
      | SDoc raw \<Rightarrow>
          (case raw of
             PDict kvs \<Rightarrow>
               let v = (case map_of kvs ''leases'' of None \<Rightarrow> PNone | Some v \<Rightarrow> v);
                   v' = (if truthy v then v else PList [])
               in (case v' of
                     PList ds \<Rightarrow>
                       let (r, m) = load_loop F now ds (ls_leases s) []
                       in (r, s\<lparr>ls_leases := m\<rparr>)
                   | PStr _ \<Rightarrow> (Inr [], s)
                   | PDict _ \<Rightarrow> (Inr [], s)
                   | _ \<Rightarrow> (Inl TypeError, s))
           | _ \<Rightarrow> (Inl AttributeError, s)))"

section \<open>Well-formed stores\<close>

definition map_ok :: "lease_map \<Rightarrow> bool" where
  "map_ok m \<longleftrightarrow> distinct (dkeys m) \<and>
     (\<forall>(g, l) \<in> set m. l_gpu l = g \<and> l_expires_at l \<noteq> NaN)"

lemma map_ok_Nil [simp]: "map_ok []"
  by (simp add: map_ok_def)

lemma map_ok_lookup: "map_ok m \<Longrightarrow> map_of m g = Some l \<Longrightarrow> l_gpu l = g \<and> l_expires_at l \<noteq> NaN"
  by (auto simp: map_ok_def dest: map_of_SomeD)

lemma map_ok_dset:
  assumes "map_ok m" "l_gpu l = g" "l_expires_at l \<noteq> NaN"
  shows "map_ok (dset g l m)"
  using assms set_dset_subset [of g l m] by (fastforce simp: map_ok_def)

lemma map_ok_ddel: "map_ok m \<Longrightarrow> map_ok (ddel g m)"
  by (auto simp: map_ok_def ddel_filter distinct_map_filter)

lemma map_ok_filter: "map_ok m \<Longrightarrow> map_ok (filter P m)"
  by (auto simp: map_ok_def distinct_map_filter)

lemma new_lease_fields [simp]:
  "l_uid (new_lease uid user d now m g) = uid"
  "l_user (new_lease uid user d now m g) = user"
  "l_gpu (new_lease uid user d now m g) = g"
  by (simp_all add: new_lease_def Let_def)

lemma new_lease_not_NaN: "map_ok m \<Longrightarrow> l_expires_at (new_lease uid user d now m g) \<noteq> NaN"
  using map_ok_lookup by (simp add: new_lease_def Let_def fmax_not_NaN split: option.splits)

lemma grant_loop_map_ok: "map_ok m \<Longrightarrow> map_ok (snd (grant_loop uid user d now gs m))"
  by (induction gs arbitrary: m)
    (simp_all add: Let_def case_prod_beta map_ok_dset new_lease_not_NaN)

lemma release_loop_map_ok: "map_ok m \<Longrightarrow> map_ok (snd (snd (release_loop uid r gs m)))"
  by (induction gs arbitrary: m) (auto simp: case_prod_beta map_ok_ddel split: option.splits)

lemma pop_all_snd: "snd (pop_all gs m) = filter (\<lambda>(g, l). g \<notin> set gs) m"
  by (induction gs arbitrary: m) (auto simp: case_prod_beta ddel_filter intro!: filter_cong)

lemma load_loop_map_ok: "map_ok m \<Longrightarrow> map_ok (snd (load_loop F now ds m out))"
proof (induction ds arbitrary: m out)
  case (Cons d ds)
  then show ?case
    by (auto intro!: Cons.IH map_ok_dset split: sum.splits)
qed simp

lemma persist_leases [simp]: "ls_leases (snd (persist io s)) = ls_leases s"
  by (simp add: persist_def)

lemma persist_cases:
  "persist io s = (if io then (None, s\<lparr>ls_disk := SDoc (state_doc (ls_leases s))\<rparr>)
                   else (Some OSError, s))"
  by (simp add: persist_def)

text \<open>What the operations leave in memory, whatever the disk does.\<close>

lemma acquire_leases:
  "ls_leases (snd (acquire io uid user gs d now s)) =
   (if conflict_loop (ls_leases s) uid now gs = Inr []
    then snd (grant_loop uid user d now gs (ls_leases s)) else ls_leases s)"
  by (auto simp: acquire_def Let_def case_prod_beta persist_cases split: sum.splits)

lemma release_leases:
  "ls_leases (snd (release io uid gs r s)) = snd (snd (release_loop uid r gs (ls_leases s)))"
  by (auto simp: release_def Let_def case_prod_beta persist_cases)

lemma sweep_leases:
  "ls_leases (snd (sweep_expired io now s)) =
   filter (\<lambda>(g, l). g \<notin> set (expired_keys now (ls_leases s))) (ls_leases s)"
  by (auto simp: sweep_expired_def Let_def case_prod_beta persist_cases pop_all_snd [symmetric])

lemma load_leases_map_ok: "map_ok (ls_leases s) \<Longrightarrow> map_ok (ls_leases (snd (load_leases F now s)))"
  by (auto simp: load_leases_def Let_def case_prod_beta load_loop_map_ok
      split: state_file.splits pyval.splits)

text \<open>Every operation of the store, failing or not, keeps it well-formed: one lease per GPU,
  filed under its own GPU, with a deadline that can be compared.\<close>

theorem lease_ops_map_ok:
  assumes "map_ok (ls_leases s)"
  shows "map_ok (ls_leases (snd (acquire io uid user gs d now s))) \<and>
    map_ok (ls_leases (snd (release io uid gs r s))) \<and>
    map_ok (ls_leases (snd (expire io g s))) \<and>
    map_ok (ls_leases (snd (sweep_expired io now s))) \<and>
    map_ok (ls_leases (snd (load_leases F now s)))"
  using assms
  by (auto simp: acquire_leases release_leases sweep_leases expire_def persist_cases
      grant_loop_map_ok release_loop_map_ok load_leases_map_ok map_ok_filter map_ok_ddel
      split: option.splits)

theorem lease_ops_map_ok_witness:
  "map_ok (ls_leases (snd (acquire True 1001 ''alice'' [0, 1] 60 1000
     \<lparr>ls_leases = [], ls_disk = SNoFile\<rparr>)))"
  using lease_ops_map_ok [of "\<lparr>ls_leases = [], ls_disk = SNoFile\<rparr>"] by simp

section \<open>Acquiring\<close>

definition foreign :: "lease_map \<Rightarrow> int \<Rightarrow> int \<Rightarrow> bool" where
  "foreign m uid g \<longleftrightarrow> (case map_of m g of None \<Rightarrow> False | Some l \<Rightarrow> l_uid l \<noteq> uid)"

definition finite_deadlines :: "lease_map \<Rightarrow> bool" where
  "finite_deadlines m \<longleftrightarrow> (\<forall>(g, l) \<in> set m. \<exists>r. l_expires_at l = Fin r)"

lemma foreign_simps:
  "map_of m g = None \<Longrightarrow> foreign m uid g = False"
  "map_of m g = Some l \<Longrightarrow> foreign m uid g \<longleftrightarrow> l_uid l \<noteq> uid"
  by (simp_all add: foreign_def)

lemma conflict_loop_Nil: "conflict_loop m uid now gs = Inr [] \<longleftrightarrow> (\<forall>g \<in> set gs. \<not> foreign m uid g)"
  by (induction gs) (auto simp: foreign_def res_simps split: option.splits)

lemma remaining_s_finite:
  "finite_deadlines m \<Longrightarrow> map_of m g = Some l \<Longrightarrow> \<exists>r. remaining_s l now = Inr r"
  by (force simp: finite_deadlines_def remaining_s_def dest: map_of_SomeD)

lemma conflict_loop_exact:
  "finite_deadlines m \<Longrightarrow>
   \<exists>cs. conflict_loop m uid now gs = Inr cs \<and> map cf_gpu cs = filter (foreign m uid) gs \<and>
     (\<forall>c \<in> set cs. \<exists>l. map_of m (cf_gpu c) = Some l \<and> cf_holder c = l_user l \<and>
        remaining_s l now = Inr (cf_remaining c))"
proof (induction gs)
  case (Cons g gs)
  then obtain cs where cs: "conflict_loop m uid now gs = Inr cs"
      "map cf_gpu cs = filter (foreign m uid) gs"
      "\<forall>c \<in> set cs. \<exists>l. map_of m (cf_gpu c) = Some l \<and> cf_holder c = l_user l \<and>
        remaining_s l now = Inr (cf_remaining c)"
    by blast
  show ?case
  proof (cases "foreign m uid g")
    case True
    then obtain l where l: "map_of m g = Some l" "l_uid l \<noteq> uid"
      by (auto simp: foreign_def split: option.splits)
    with remaining_s_finite [OF Cons.prems] obtain r where "remaining_s l now = Inr r" by blast
    with cs l True show ?thesis by (auto intro!: exI [of _ "Conflict g (l_user l) r # cs"])
  next
    case False
    with cs show ?thesis by (cases "map_of m g") (auto simp: foreign_simps)
  qed
qed simp

text \<open>Acquisition over several GPUs is all or nothing: when another uid holds any of them,
  nothing changes, in memory or on disk, and the error is PauseHeld, listing exactly the GPUs
  held by others, in the order requested, each with its holder and remaining time.\<close>

theorem acquire_all_or_nothing:
  assumes "finite_deadlines (ls_leases s)" "g \<in> set gs" "foreign (ls_leases s) uid g"
  shows "\<exists>cs. acquire io uid user gs d now s = (Inl (PauseHeld cs), s) \<and>
    map cf_gpu cs = filter (foreign (ls_leases s) uid) gs \<and>
    (\<forall>c \<in> set cs. \<exists>l. lease_get s (cf_gpu c) = Some l \<and> cf_holder c = l_user l \<and>
       remaining_s l now = Inr (cf_remaining c))"
proof -
  obtain cs where cs: "conflict_loop (ls_leases s) uid now gs = Inr cs"
      "map cf_gpu cs = filter (foreign (ls_leases s) uid) gs"
      "\<forall>c \<in> set cs. \<exists>l. map_of (ls_leases s) (cf_gpu c) = Some l \<and> cf_holder c = l_user l \<and>
        remaining_s l now = Inr (cf_remaining c)"
    using conflict_loop_exact [OF assms(1)] by blast
  have "g \<in> set (map cf_gpu cs)" using assms(2,3) cs(2) by simp
  then have "cs \<noteq> []" by auto
  with cs show ?thesis by (auto simp: acquire_def lease_get_def)
qed

theorem acquire_all_or_nothing_witness:
  "\<exists>cs. acquire True 2002 ''bob'' [1, 0] 60 1000
     \<lparr>ls_leases = [(0, \<lparr>l_uid = 1001, l_user = ''alice'', l_gpu = 0, l_acquired_at = Fin 900,
        l_expires_at = Fin 1500\<rparr>)], ls_disk = SNoFile\<rparr> =
     (Inl (PauseHeld cs),
      \<lparr>ls_leases = [(0, \<lparr>l_uid = 1001, l_user = ''alice'', l_gpu = 0, l_acquired_at = Fin 900,
        l_expires_at = Fin 1500\<rparr>)], ls_disk = SNoFile\<rparr>) \<and> map cf_gpu cs = [0]"
proof -
  let ?s = "\<lparr>ls_leases = [(0, \<lparr>l_uid = 1001, l_user = ''alice'', l_gpu = 0,
    l_acquired_at = Fin 900, l_expires_at = Fin 1500\<rparr>)], ls_disk = SNoFile\<rparr>"
  have "filter (foreign (ls_leases ?s) 2002) [1, 0] = [0]" by (simp add: foreign_def)
  with acquire_all_or_nothing [of ?s 0 "[1, 0]" 2002 True "''bob''" 60 1000] show ?thesis
    by (auto simp: finite_deadlines_def foreign_def)
qed

lemma new_lease_cong:
  "map_of m g = map_of m' g \<Longrightarrow> new_lease uid user d now m g = new_lease uid user d now m' g"
  by (simp add: new_lease_def Let_def)

lemma new_lease_again:
  "new_lease uid user d now (dset g (new_lease uid user d now m g) m) g =
   new_lease uid user d now m g"
  by (simp add: new_lease_def Let_def fmax_assoc2)

lemma new_lease_after:
  "new_lease uid user d now (dset a (new_lease uid user d now m a) m) g =
   new_lease uid user d now m g"
proof (cases "g = a")
  case True
  then show ?thesis using new_lease_again by simp
next
  case False
  then show ?thesis by (intro new_lease_cong) simp
qed

lemma grant_loop_result:
  "fst (grant_loop uid user d now gs m) = map (new_lease uid user d now m) gs"
  by (induction gs arbitrary: m) (simp_all add: Let_def case_prod_beta new_lease_after)

lemma grant_loop_lookup:
  "map_of (snd (grant_loop uid user d now gs m)) g =
   (if g \<in> set gs then Some (new_lease uid user d now m g) else map_of m g)"
  by (induction gs arbitrary: m) (auto simp: Let_def case_prod_beta new_lease_after)

lemma new_lease_deadline:
  assumes "map_ok m"
  shows "Fin (now + real_of_int d) \<le> l_expires_at (new_lease uid user d now m g) \<and>
    (\<forall>l. map_of m g = Some l \<longrightarrow>
       l_expires_at l \<le> l_expires_at (new_lease uid user d now m g) \<and>
       l_acquired_at (new_lease uid user d now m g) = l_acquired_at l \<and>
       l_expires_at (new_lease uid user d now m g) \<in> {l_expires_at l, Fin (now + real_of_int d)})"
  using assms
  by (auto simp: new_lease_def Let_def fmax_def pyfloat_less_imp_le split: option.splits
      dest!: map_ok_lookup)
    (metis pyfloat.distinct(5) pyfloat_le_refl pyfloat_not_le)+

text \<open>When no one else holds any of the requested GPUs, each of them ends up leased to the
  caller, until at least \<open>now + duration\<close> and never for less than a lease the caller already
  had (which keeps its acquisition time); every other GPU's lease is untouched. The new leases
  are returned in order and the file holds the new state.\<close>

theorem acquire_granted:
  assumes "map_ok (ls_leases s)" "\<forall>g \<in> set gs. \<not> foreign (ls_leases s) uid g"
  shows "\<exists>f s'. acquire True uid user gs d now s = (Inr (map f gs), s') \<and>
    (\<forall>g. lease_get s' g = (if g \<in> set gs then Some (f g) else lease_get s g)) \<and>
    (\<forall>g \<in> set gs. l_uid (f g) = uid \<and> l_user (f g) = user \<and> l_gpu (f g) = g \<and>
       Fin (now + real_of_int d) \<le> l_expires_at (f g) \<and>
       (\<forall>l. lease_get s g = Some l \<longrightarrow>
          l_expires_at l \<le> l_expires_at (f g) \<and> l_acquired_at (f g) = l_acquired_at l \<and>
          l_expires_at (f g) \<in> {l_expires_at l, Fin (now + real_of_int d)})) \<and>
    ls_disk s' = SDoc (state_doc (ls_leases s'))"
proof -
  let ?f = "new_lease uid user d now (ls_leases s)"
  let ?m = "snd (grant_loop uid user d now gs (ls_leases s))"
  have "conflict_loop (ls_leases s) uid now gs = Inr []"
    using assms(2) by (simp add: conflict_loop_Nil)
  then have "acquire True uid user gs d now s =
      (Inr (map ?f gs), s\<lparr>ls_leases := ?m, ls_disk := SDoc (state_doc ?m)\<rparr>)"
    using grant_loop_result [of uid user d now gs "ls_leases s"]
    by (simp add: acquire_def Let_def case_prod_beta persist_cases)
  then show ?thesis
    using new_lease_deadline [OF assms(1), of now d uid user]
    by (intro exI [of _ ?f] exI conjI) (auto simp: lease_get_def grant_loop_lookup)
qed

theorem acquire_granted_witness:
  "\<exists>f s'. acquire True 1001 ''alice'' [3, 5 :: int] 600 1000
       \<lparr>ls_leases = [], ls_disk = SNoFile\<rparr> =
     (Inr (map f [3, 5]), s') \<and> l_uid (f (3 :: int)) = 1001"
proof -
  have "map_ok (ls_leases \<lparr>ls_leases = [], ls_disk = SNoFile\<rparr>)" by simp
  from acquire_granted [OF this, of "[3, 5]" 1001 "''alice''" 600 1000] show ?thesis
    by (simp add: foreign_def) blast
qed

section \<open>Releasing\<close>

definition releasable :: "lease_map \<Rightarrow> int \<Rightarrow> bool \<Rightarrow> int \<Rightarrow> bool" where
  "releasable m uid as_root g \<longleftrightarrow>
     (case map_of m g of None \<Rightarrow> False | Some l \<Rightarrow> l_uid l = uid \<or> as_root)"

definition refusal :: "lease_map \<Rightarrow> int \<Rightarrow> release_error" where
  "refusal m g =
     (case map_of m g of
        None \<Rightarrow> RelError g ''E_NO_PAUSE'' None
      | Some l \<Rightarrow> RelError g ''E_NOT_LEASE_HOLDER'' (Some (l_user l)))"

lemma releasable_simps:
  "map_of m g = None \<Longrightarrow> releasable m uid r g = False"
  "map_of m g = Some l \<Longrightarrow> releasable m uid r g \<longleftrightarrow> l_uid l = uid \<or> r"
  by (simp_all add: releasable_def)

lemma refusal_simps:
  "map_of m g = None \<Longrightarrow> refusal m g = RelError g ''E_NO_PAUSE'' None"
  "map_of m g = Some l \<Longrightarrow> refusal m g = RelError g ''E_NOT_LEASE_HOLDER'' (Some (l_user l))"
  by (simp_all add: refusal_def)

lemma release_frame:
  "g \<noteq> a \<Longrightarrow> releasable (ddel a m) uid r g = releasable m uid r g"
  "g \<noteq> a \<Longrightarrow> refusal (ddel a m) g = refusal m g"
  by (simp_all add: releasable_def refusal_def)

lemma release_loop_spec:
  "distinct gs \<Longrightarrow> release_loop uid r gs m =
     (filter (releasable m uid r) gs,
      map (refusal m) (filter (\<lambda>g. \<not> releasable m uid r g) gs),
      filter (\<lambda>(g, l). \<not> (g \<in> set gs \<and> releasable m uid r g)) m)"
proof (induction gs arbitrary: m)
  case Nil
  then show ?case by (simp add: case_prod_beta)
next
  case (Cons a gs)
  then have a: "a \<notin> set gs" and IH: "\<And>m. release_loop uid r gs m =
     (filter (releasable m uid r) gs,
      map (refusal m) (filter (\<lambda>g. \<not> releasable m uid r g) gs),
      filter (\<lambda>(g, l). \<not> (g \<in> set gs \<and> releasable m uid r g)) m)"
    by auto
  show ?case
  proof (cases "releasable m uid r a")
    case True
    then obtain l where l: "map_of m a = Some l" "\<not> (l_uid l \<noteq> uid \<and> \<not> r)"
      by (auto simp: releasable_def split: option.splits)
    have other: "releasable (ddel a m) uid r g = releasable m uid r g"
        "refusal (ddel a m) g = refusal m g" if "g \<in> set gs" for g
      using that a release_frame by metis+
    have "filter (releasable (ddel a m) uid r) gs = filter (releasable m uid r) gs"
      "map (refusal (ddel a m)) (filter (\<lambda>g. \<not> releasable (ddel a m) uid r g) gs) =
       map (refusal m) (filter (\<lambda>g. \<not> releasable m uid r g) gs)"
      using other by (auto cong: filter_cong)
    moreover have "filter (\<lambda>(g, l). \<not> (g \<in> set gs \<and> releasable (ddel a m) uid r g)) (ddel a m) =
        filter (\<lambda>(g, l). \<not> (g \<in> set (a # gs) \<and> releasable m uid r g)) m"
    proof -
      have "filter (\<lambda>(g, l). \<not> (g \<in> set gs \<and> releasable (ddel a m) uid r g)) (filter (\<lambda>p. fst p \<noteq> a) m) =
          filter (\<lambda>(g, l). \<not> (g \<in> set (a # gs) \<and> releasable m uid r g)) m"
        using True other(1) by (auto intro!: filter_cong)
      then show ?thesis by (simp add: ddel_filter [of a m, symmetric])
    qed
    ultimately show ?thesis using l True IH [of "ddel a m"] by auto
  next
    case False
    have "filter (\<lambda>(g, l). \<not> (g \<in> set (a # gs) \<and> releasable m uid r g)) m =
        filter (\<lambda>(g, l). \<not> (g \<in> set gs \<and> releasable m uid r g)) m"
      using False by (auto intro!: filter_cong)
    with False IH [of m] show ?thesis
      by (cases "map_of m a") (auto simp: releasable_simps refusal_simps)
  qed
qed

text \<open>Releasing is per GPU: of the distinct GPUs asked for, exactly those leased to the caller
  (to anyone, for root) are released, in order; each other one is reported with the reason (no
  lease, or another holder, who is named), and every lease not released stays.\<close>

theorem release_partition:
  assumes "distinct gs"
  shows "\<exists>s'. release True uid gs r s =
      (Inr (filter (releasable (ls_leases s) uid r) gs,
            map (refusal (ls_leases s)) (filter (\<lambda>g. \<not> releasable (ls_leases s) uid r g) gs)), s') \<and>
    ls_leases s' =
      filter (\<lambda>(g, l). \<not> (g \<in> set gs \<and> releasable (ls_leases s) uid r g)) (ls_leases s)"
  using release_loop_spec [OF assms, of uid r "ls_leases s"]
  by (simp add: release_def persist_cases Let_def)

theorem release_partition_witness:
  "\<exists>s'. release True 1001 [0, 1, 2] False
      \<lparr>ls_leases = [(0, \<lparr>l_uid = 1001, l_user = ''alice'', l_gpu = 0, l_acquired_at = Fin 0,
        l_expires_at = Fin 60\<rparr>), (1, \<lparr>l_uid = 7, l_user = ''bob'', l_gpu = 1,
        l_acquired_at = Fin 0, l_expires_at = Fin 60\<rparr>)], ls_disk = SNoFile\<rparr> =
    (Inr ([0], [RelError 1 ''E_NOT_LEASE_HOLDER'' (Some ''bob''), RelError 2 ''E_NO_PAUSE'' None]), s')"
  using release_partition [of "[0, 1, 2]" 1001 False "\<lparr>ls_leases = [(0, \<lparr>l_uid = 1001,
      l_user = ''alice'', l_gpu = 0, l_acquired_at = Fin 0, l_expires_at = Fin 60\<rparr>),
      (1, \<lparr>l_uid = 7, l_user = ''bob'', l_gpu = 1, l_acquired_at = Fin 0, l_expires_at = Fin 60\<rparr>)],
      ls_disk = SNoFile\<rparr>"]
  by (auto simp: releasable_def refusal_def)

section \<open>Expiry\<close>

definition live :: "real \<Rightarrow> lease_map \<Rightarrow> lease_map" where
  "live now m = filter (\<lambda>(g, l). Fin now < l_expires_at l) m"

definition expired :: "real \<Rightarrow> lease_map \<Rightarrow> lease_map" where
  "expired now m = filter (\<lambda>(g, l). l_expires_at l \<le> Fin now) m"

lemma pop_all_fst: "distinct gs \<Longrightarrow> set gs \<subseteq> set (dkeys m) \<Longrightarrow>
    fst (pop_all gs m) = map (\<lambda>g. the (map_of m g)) gs"
proof (induction gs arbitrary: m)
  case (Cons a gs)
  then obtain l where "map_of m a = Some l"
    by (metis list.set_intros(1) map_of_eq_None_iff not_Some_eq set_map subset_iff)
  moreover have "fst (pop_all gs (ddel a m)) = map (\<lambda>g. the (map_of (ddel a m) g)) gs"
    using Cons.prems by (intro Cons.IH) (auto simp del: set_map simp: ddel_keys)
  moreover have "map (\<lambda>g. the (map_of (ddel a m) g)) gs = map (\<lambda>g. the (map_of m g)) gs"
    using Cons.prems by auto
  ultimately show ?case by (simp add: case_prod_beta)
qed simp

lemma pop_expired:
  assumes "map_ok m"
  shows "pop_all (expired_keys now m) m = (dvals (expired now m), live now m)"
proof -
  have dist: "distinct (dkeys m)" using assms by (simp add: map_ok_def)
  have keys: "distinct (expired_keys now m)" "set (expired_keys now m) \<subseteq> set (dkeys m)"
    using dist by (auto simp: expired_keys_def distinct_map_filter)
  have "map (\<lambda>g. the (map_of m g)) (expired_keys now m) = dvals (expired now m)"
    using dist by (auto simp: expired_keys_def expired_def)
  moreover have "g \<in> set (expired_keys now m) \<longleftrightarrow> l_expires_at l \<le> Fin now" if "(g, l) \<in> set m" for g l
    using that dist by (auto simp: expired_keys_def image_iff) (metis eq_key_imp_eq_value)
  moreover have "\<not> l_expires_at l \<le> Fin now \<longleftrightarrow> Fin now < l_expires_at l" if "(g, l) \<in> set m" for g l
    using that assms by (cases "l_expires_at l") (auto simp: map_ok_def)
  ultimately show ?thesis
    using pop_all_fst [OF keys] pop_all_snd [of "expired_keys now m" m]
    by (auto simp: live_def prod_eq_iff intro!: filter_cong)
qed

text \<open>A sweep at time \<open>now\<close> removes exactly the leases whose deadline has passed and returns
  them in order: afterwards every lease left ends strictly after \<open>now\<close>.\<close>

theorem sweep_expired_exact:
  assumes "map_ok (ls_leases s)"
  shows "\<exists>s'. sweep_expired True now s = (Inr (dvals (expired now (ls_leases s))), s') \<and>
    ls_leases s' = live now (ls_leases s)"
  using pop_expired [OF assms, of now]
  by (simp add: sweep_expired_def persist_cases Let_def)

theorem sweep_expired_exact_witness:
  "\<exists>s'. sweep_expired True 1020 \<lparr>ls_leases = [(0, \<lparr>l_uid = 1, l_user = ''a'', l_gpu = 0,
      l_acquired_at = Fin 1000, l_expires_at = Fin 1010\<rparr>)], ls_disk = SNoFile\<rparr> =
     (Inr [\<lparr>l_uid = 1, l_user = ''a'', l_gpu = 0, l_acquired_at = Fin 1000,
        l_expires_at = Fin 1010\<rparr>], s') \<and> ls_leases s' = []"
  using sweep_expired_exact [of "\<lparr>ls_leases = [(0, \<lparr>l_uid = 1, l_user = ''a'', l_gpu = 0,
      l_acquired_at = Fin 1000, l_expires_at = Fin 1010\<rparr>)], ls_disk = SNoFile\<rparr>" 1020]
  by (simp add: map_ok_def expired_def live_def)

section \<open>Persistence\<close>

lemma lease_from_to_dict: "lease_from_dict F (lease_to_dict l) = Inr l"
  by (simp add: lease_from_dict_def lease_to_dict_def py_item_def py_str_def)

lemma load_loop_docs:
  assumes "map_ok (acc @ m)"
  shows "load_loop F now (map lease_to_dict (dvals m)) acc out =
    (Inr (out @ dvals (live now m)), acc @ live now m)"
  using assms
proof (induction m arbitrary: acc out)
  case Nil
  then show ?case by (simp add: live_def)
next
  case (Cons p m)
  obtain g l where p: "p = (g, l)" by (cases p)
  from Cons.prems have l: "l_gpu l = g" and fresh: "g \<notin> set (dkeys acc)"
    by (auto simp: map_ok_def p)
  show ?case
  proof (cases "Fin now < l_expires_at l")
    case True
    have "map_ok ((acc @ [(g, l)]) @ m)" using Cons.prems p by simp
    from Cons.IH [OF this, of "out @ [l]"] True show ?thesis
      by (simp add: p l lease_from_to_dict dset_fresh [OF fresh] live_def)
  next
    case False
    have "map_ok (acc @ m)" using Cons.prems by (auto simp: map_ok_def)
    from Cons.IH [OF this, of out] False show ?thesis
      by (simp add: p lease_from_to_dict live_def)
  qed
qed

definition crashed :: "lease_store \<Rightarrow> lease_store" where
  "crashed s = s\<lparr>ls_leases := []\<rparr>"

lemma load_state_doc:
  assumes "map_ok m"
  shows "load_leases F now \<lparr>ls_leases = [], ls_disk = SDoc (state_doc m)\<rparr> =
    (Inr (dvals (live now m)), \<lparr>ls_leases = live now m, ls_disk = SDoc (state_doc m)\<rparr>)"
  using load_loop_docs [of "[]" m F now "[]"] assms
  by (cases "m = []") (auto simp: load_leases_def state_doc_def live_def)

text \<open>Round trip through the state file: a fresh store that loads what \<open>persist\<close> wrote gets
  back exactly the leases that have not expired by then, in the same order, and returns them.\<close>

theorem load_persist:
  assumes "map_ok (ls_leases s)"
  shows "load_leases F now (crashed (snd (persist True s))) =
    (Inr (dvals (live now (ls_leases s))),
     \<lparr>ls_leases = live now (ls_leases s), ls_disk = SDoc (state_doc (ls_leases s))\<rparr>)"
proof -
  have "crashed (snd (persist True s)) = \<lparr>ls_leases = [], ls_disk = SDoc (state_doc (ls_leases s))\<rparr>"
    by (simp add: crashed_def persist_def)
  with load_state_doc [OF assms] show ?thesis by simp
qed

theorem load_persist_witness:
  "fst (load_leases plain_fmt 2000 (crashed (snd (persist True
     \<lparr>ls_leases = [(3, \<lparr>l_uid = 1, l_user = ''a'', l_gpu = 3, l_acquired_at = Fin 1000,
        l_expires_at = Fin 1001\<rparr>), (4, \<lparr>l_uid = 1, l_user = ''a'', l_gpu = 4,
        l_acquired_at = Fin 1000, l_expires_at = Fin 2001\<rparr>)], ls_disk = SNoFile\<rparr>)))) =
   Inr [\<lparr>l_uid = 1, l_user = ''a'', l_gpu = 4, l_acquired_at = Fin 1000, l_expires_at = Fin 2001\<rparr>]"
  using load_persist [of "\<lparr>ls_leases = [(3, \<lparr>l_uid = 1, l_user = ''a'', l_gpu = 3,
      l_acquired_at = Fin 1000, l_expires_at = Fin 1001\<rparr>), (4, \<lparr>l_uid = 1, l_user = ''a'',
      l_gpu = 4, l_acquired_at = Fin 1000, l_expires_at = Fin 2001\<rparr>)], ls_disk = SNoFile\<rparr>" plain_fmt 2000]
  by (simp add: map_ok_def live_def)

end
