(* ===== verification/LeaseRuns.thy ===== *)
theory LeaseRuns
  imports Lease
begin

text \<open>
  Lives of the lease store of \<open>src/src/ocp/lease.py\<close>: runs of its operations with restarts
  in between, whatever writes fail, for which the state file holds the leases of the last successful
  write, and sequences of requests by several users, over which leases are exclusive (contract \<open>exclusive_store\<close>).
\<close>

section \<open>Recovery after a crash\<close>

text \<open>
  A life of the store from an empty directory: acquisitions, releases, single expiries and
  sweeps, each with a disk that takes the write (\<open>io\<close>) or does not, and restarts (the memory is
  lost and \<open>load\<close> runs), at times that never go back. The time is that of the last step. Beside
  the store stand the leases as they were in memory when a write last succeeded, and whether the
  memory is still in step with them: \<open>persist\<close> comes after the change, so that an operation that
  raised its OSError has changed the memory alone.
\<close>

type_synonym save_point = "lease_map \<times> bool"

definition last_saved :: "('a \<Rightarrow> bool) \<Rightarrow> 'a res \<times> lease_store \<Rightarrow> save_point \<Rightarrow> save_point" where
  "last_saved writes out p =
     (case fst out of
        Inl e \<Rightarrow> if e = OSError then (fst p, False) else p
      | Inr x \<Rightarrow> if writes x then (ls_leases (snd out), True) else p)"

inductive lease_run :: "formatter \<Rightarrow> real \<Rightarrow> save_point \<Rightarrow> lease_store \<Rightarrow> bool" for F where
  start: "lease_run F t ([], True) \<lparr>ls_leases = [], ls_disk = SNoFile\<rparr>"
| acquire: "lease_run F t p s \<Longrightarrow> t \<le> t' \<Longrightarrow> out = acquire io uid user gs d t' s \<Longrightarrow>
     lease_run F t' (last_saved (\<lambda>_. True) out p) (snd out)"
| release: "lease_run F t p s \<Longrightarrow> t \<le> t' \<Longrightarrow> out = release io uid gs r s \<Longrightarrow>
     lease_run F t' (last_saved (\<lambda>(released, errors). released \<noteq> []) out p) (snd out)"
| expire: "lease_run F t p s \<Longrightarrow> t \<le> t' \<Longrightarrow> out = expire io g s \<Longrightarrow>
     lease_run F t' (last_saved (\<lambda>l. l \<noteq> None) out p) (snd out)"
| sweep: "lease_run F t p s \<Longrightarrow> t \<le> t' \<Longrightarrow> out = sweep_expired io t' s \<Longrightarrow>
     lease_run F t' (last_saved (\<lambda>ls. ls \<noteq> []) out p) (snd out)"
| restart: "lease_run F t p s \<Longrightarrow> t \<le> t' \<Longrightarrow>
     lease_run F t' (fst p, True) (snd (load_leases F t' (crashed s)))"

definition saved :: "real \<Rightarrow> save_point \<Rightarrow> lease_store \<Rightarrow> bool" where
  "saved t p s \<longleftrightarrow> map_ok (fst p) \<and> map_ok (ls_leases s) \<and>
     (ls_disk s = SDoc (state_doc (fst p)) \<or> ls_disk s = SNoFile \<and> fst p = []) \<and>
     (snd p \<longrightarrow> (\<forall>now \<ge> t. live now (fst p) = live now (ls_leases s)))"

lemma live_live: "t \<le> now \<Longrightarrow> live now (live t m) = live now m"
  by (auto simp: live_def fin_less_iff intro!: filter_cong)

lemma live_all: "map_ok m \<Longrightarrow> expired now m = [] \<Longrightarrow> live now m = m"
  by (auto simp: live_def expired_def filter_empty_conv map_ok_def filter_id_conv
      intro!: pyfloat_not_le [THEN iffD1])

lemma release_loop_none: "fst (release_loop uid r gs m) = [] \<Longrightarrow> snd (snd (release_loop uid r gs m)) = m"
  by (induction gs arbitrary: m) (auto simp: case_prod_beta split: option.splits if_splits)

text \<open>An operation writes the memory it leaves, or raises OSError and leaves the file, or changes
  nothing.\<close>

definition writes_through :: "('a \<Rightarrow> bool) \<Rightarrow> 'a res \<times> lease_store \<Rightarrow> lease_store \<Rightarrow> bool" where
  "writes_through writes out s \<longleftrightarrow>
     (case fst out of
        Inl e \<Rightarrow> if e = OSError then ls_disk (snd out) = ls_disk s else snd out = s
      | Inr x \<Rightarrow> if writes x then ls_disk (snd out) = SDoc (state_doc (ls_leases (snd out)))
                 else snd out = s)"

lemma int_of_float_error: "int_of_float x = Inl e \<Longrightarrow> e \<noteq> OSError"
  by (cases x) auto

lemma conflict_loop_error: "conflict_loop m uid now gs = Inl e \<Longrightarrow> e \<noteq> OSError"
  by (induction gs)
    (auto simp: remaining_s_def res_simps dest: int_of_float_error split: option.splits if_splits)

lemma acquire_writes: "writes_through (\<lambda>_. True) (acquire io uid user gs d now s) s"
  using conflict_loop_error [of "ls_leases s" uid now gs]
  by (auto simp: writes_through_def acquire_def persist_cases Let_def case_prod_beta split: sum.splits)

lemma release_writes: "writes_through (\<lambda>(released, errors). released \<noteq> []) (release io uid gs r s) s"
  using release_loop_none [of uid r gs "ls_leases s"]
  by (auto simp: writes_through_def release_def persist_cases Let_def case_prod_beta)

lemma expire_writes: "writes_through (\<lambda>l. l \<noteq> None) (expire io g s) s"
  by (auto simp: writes_through_def expire_def persist_cases split: option.splits)

lemma sweep_writes: "map_ok (ls_leases s) \<Longrightarrow> writes_through (\<lambda>ls. ls \<noteq> []) (sweep_expired io now s) s"
  using live_all [of "ls_leases s" now]
  by (auto simp: writes_through_def sweep_expired_def pop_expired persist_cases Let_def)

lemma saved_writes_through:
  assumes "saved t p s" "writes_through writes out s" "map_ok (ls_leases (snd out))" "t \<le> t'"
  shows "saved t' (last_saved writes out p) (snd out)"
  using assms by (auto simp: saved_def writes_through_def last_saved_def split: sum.splits if_splits)

lemma load_saved:
  assumes "saved t p s"
  shows "load_leases F now (crashed s) =
    (Inr (dvals (live now (fst p))), s\<lparr>ls_leases := live now (fst p)\<rparr>)"
proof -
  from assms consider
    "crashed s = \<lparr>ls_leases = [], ls_disk = SDoc (state_doc (fst p))\<rparr>"
      "ls_disk s = SDoc (state_doc (fst p))" "map_ok (fst p)"
    | "ls_disk s = SNoFile" "fst p = []"
    by (cases s) (auto simp: saved_def crashed_def)
  then show ?thesis
  proof cases
    case 1
    then show ?thesis using load_state_doc [of "fst p" F now] by (cases s) simp
  next
    case 2
    then show ?thesis by (cases s) (simp add: load_leases_def crashed_def live_def)
  qed
qed

lemma saved_restart:
  assumes "saved t p s"
  shows "saved t' (fst p, True) (snd (load_leases F t' (crashed s)))"
  using assms unfolding load_saved [OF assms]
  by (auto simp: saved_def live_live) (auto simp: live_def map_ok_filter)

lemma lease_run_saved: "lease_run F t p s \<Longrightarrow> saved t p s"
proof (induction rule: lease_run.induct)
  case (start t)
  show ?case by (simp add: saved_def)
next
  case (acquire t p s t' out io uid user gs d)
  then have "map_ok (ls_leases (snd out))"
    by (simp add: saved_def acquire_leases grant_loop_map_ok)
  with acquire show ?case using saved_writes_through acquire_writes by blast
next
  case (release t p s t' out io uid gs r)
  then have "map_ok (ls_leases (snd out))"
    by (simp add: saved_def release_leases release_loop_map_ok)
  with release show ?case using saved_writes_through release_writes by blast
next
  case (expire t p s t' out io g)
  then have "map_ok (ls_leases (snd out))"
    by (auto simp: saved_def expire_def persist_cases map_ok_ddel split: option.splits)
  with expire show ?case using saved_writes_through expire_writes by blast
next
  case (sweep t p s t' out io)
  then have ok: "map_ok (ls_leases s)" by (simp add: saved_def)
  then have "map_ok (ls_leases (snd out))"
    by (simp add: sweep sweep_leases map_ok_filter)
  with sweep ok show ?case using saved_writes_through sweep_writes by blast
next
  case (restart t p s t')
  then show ?case using saved_restart by blast
qed

text \<open>C12. A pause survives a daemon restart. Over any life of the store from an empty directory, with
  restarts and with writes that succeed or fail, at times that never go back: a process that dies
  between two operations and is started again recovers exactly the leases of the last successful
  write that have not expired by then, in their order, and reports them as restored; and when no
  write has failed since, these are the unexpired leases that were in memory.\<close>

theorem crash_recovery:
  assumes "lease_run F t (m, in_step) s" "t \<le> now"
  shows "load_leases F now (crashed s) = (Inr (dvals (live now m)), s\<lparr>ls_leases := live now m\<rparr>) \<and>
    (in_step \<longrightarrow> live now m = live now (ls_leases s))"
proof -
  have "saved t (m, in_step) s" by (rule lease_run_saved [OF assms(1)])
  with load_saved [OF this] assms(2) show ?thesis by (simp add: saved_def)
qed

theorem crash_recovery_witness:
  "fst (load_leases plain_fmt 1030 (crashed
     (snd (acquire False 2 ''b'' [5] 60 1010
       (snd (acquire True 1 ''a'' [4] 60 1000 \<lparr>ls_leases = [], ls_disk = SNoFile\<rparr>)))))) =
   Inr [\<lparr>l_uid = 1, l_user = ''a'', l_gpu = 4, l_acquired_at = Fin 1000, l_expires_at = Fin 1060\<rparr>]"
proof -
  let ?l = "\<lparr>l_uid = 1, l_user = ''a'', l_gpu = 4, l_acquired_at = Fin 1000, l_expires_at = Fin 1060\<rparr>"
  let ?s1 = "snd (acquire True 1 ''a'' [4] 60 1000 \<lparr>ls_leases = [], ls_disk = SNoFile\<rparr>)"
  let ?s2 = "snd (acquire False 2 ''b'' [5] 60 1010 ?s1)"
  have first: "lease_run plain_fmt 1000 ([(4, ?l)], True) ?s1"
    using lease_run.acquire [OF lease_run.start [where t = 1000] order_refl refl,
        of plain_fmt True 1 "''a''" "[4]" 60]
    by (simp add: last_saved_def acquire_def persist_def new_lease_def fmax_def Let_def)
  have "lease_run plain_fmt 1010 ([(4, ?l)], False) ?s2"
    using lease_run.acquire [OF first _ refl, of 1010 False 2 "''b''" "[5]" 60]
    by (simp add: last_saved_def acquire_def persist_def new_lease_def fmax_def Let_def)
  from crash_recovery [OF this, of 1030] show ?thesis by (simp add: live_def)
qed

section \<open>Exclusivity as a contract\<close>

text \<open>
  What a client of a lease table relies on: a request that does not act for the holder of a GPU
  leaves its lease alone. The consequence over any sequence of requests is proved once, for
  every table with the contract.
\<close>

locale exclusive_store =
  fixes holder :: "'s \<Rightarrow> int \<Rightarrow> int option"
    and acts_for :: "'r \<Rightarrow> int \<Rightarrow> bool"
    and serve :: "'r \<Rightarrow> 's \<Rightarrow> 's"
  assumes foreign_step: "holder s g = Some h \<Longrightarrow> \<not> acts_for r h \<Longrightarrow> holder (serve r s) g = Some h"
begin

lemma holder_kept:
  "holder s g = Some h \<Longrightarrow> \<forall>r \<in> set rs. \<not> acts_for r h \<Longrightarrow> holder (fold serve rs s) g = Some h"
  by (induction rs arbitrary: s) (simp_all add: foreign_step)

lemma taker_acts_for:
  "holder s g = Some h \<Longrightarrow> holder (fold serve rs s) g \<noteq> Some h \<Longrightarrow> \<exists>r \<in> set rs. acts_for r h"
  using holder_kept by blast

end

datatype lease_request =
    AcquireReq bool int string "int list" int real
  | ReleaseReq bool int "int list" bool

fun lease_serve :: "lease_request \<Rightarrow> lease_store \<Rightarrow> lease_store" where
  "lease_serve (AcquireReq io uid user gs d now) s = snd (acquire io uid user gs d now s)"
| "lease_serve (ReleaseReq io uid gs as_root) s = snd (release io uid gs as_root s)"

fun lease_acts_for :: "lease_request \<Rightarrow> int \<Rightarrow> bool" where
  "lease_acts_for (AcquireReq io uid user gs d now) h \<longleftrightarrow> uid = h"
| "lease_acts_for (ReleaseReq io uid gs as_root) h \<longleftrightarrow> uid = h \<or> as_root"

definition lease_holder :: "lease_store \<Rightarrow> int \<Rightarrow> int option" where
  "lease_holder s g = map_option l_uid (lease_get s g)"

lemma release_loop_keeps:
  "map_of m g = Some l \<Longrightarrow> l_uid l \<noteq> uid \<Longrightarrow> map_of (snd (snd (release_loop uid False gs m))) g = Some l"
proof (induction gs arbitrary: m)
  case (Cons a gs)
  then show ?case
    by (cases "g = a") (auto simp: case_prod_beta split: option.splits)
qed simp

lemma acquire_keeps_foreign:
  assumes "map_of (ls_leases s) g = Some l" "l_uid l \<noteq> uid"
  shows "map_of (ls_leases (snd (acquire io uid user gs d now s))) g = Some l"
  using assms
  by (auto simp: acquire_leases grant_loop_lookup conflict_loop_Nil foreign_simps)

interpretation leases: exclusive_store lease_holder lease_acts_for lease_serve
proof
  fix s g h r
  assume h: "lease_holder s g = Some h" and other: "\<not> lease_acts_for r h"
  from h obtain l where l: "map_of (ls_leases s) g = Some l" "l_uid l = h"
    by (auto simp: lease_holder_def lease_get_def)
  show "lease_holder (lease_serve r s) g = Some h"
  proof (cases r)
    case AcquireReq
    with l other show ?thesis
      by (simp add: lease_holder_def lease_get_def acquire_keeps_foreign)
  next
    case ReleaseReq
    with l other show ?thesis
      by (simp add: lease_holder_def lease_get_def release_leases release_loop_keeps)
  qed
qed

text \<open>No sequence of requests by others, whatever they ask for and whatever the disk does,
  takes a GPU away from its holder: only a request of the holder's own uid, or a release with
  root's privilege, can change who holds it.\<close>

theorem lease_exclusive:
  assumes "lease_holder s g = Some h" "\<forall>r \<in> set rs. \<not> lease_acts_for r h"
  shows "lease_holder (fold lease_serve rs s) g = Some h"
  using assms by (rule leases.holder_kept)

theorem lease_exclusive_witness:
  "lease_holder (fold lease_serve
      [AcquireReq True 2002 ''bob'' [4, 5] 600 1001, ReleaseReq True 2002 [4] False]
      (snd (acquire True 1001 ''alice'' [4] 60 1000 \<lparr>ls_leases = [], ls_disk = SNoFile\<rparr>))) 4 =
   Some 1001"
  by (rule lease_exclusive)
    (simp_all add: lease_holder_def lease_get_def acquire_def persist_def Let_def)

end
