(* ===== verification/LeaseSpec.thy ===== *)
theory LeaseSpec
  imports LeaseRuns
begin

text \<open>
  What the lease store of \<open>src/src/ocp/lease.py\<close> promises, without its dictionary, its order, its
  users' names, its file and its error lists: a partial function from GPUs to who holds them and
  until when. \<open>refinement\<close> is the simulation between a specification and an implementation, once
  and for all; it is interpreted on the store and its operations.
\<close>

section \<open>Simulation\<close>

fun drive :: "('o \<Rightarrow> 's \<Rightarrow> 'r \<times> 's) \<Rightarrow> 'o list \<Rightarrow> 's \<Rightarrow> 'r list \<times> 's" where
  "drive step [] s = ([], s)"
| "drive step (x # xs) s =
     (case step x s of (r, s1) \<Rightarrow> (case drive step xs s1 of (rs, s2) \<Rightarrow> (r # rs, s2)))"

locale refinement =
  fixes inv :: "'s \<Rightarrow> bool"
    and view :: "'s \<Rightarrow> 'a"
    and step :: "'o \<Rightarrow> 's \<Rightarrow> 'r \<times> 's"
    and spec :: "'o \<Rightarrow> 'a \<Rightarrow> 'r \<times> 'a"
  assumes keeps: "inv s \<Longrightarrow> inv (snd (step x s))"
    and simulates: "inv s \<Longrightarrow> spec x (view s) = (fst (step x s), view (snd (step x s)))"
begin

lemma drive_simulates:
  assumes "inv s"
  shows "drive spec xs (view s) = (fst (drive step xs s), view (snd (drive step xs s)))"
  using assms
proof (induction xs arbitrary: s)
  case (Cons x xs)
  then show ?case using keeps [OF Cons.prems] by (simp add: simulates case_prod_beta)
qed simp

lemma drive_keeps: "inv s \<Longrightarrow> inv (snd (drive step xs s))"
  by (induction xs arbitrary: s) (simp_all add: keeps case_prod_beta)

end

section \<open>The specification\<close>

type_synonym reservations = "int \<Rightarrow> (int \<times> pyfloat) option"

datatype lease_op =
    Acquire bool int string "int list" int real
  | Release bool int "int list" bool
  | Expire bool int
  | Sweep bool real

definition free_for :: "int \<Rightarrow> int \<Rightarrow> reservations \<Rightarrow> bool" where
  "free_for uid g m \<longleftrightarrow> (case m g of None \<Rightarrow> True | Some (holder, t) \<Rightarrow> holder = uid)"

definition reserve :: "int \<Rightarrow> real \<Rightarrow> (int \<times> pyfloat) option \<Rightarrow> int \<times> pyfloat" where
  "reserve uid t old = (uid, fmax (case old of None \<Rightarrow> Fin 0 | Some (holder, t0) \<Rightarrow> t0) (Fin t))"

definition freed_by :: "int \<Rightarrow> bool \<Rightarrow> int list \<Rightarrow> reservations \<Rightarrow> int set" where
  "freed_by uid as_root gs m =
     {g \<in> set gs. case m g of None \<Rightarrow> False | Some (holder, t) \<Rightarrow> holder = uid \<or> as_root}"

definition past :: "real \<Rightarrow> reservations \<Rightarrow> int set" where
  "past now m = {g. case m g of None \<Rightarrow> False | Some (holder, t) \<Rightarrow> t \<le> Fin now}"

text \<open>
  The GPUs granted, freed or expired, or None for a request that is refused or whose save fails
  (the disk \<open>io\<close> does not take it); and what then holds: a failed save changes no less.
\<close>

definition told :: "bool \<Rightarrow> int set \<Rightarrow> int set option" where
  "told io G = (if io \<or> G = {} then Some G else None)"

fun spec_step :: "lease_op \<Rightarrow> reservations \<Rightarrow> int set option \<times> reservations" where
  "spec_step (Acquire io uid user gs d now) m =
     (if \<forall>g \<in> set gs. free_for uid g m
      then (if io then Some (set gs) else None,
            \<lambda>g. if g \<in> set gs then Some (reserve uid (now + real_of_int d) (m g)) else m g)
      else (None, m))"
| "spec_step (Release io uid gs as_root) m =
     (told io (freed_by uid as_root gs m), m |` (- freed_by uid as_root gs m))"
| "spec_step (Expire io g) m = (told io ({g} \<inter> dom m), m(g := None))"
| "spec_step (Sweep io now) m = (told io (past now m), m |` (- past now m))"

section \<open>The store\<close>

definition outcome :: "('a \<Rightarrow> int set) \<Rightarrow> 'a res \<Rightarrow> int set option" where
  "outcome f r = (case r of Inl e \<Rightarrow> None | Inr x \<Rightarrow> Some (f x))"

definition gpus_of :: "lease list \<Rightarrow> int set" where
  "gpus_of ls = set (map l_gpu ls)"

fun lease_step :: "lease_op \<Rightarrow> lease_store \<Rightarrow> int set option \<times> lease_store" where
  "lease_step (Acquire io uid user gs d now) s =
     map_prod (outcome gpus_of) id (acquire io uid user gs d now s)"
| "lease_step (Release io uid gs as_root) s =
     map_prod (outcome (\<lambda>(released, errors). set released)) id (release io uid gs as_root s)"
| "lease_step (Expire io g) s =
     map_prod (outcome (\<lambda>l. gpus_of (case l of None \<Rightarrow> [] | Some x \<Rightarrow> [x]))) id (expire io g s)"
| "lease_step (Sweep io now) s =
     map_prod (outcome gpus_of) id (sweep_expired io now s)"

definition reservations_of :: "lease_store \<Rightarrow> reservations" where
  "reservations_of s g = map_option (\<lambda>l. (l_uid l, l_expires_at l)) (lease_get s g)"

lemma free_for_foreign: "free_for uid g (reservations_of s) \<longleftrightarrow> \<not> foreign (ls_leases s) uid g"
  by (auto simp: free_for_def reservations_of_def lease_get_def foreign_def split: option.splits)

lemma conflicts_none:
  "conflict_loop (ls_leases s) uid now gs = Inr [] \<longleftrightarrow> (\<forall>g \<in> set gs. free_for uid g (reservations_of s))"
  by (simp add: conflict_loop_Nil free_for_foreign)

lemma acquire_outcome:
  "outcome gpus_of (fst (acquire io uid user gs d now s)) =
     (if conflict_loop (ls_leases s) uid now gs = Inr [] \<and> io then Some (set gs) else None)"
proof -
  have "gpus_of (fst (grant_loop uid user d now gs m)) = set gs" for m
    by (simp add: gpus_of_def grant_loop_result image_image)
  then show ?thesis
    by (auto simp: acquire_def outcome_def persist_cases Let_def case_prod_beta split: sum.splits)
qed

lemma releasable_ddel: "releasable (ddel a m) uid r h \<longleftrightarrow> h \<noteq> a \<and> releasable m uid r h"
  by (simp add: releasable_def)

lemma release_loop_freed: "set (fst (release_loop uid r gs m)) = {g \<in> set gs. releasable m uid r g}"
proof (induction gs arbitrary: m)
  case (Cons a gs)
  show ?case
  proof (cases "releasable m uid r a")
    case True
    then obtain l where "map_of m a = Some l" "l_uid l = uid \<or> r"
      by (auto simp: releasable_def split: option.splits)
    then have "set (fst (release_loop uid r (a # gs) m)) = insert a (set (fst (release_loop uid r gs (ddel a m))))"
      by (auto simp: case_prod_beta)
    with True show ?thesis by (auto simp: Cons releasable_ddel)
  next
    case False
    then have "set (fst (release_loop uid r (a # gs) m)) = set (fst (release_loop uid r gs m))"
      by (auto simp: case_prod_beta releasable_def split: option.splits)
    with False show ?thesis by (auto simp: Cons)
  qed
qed simp

lemma release_loop_lookup:
  "map_of (snd (snd (release_loop uid r gs m))) g =
     (if g \<in> set gs \<and> releasable m uid r g then None else map_of m g)"
proof (induction gs arbitrary: m)
  case (Cons a gs)
  show ?case
  proof (cases "releasable m uid r a")
    case True
    then obtain l where "map_of m a = Some l" "l_uid l = uid \<or> r"
      by (auto simp: releasable_def split: option.splits)
    then have "snd (snd (release_loop uid r (a # gs) m)) = snd (snd (release_loop uid r gs (ddel a m)))"
      by (auto simp: case_prod_beta)
    with True show ?thesis by (auto simp: Cons releasable_ddel)
  next
    case False
    then have "snd (snd (release_loop uid r (a # gs) m)) = snd (snd (release_loop uid r gs m))"
      by (auto simp: case_prod_beta releasable_def split: option.splits)
    with False show ?thesis by (auto simp: Cons)
  qed
qed simp

lemma releasable_freed:
  "{g \<in> set gs. releasable (ls_leases s) uid r g} = freed_by uid r gs (reservations_of s)"
  by (auto simp: freed_by_def releasable_def reservations_of_def lease_get_def split: option.splits)

lemma release_outcome:
  "outcome (\<lambda>(released, errors). set released) (fst (release io uid gs r s)) =
     told io (freed_by uid r gs (reservations_of s))"
  using release_loop_freed [of uid r gs "ls_leases s"]
  by (auto simp: told_def release_def outcome_def persist_cases Let_def case_prod_beta releasable_freed)

lemma expired_past:
  assumes "map_ok (ls_leases s)"
  shows "gpus_of (dvals (expired now (ls_leases s))) = past now (reservations_of s)"
proof -
  have dist: "distinct (dkeys (ls_leases s))" and keyed: "\<And>g l. (g, l) \<in> set (ls_leases s) \<Longrightarrow> l_gpu l = g"
    using assms by (auto simp: map_ok_def)
  have "g \<in> gpus_of (dvals (expired now (ls_leases s))) \<longleftrightarrow>
      (\<exists>l. (g, l) \<in> set (ls_leases s) \<and> l_expires_at l \<le> Fin now)" for g
    using keyed by (force simp: expired_def gpus_of_def)
  also have "\<dots> g \<longleftrightarrow> (\<exists>l. map_of (ls_leases s) g = Some l \<and> l_expires_at l \<le> Fin now)" for g
    using map_of_eq_Some_iff [OF dist] by simp
  also have "\<dots> g \<longleftrightarrow> g \<in> past now (reservations_of s)" for g
    by (auto simp: past_def reservations_of_def lease_get_def split: option.splits)
  finally show ?thesis by blast
qed

lemma live_lookup:
  assumes "map_ok (ls_leases s)"
  shows "reservations_of (s\<lparr>ls_leases := live now (ls_leases s)\<rparr>) =
    reservations_of s |` (- past now (reservations_of s))"
proof
  fix g
  have dist: "distinct (dkeys (ls_leases s))" using assms by (simp add: map_ok_def)
  have "map_of (live now (ls_leases s)) g =
      (case map_of (ls_leases s) g of None \<Rightarrow> None
       | Some l \<Rightarrow> if Fin now < l_expires_at l then Some l else None)"
    using map_of_filter_distinct [OF dist] by (simp add: live_def split: option.splits)
  then show "reservations_of (s\<lparr>ls_leases := live now (ls_leases s)\<rparr>) g =
      (reservations_of s |` (- past now (reservations_of s))) g"
    using map_ok_lookup [OF assms, of g]
    by (auto simp: reservations_of_def lease_get_def past_def restrict_map_def pyfloat_not_le
        split: option.splits)
qed

section \<open>The store refines it\<close>

definition store_ok :: "lease_store \<Rightarrow> bool" where
  "store_ok s \<longleftrightarrow> map_ok (ls_leases s)"

lemma lease_step_ok: "store_ok s \<Longrightarrow> store_ok (snd (lease_step x s))"
  by (cases x)
    (auto simp: store_ok_def acquire_leases grant_loop_map_ok release_leases release_loop_map_ok
      sweep_leases map_ok_filter expire_def persist_cases map_ok_ddel split: option.splits)

lemma acquire_simulates:
  "spec_step (Acquire io uid user gs d now) (reservations_of s) =
     (fst (lease_step (Acquire io uid user gs d now) s),
      reservations_of (snd (lease_step (Acquire io uid user gs d now) s)))"
proof -
  let ?s' = "snd (acquire io uid user gs d now s)"
  have new: "(uid, l_expires_at (new_lease uid user d now (ls_leases s) g)) =
      reserve uid (now + real_of_int d) (reservations_of s g)" for g
    by (auto simp: reserve_def reservations_of_def lease_get_def new_lease_def Let_def split: option.splits)
  have "reservations_of ?s' g =
      (if conflict_loop (ls_leases s) uid now gs = Inr [] \<and> g \<in> set gs
       then Some (reserve uid (now + real_of_int d) (reservations_of s g)) else reservations_of s g)" for g
    by (simp add: reservations_of_def [of ?s'] lease_get_def acquire_leases grant_loop_lookup new)
      (simp add: reservations_of_def lease_get_def)
  then show ?thesis
    by (auto simp: acquire_outcome conflicts_none [symmetric, where now = now] fun_eq_iff)
qed

lemma release_simulates:
  "spec_step (Release io uid gs as_root) (reservations_of s) =
     (fst (lease_step (Release io uid gs as_root) s),
      reservations_of (snd (lease_step (Release io uid gs as_root) s)))"
proof -
  have "reservations_of (snd (release io uid gs as_root s)) g =
      (reservations_of s |` (- freed_by uid as_root gs (reservations_of s))) g" for g
    by (auto simp: reservations_of_def [of "snd (release io uid gs as_root s)"] lease_get_def
        release_leases release_loop_lookup releasable_freed [symmetric] restrict_map_def)
      (simp_all add: reservations_of_def lease_get_def)
  then show ?thesis by (auto simp: release_outcome fun_eq_iff)
qed

lemma expire_simulates:
  assumes "store_ok s"
  shows "spec_step (Expire io g) (reservations_of s) =
     (fst (lease_step (Expire io g) s), reservations_of (snd (lease_step (Expire io g) s)))"
proof (cases "lease_get s g")
  case None
  then have "reservations_of s g = None" by (simp add: reservations_of_def)
  then show ?thesis using None
    by (auto simp: expire_def outcome_def gpus_of_def fun_upd_idem told_def)
next
  case (Some l)
  then have "l_gpu l = g" using assms map_ok_lookup by (auto simp: store_ok_def lease_get_def)
  with Some show ?thesis
    by (auto simp: expire_def outcome_def gpus_of_def persist_cases reservations_of_def lease_get_def told_def
        fun_eq_iff)
qed

lemma sweep_simulates:
  assumes "store_ok s"
  shows "spec_step (Sweep io now) (reservations_of s) =
     (fst (lease_step (Sweep io now) s), reservations_of (snd (lease_step (Sweep io now) s)))"
proof -
  have ok: "map_ok (ls_leases s)" using assms by (simp add: store_ok_def)
  let ?s' = "snd (sweep_expired io now s)"
  have gone: "past now (reservations_of s) = {} \<longleftrightarrow> expired now (ls_leases s) = []"
    using expired_past [OF ok, of now] by (auto simp: gpus_of_def)
  have "ls_leases ?s' = live now (ls_leases s)"
    using pop_expired [OF ok, of now]
    by (auto simp: sweep_expired_def persist_cases Let_def)
  then have "reservations_of ?s' = reservations_of (s\<lparr>ls_leases := live now (ls_leases s)\<rparr>)"
    by (simp add: reservations_of_def lease_get_def fun_eq_iff)
  moreover have "outcome gpus_of (fst (sweep_expired io now s)) = told io (past now (reservations_of s))"
    using pop_expired [OF ok, of now] expired_past [OF ok, of now] gone
    by (auto simp: sweep_expired_def persist_cases Let_def outcome_def told_def)
  ultimately show ?thesis using live_lookup [OF ok, of now] by simp
qed

lemma lease_step_simulates:
  assumes "store_ok s"
  shows "spec_step x (reservations_of s) = (fst (lease_step x s), reservations_of (snd (lease_step x s)))"
  using assms
  by (cases x)
    (simp_all only: acquire_simulates release_simulates expire_simulates sweep_simulates)

interpretation reserve: refinement store_ok reservations_of lease_step spec_step
  by unfold_locales (fact lease_step_ok, fact lease_step_simulates)

text \<open>C5. The lease store refines its specification: whatever is requested of it in whatever order, and
  whether its saves succeed or raise OSError, the outcomes are those of the specification, and so
  is, at every point, who holds which GPU until when; the dictionary and its order, the saved file
  and the repeated scans do not show.\<close>

theorem lease_store_refines:
  assumes "map_ok (ls_leases s)"
  shows "drive spec_step ops (reservations_of s) =
    (fst (drive lease_step ops s), reservations_of (snd (drive lease_step ops s)))"
  using assms by (intro reserve.drive_simulates) (simp add: store_ok_def)

theorem lease_store_refines_witness:
  "fst (drive lease_step [Acquire True 1 ''a'' [4] 60 1000, Acquire True 2 ''b'' [5, 4] 60 1010, Sweep False 1060,
       Acquire True 2 ''b'' [5, 4] 60 1070] \<lparr>ls_leases = [], ls_disk = SNoFile\<rparr>) =
     [Some {4}, None, None, Some {4, 5}]"
proof -
  let ?ops = "[Acquire True 1 ''a'' [4] 60 1000, Acquire True 2 ''b'' [5, 4] 60 1010, Sweep False 1060,
       Acquire True 2 ''b'' [5, 4] 60 1070]"
  have empty: "reservations_of \<lparr>ls_leases = [], ls_disk = SNoFile\<rparr> = Map.empty"
    by (simp add: reservations_of_def lease_get_def fun_eq_iff)
  let ?m = "[4 \<mapsto> (1 :: int, Fin 1060)] :: reservations"
  have first: "spec_step (Acquire True 1 ''a'' [4] 60 1000) Map.empty = (Some {4}, ?m)"
    by (auto simp: free_for_def reserve_def fmax_def fun_eq_iff)
  have second: "spec_step (Acquire True 2 ''b'' [5, 4] 60 1010) ?m = (None, ?m)"
    by (simp add: free_for_def)
  have "past 1060 ?m = {4}" by (auto simp: past_def split: if_splits)
  then have third: "spec_step (Sweep False 1060) ?m = (None, Map.empty)"
    by (auto simp: told_def restrict_map_def fun_eq_iff)
  have "fst (drive spec_step ?ops Map.empty) = [Some {4}, None, None, Some {4, 5}]"
    unfolding drive.simps first second third prod.case by (simp add: free_for_def insert_commute)
  with lease_store_refines [of "\<lparr>ls_leases = [], ls_disk = SNoFile\<rparr>" ?ops] show ?thesis
    by (simp add: empty)
qed

end
