(* ===== verification/Monitor.thy ===== *)
theory Monitor
  imports PyText
begin

text \<open>
  \<open>src/src/ocp/monitor/base.py\<close>: what a sample of a GPU says.
\<close>

record gpu_sample =
  s_gpu :: int
  s_util_pct :: int
  s_mem_used_mb :: int
  s_mem_total_mb :: int
  s_compute_pids :: "int list"
  s_error :: "string option"

definition mem_used_pct :: "gpu_sample \<Rightarrow> real" where
  "mem_used_pct s =
     (if s_mem_total_mb s \<le> 0 then 0
      else 100 * real_of_int (s_mem_used_mb s) / real_of_int (s_mem_total_mb s))"

text \<open>\<open>if sample.error\<close>: None and the empty string are both false.\<close>

definition has_error :: "gpu_sample \<Rightarrow> bool" where
  "has_error s \<longleftrightarrow> (case s_error s of None \<Rightarrow> False | Some e \<Rightarrow> e \<noteq> [])"

end
