(* ===== verification/Nvml.thy ===== *)
theory Nvml
  imports Monitor "HOL-Library.Sublist"
begin

text \<open>
  \<open>src/src/ocp/monitor/nvml.py\<close>: the monitor on top of pynvml. The library is not part of the
  repository: an \<open>nvml\<close> is what importing it and calling its functions gives, a value or an
  exception, with device handles as numbers. The monitor caches handles and memory sizes and
  refuses devices that have MIG enabled.

  The lemmas: a sample never raises and is always of the GPU asked for; a MIG device is never
  sampled or enumerated while its handle is not cached; closing and sampling behave.
\<close>

record nvml =
  nv_import :: "exn option"
  nv_init :: "exn option"
  nv_count :: "int res"
  nv_handle :: "int \<Rightarrow> nat res"
  nv_mig_mode :: "nat \<Rightarrow> int res"
  nv_mig_enable :: "int res"
  nv_memory :: "nat \<Rightarrow> (int \<times> int) res"
  nv_util :: "nat \<Rightarrow> int res"
  nv_procs_v3 :: "nat \<Rightarrow> int list res"
  nv_procs :: "nat \<Rightarrow> int list res"

text \<open>\<open>nm_open\<close> is whether \<open>_pynvml\<close> is set.\<close>

record nvml_monitor =
  nm_open :: bool
  nm_handles :: "(int \<times> nat) list"
  nm_mig :: "int list"
  nm_total_mb :: "(int \<times> int) list"

definition monitor_init :: nvml_monitor where
  "monitor_init = \<lparr>nm_open = False, nm_handles = [], nm_mig = [], nm_total_mb = []\<rparr>"

text \<open>\<open>str(e)\<close>: a RuntimeError raised here has a message of its own.\<close>

definition exn_text :: "formatter \<Rightarrow> exn \<Rightarrow> string" where
  "exn_text F e = (case e of RuntimeError s \<Rightarrow> s | _ \<Rightarrow> fmt_exn F e)"

definition monitor_open :: "formatter \<Rightarrow> nvml \<Rightarrow> nvml_monitor \<Rightarrow> exn option \<times> nvml_monitor" where
  "monitor_open F N m =
     (case nv_import N of
        Some e \<Rightarrow>
          (Some (if e = ImportError then OtherExn ''NvmlOpenError'' else e), m)
      | None \<Rightarrow>
          (case nv_init N of
             Some e \<Rightarrow> (Some (OtherExn ''NvmlOpenError''), m)
           | None \<Rightarrow> (None, m\<lparr>nm_open := True\<rparr>)))"

definition monitor_close :: "nvml_monitor \<Rightarrow> nvml_monitor" where
  "monitor_close m = m\<lparr>nm_open := False, nm_handles := []\<rparr>"

definition mig_message :: "int \<Rightarrow> string" where
  "mig_message g = ''gpu '' @ dec_int g @ '' has MIG enabled; OCP does not manage MIG devices''"

text \<open>
  The \<open>try\<close> block of \<open>_handle\<close>: the exception it leaves through its handler, if any. The handler
  looks for words in the exception's text, so it also sees the RuntimeError raised in the block.
\<close>

definition mig_block :: "nvml \<Rightarrow> int \<Rightarrow> nat \<Rightarrow> nvml_monitor \<Rightarrow> exn option \<times> nvml_monitor" where
  "mig_block N g h m =
     (case nv_mig_mode N h of
        Inl e \<Rightarrow> (Some e, m)
      | Inr current \<Rightarrow>
          (case nv_mig_enable N of
             Inl e \<Rightarrow> (Some e, m)
           | Inr enabled \<Rightarrow>
               if current = enabled
               then (Some (RuntimeError (mig_message g)), m\<lparr>nm_mig := List.insert g (nm_mig m)\<rparr>)
               else (None, m)))"

definition mig_handler :: "formatter \<Rightarrow> exn \<Rightarrow> exn option" where
  "mig_handler F e =
     (if sublist ''NotSupported'' (exn_text F e) \<or> e = AttributeError then None
      else if sublist ''MIG enabled'' (exn_text F e) then Some e else None)"

definition device_handle :: "formatter \<Rightarrow> nvml \<Rightarrow> int \<Rightarrow> nvml_monitor \<Rightarrow> nat res \<times> nvml_monitor" where
  "device_handle F N g m =
     (if \<not> nm_open m then (Inl (RuntimeError ''NVML not opened''), m)
      else
        (case map_of (nm_handles m) g of
           Some h \<Rightarrow> (Inr h, m)
         | None \<Rightarrow>
             (case nv_handle N g of
                Inl e \<Rightarrow> (Inl e, m)
              | Inr h \<Rightarrow>
                  (case mig_block N g h m of
                     (raised, m1) \<Rightarrow>
                       (case (case raised of None \<Rightarrow> None | Some e \<Rightarrow> mig_handler F e) of
                          Some e \<Rightarrow> (Inl e, m1)
                        | None \<Rightarrow> (Inr h, m1\<lparr>nm_handles := dset g h (nm_handles m1)\<rparr>))))))"

definition is_runtime_error :: "exn \<Rightarrow> bool" where
  "is_runtime_error e \<longleftrightarrow> (case e of RuntimeError s \<Rightarrow> True | OtherExn s \<Rightarrow> s \<in> {''RuntimeError'', ''NvmlOpenError''} | _ \<Rightarrow> False)"

fun enumerate_loop :: "formatter \<Rightarrow> nvml \<Rightarrow> int list \<Rightarrow> nvml_monitor \<Rightarrow> int list res \<times> nvml_monitor" where
  "enumerate_loop F N [] m = (Inr [], m)"
| "enumerate_loop F N (i # is) m =
     (case device_handle F N i m of
        (Inl e, m1) \<Rightarrow>
          if is_runtime_error e then enumerate_loop F N is m1 else (Inl e, m1)
      | (Inr h, m1) \<Rightarrow>
          (case enumerate_loop F N is m1 of
             (Inl e, m2) \<Rightarrow> (Inl e, m2)
           | (Inr out, m2) \<Rightarrow> (Inr (i # out), m2)))"

definition monitor_enumerate :: "formatter \<Rightarrow> nvml \<Rightarrow> nvml_monitor \<Rightarrow> int list res \<times> nvml_monitor" where
  "monitor_enumerate F N m =
     (if \<not> nm_open m then (Inr [], m)
      else (case nv_count N of
              Inl e \<Rightarrow> (Inr [], m)
            | Inr n \<Rightarrow> enumerate_loop F N [0..n - 1] m))"

definition mib :: "int \<Rightarrow> int" where
  "mib bytes = bytes div (1024 * 1024)"

definition total_mem_mb :: "formatter \<Rightarrow> nvml \<Rightarrow> int \<Rightarrow> nvml_monitor \<Rightarrow> int res \<times> nvml_monitor" where
  "total_mem_mb F N g m =
     (case map_of (nm_total_mb m) g of
        Some t \<Rightarrow> (Inr t, m)
      | None \<Rightarrow>
          if \<not> nm_open m then (Inl AttributeError, m)
          else (case device_handle F N g m of
             (Inl e, m1) \<Rightarrow> (Inl e, m1)
           | (Inr h, m1) \<Rightarrow>
               (case nv_memory N h of
                  Inl e \<Rightarrow> (Inl e, m1)
                | Inr (tot, used) \<Rightarrow>
                    (Inr (mib tot), m1\<lparr>nm_total_mb := dset g (mib tot) (nm_total_mb m1)\<rparr>))))"

definition compute_pids :: "nvml \<Rightarrow> nat \<Rightarrow> int list res" where
  "compute_pids N h =
     (case nv_procs_v3 N h of
        Inl e \<Rightarrow> if e = AttributeError then nv_procs N h else Inl e
      | Inr ps \<Rightarrow> Inr ps)"

definition read_sample :: "nvml \<Rightarrow> int \<Rightarrow> nat \<Rightarrow> gpu_sample res" where
  "read_sample N g h =
     rbind (nv_util N h) (\<lambda>util.
     rbind (nv_memory N h) (\<lambda>(tot, used).
     rbind (compute_pids N h) (\<lambda>pids.
     Inr \<lparr>s_gpu = g, s_util_pct = util, s_mem_used_mb = mib used, s_mem_total_mb = mib tot,
          s_compute_pids = pids, s_error = None\<rparr>)))"

definition error_sample :: "formatter \<Rightarrow> int \<Rightarrow> exn \<Rightarrow> gpu_sample" where
  "error_sample F g e =
     \<lparr>s_gpu = g, s_util_pct = 0, s_mem_used_mb = 0, s_mem_total_mb = 0, s_compute_pids = [],
      s_error = Some (exn_text F e)\<rparr>"

definition monitor_sample :: "formatter \<Rightarrow> nvml \<Rightarrow> int \<Rightarrow> nvml_monitor \<Rightarrow> gpu_sample \<times> nvml_monitor" where
  "monitor_sample F N g m =
     (case device_handle F N g m of
        (Inl e, m1) \<Rightarrow> (error_sample F g e, m1)
      | (Inr h, m1) \<Rightarrow>
          (case read_sample N g h of
             Inl e \<Rightarrow> (error_sample F g e, m1)
           | Inr s \<Rightarrow> (s, m1)))"

section \<open>Devices with MIG\<close>

definition mig_on :: "nvml \<Rightarrow> int \<Rightarrow> bool" where
  "mig_on N g \<longleftrightarrow>
     (case nv_handle N g of
        Inl e \<Rightarrow> False
      | Inr h \<Rightarrow> (case (nv_mig_mode N h, nv_mig_enable N) of (Inr c, Inr e) \<Rightarrow> c = e | _ \<Rightarrow> False))"

text \<open>The digits of the index cannot spell the words the handler looks for.\<close>

lemma mig_message_MIG: "sublist ''MIG enabled'' (mig_message g)"
proof -
  have "mig_message g = (''gpu '' @ dec_int g @ '' has '') @ ''MIG enabled'' @
      ''; OCP does not manage MIG devices''"
    by (simp add: mig_message_def)
  then show ?thesis unfolding sublist_def by blast
qed

lemma mig_message_no_N: "CHR ''N'' \<notin> set (mig_message g)"
proof -
  have "\<forall>c \<in> set (dec n). is_digit c" for n by (simp add: dec_digits)
  moreover have "\<not> is_digit (CHR ''N'')" by code_simp
  ultimately have "CHR ''N'' \<notin> set (dec n)" for n by blast
  then show ?thesis by (simp add: mig_message_def dec_int_def)
qed

lemma mig_handler_raises: "mig_handler F (RuntimeError (mig_message g)) = Some (RuntimeError (mig_message g))"
proof -
  have "\<not> sublist ''NotSupported'' (mig_message g)"
    using mig_message_no_N [of g] set_mono_sublist [of "''NotSupported''" "mig_message g"] by auto
  then show ?thesis
    using mig_message_MIG by (simp add: mig_handler_def exn_text_def)
qed

text \<open>
  \<open>nvml_run F may m\<close>: the monitor \<open>m\<close> can arise from any calls, in any order, while the library
  behaves in ways that satisfy \<open>may\<close>, possibly differently at each call.
\<close>

inductive nvml_run :: "formatter \<Rightarrow> (nvml \<Rightarrow> bool) \<Rightarrow> nvml_monitor \<Rightarrow> bool" for F may where
  init: "nvml_run F may monitor_init"
| opened: "nvml_run F may m \<Longrightarrow> may N \<Longrightarrow> nvml_run F may (snd (monitor_open F N m))"
| closed: "nvml_run F may m \<Longrightarrow> nvml_run F may (monitor_close m)"
| enumerated: "nvml_run F may m \<Longrightarrow> may N \<Longrightarrow> nvml_run F may (snd (monitor_enumerate F N m))"
| sampled: "nvml_run F may m \<Longrightarrow> may N \<Longrightarrow> nvml_run F may (snd (monitor_sample F N g m))"
| sized: "nvml_run F may m \<Longrightarrow> may N \<Longrightarrow> nvml_run F may (snd (total_mem_mb F N g m))"

text \<open>No handle of device \<open>g\<close> is cached.\<close>

definition uncached :: "int \<Rightarrow> nvml_monitor \<Rightarrow> bool" where
  "uncached g m \<longleftrightarrow> map_of (nm_handles m) g = None"

lemma mig_refused:
  assumes "mig_on N g" "uncached g m"
  shows "\<exists>e m'. device_handle F N g m = (Inl e, m') \<and> nm_handles m' = nm_handles m \<and>
    is_runtime_error e \<and> exn_text F e \<noteq> []"
  using assms mig_handler_raises [of F g]
  by (auto simp: mig_on_def uncached_def device_handle_def mig_block_def mig_message_def
      is_runtime_error_def exn_text_def split: sum.splits)

lemma other_handle:
  "g' \<noteq> g \<Longrightarrow> uncached g (snd (device_handle F N g' m)) = uncached g m"
  by (auto simp: uncached_def device_handle_def mig_block_def split: sum.splits option.splits)

lemma device_handle_uncached:
  assumes "mig_on N g" "uncached g m"
  shows "uncached g (snd (device_handle F N g' m))"
proof (cases "g' = g")
  case True
  with mig_refused [OF assms, of F] assms(2) show ?thesis by (auto simp: uncached_def)
qed (simp add: other_handle assms)

lemma enumerate_loop_mig:
  assumes "mig_on N g" "uncached g m"
  shows "uncached g (snd (enumerate_loop F N is m)) \<and>
    (\<forall>out. fst (enumerate_loop F N is m) = Inr out \<longrightarrow> g \<notin> set out)"
  using assms(2)
proof (induction "is" arbitrary: m)
  case (Cons i "is")
  obtain r m1 where h: "device_handle F N i m = (r, m1)" by fastforce
  then have m1: "uncached g m1"
    using device_handle_uncached [OF assms(1) Cons.prems, of F i] by simp
  have "i \<noteq> g" if "r = Inr x" for x
    using mig_refused [OF assms(1) Cons.prems, of F] h that by auto
  with Cons.IH [OF m1] h m1 show ?case
    by (auto split: sum.splits prod.splits)
qed simp

lemma monitor_uncached:
  assumes "mig_on N g" "uncached g m"
  shows "uncached g (snd (monitor_sample F N g' m))" "uncached g (snd (total_mem_mb F N g' m))"
    "uncached g (snd (monitor_enumerate F N m))"
proof -
  obtain r m1 where h: "device_handle F N g' m = (r, m1)" by fastforce
  then have "uncached g m1" using device_handle_uncached [OF assms, of F g'] by simp
  with h assms(2) show "uncached g (snd (monitor_sample F N g' m))"
    "uncached g (snd (total_mem_mb F N g' m))"
    by (auto simp: monitor_sample_def total_mem_mb_def uncached_def split: sum.splits option.splits)
  show "uncached g (snd (monitor_enumerate F N m))"
    using enumerate_loop_mig [OF assms] assms(2)
    by (auto simp: monitor_enumerate_def split: sum.splits)
qed

lemma nvml_run_uncached: "nvml_run F (\<lambda>N. mig_on N g) m \<Longrightarrow> uncached g m"
proof (induction rule: nvml_run.induct)
  case init
  show ?case by (simp add: uncached_def monitor_init_def)
next
  case (opened m N)
  then show ?case by (auto simp: uncached_def monitor_open_def split: option.splits)
next
  case (closed m)
  then show ?case by (simp add: uncached_def monitor_close_def)
qed (simp_all add: monitor_uncached)

lemma mig_sample_error: "mig_on N g \<Longrightarrow> uncached g m \<Longrightarrow> has_error (fst (monitor_sample F N g m))"
  using mig_refused [of N g m F]
  by (auto simp: monitor_sample_def error_sample_def has_error_def split: prod.splits sum.splits)

lemma mig_not_enumerated:
  "mig_on N g \<Longrightarrow> uncached g m \<Longrightarrow> fst (monitor_enumerate F N m) = Inr out \<Longrightarrow> g \<notin> set out"
  using enumerate_loop_mig [of N g m F]
  by (auto simp: monitor_enumerate_def split: sum.splits if_splits)

section \<open>Samples and memory sizes\<close>

lemma sample_gpu: "s_gpu (fst (monitor_sample F N g m)) = g"
  by (auto simp: monitor_sample_def error_sample_def read_sample_def res_simps
      split: prod.splits sum.splits)

text \<open>The check happens once: a device whose handle is cached is sampled whatever its MIG mode is.\<close>

lemma cached_handle: "nm_open m \<Longrightarrow> map_of (nm_handles m) g = Some h \<Longrightarrow> device_handle F N g m = (Inr h, m)"
  by (simp add: device_handle_def)

text \<open>A memory size is asked for once; the cache outlives \<open>close\<close>.\<close>

lemma total_mem_cached:
  assumes "total_mem_mb F N g m = (Inr t, m1)"
  shows "total_mem_mb F N' g (monitor_close m1) = (Inr t, monitor_close m1)"
proof -
  have "map_of (nm_total_mb m1) g = Some t"
    using assms by (auto simp: total_mem_mb_def split: option.splits if_splits prod.splits sum.splits)
  then show ?thesis by (simp add: total_mem_mb_def monitor_close_def)
qed

end
