(* ===== verification/Pidfile.thy ===== *)
theory Pidfile
  imports PyText
begin

text \<open>
  \<open>Pidfile\<close> of \<open>src/src/ocp/daemon.py\<close>: the lock that keeps a second daemon out. Several processes
  may start and stop at the same time, so the system calls of \<open>acquire\<close> and \<open>release\<close> are single
  steps of each process (\<open>pc\<close>) on a shared file system: an inode per file, an exclusive lock per
  inode that the kernel drops when its holder dies, and the inode the path names, if any.

  The lemmas: however starts (and crashes) interleave, one daemon runs at most, and the file names
  it; with stops in between this is not so.
\<close>

datatype pc = Idle | Opened nat | Locked nat | Running nat | Unlocked | Refused string | Ended

record pid_fs =
  pf_path :: "nat option"
  pf_text :: "nat \<Rightarrow> string"
  pf_lock :: "nat \<Rightarrow> int option"
  pf_next :: nat
  pf_pc :: "int \<Rightarrow> pc"

definition pid_text :: "int \<Rightarrow> string" where
  "pid_text p = dec_int p @ [CHR 0x0A]"

definition set_pc :: "int \<Rightarrow> pc \<Rightarrow> pid_fs \<Rightarrow> pid_fs" where
  "set_pc p c s = s\<lparr>pf_pc := (pf_pc s)(p := c)\<rparr>"

section \<open>The system calls\<close>

text \<open>\<open>os.open\<close> with \<open>O_CREAT\<close>.\<close>

definition pid_open :: "int \<Rightarrow> pid_fs \<Rightarrow> pid_fs" where
  "pid_open p s =
     (case pf_path s of
        Some i \<Rightarrow> set_pc p (Opened i) s
      | None \<Rightarrow>
          set_pc p (Opened (pf_next s))
            (s\<lparr>pf_path := Some (pf_next s), pf_text := (pf_text s)(pf_next s := []),
               pf_next := Suc (pf_next s)\<rparr>))"

text \<open>The non-blocking lock; who is refused reports what the path then holds.\<close>

definition pid_lock :: "int \<Rightarrow> nat \<Rightarrow> pid_fs \<Rightarrow> pid_fs" where
  "pid_lock p i s =
     (if pf_lock s i = None then set_pc p (Locked i) (s\<lparr>pf_lock := (pf_lock s)(i \<mapsto> p)\<rparr>)
      else set_pc p (Refused (''ocpd already running (pid='' @
        (case pf_path s of None \<Rightarrow> ''?'' | Some j \<Rightarrow> strip (pf_text s j)) @ '')'')) s)"

definition pid_write :: "int \<Rightarrow> nat \<Rightarrow> pid_fs \<Rightarrow> pid_fs" where
  "pid_write p i s = set_pc p (Running i) (s\<lparr>pf_text := (pf_text s)(i := pid_text p)\<rparr>)"

definition pid_unlock :: "int \<Rightarrow> nat \<Rightarrow> pid_fs \<Rightarrow> pid_fs" where
  "pid_unlock p i s = set_pc p Unlocked (s\<lparr>pf_lock := (pf_lock s)(i := None)\<rparr>)"

definition pid_unlink :: "int \<Rightarrow> pid_fs \<Rightarrow> pid_fs" where
  "pid_unlink p s = set_pc p Ended (s\<lparr>pf_path := None\<rparr>)"

text \<open>\<open>acquire\<close> and \<open>release\<close> of a process that nothing interrupts.\<close>

definition pid_acquire :: "int \<Rightarrow> pid_fs \<Rightarrow> pid_fs" where
  "pid_acquire p s =
     (case pf_pc (pid_open p s) p of
        Opened i \<Rightarrow>
          let s2 = pid_lock p i (pid_open p s)
          in (case pf_pc s2 p of Locked j \<Rightarrow> pid_write p j s2 | _ \<Rightarrow> s2)
      | _ \<Rightarrow> s)"

definition pid_release :: "int \<Rightarrow> pid_fs \<Rightarrow> pid_fs" where
  "pid_release p s =
     (case pf_pc s p of Running i \<Rightarrow> pid_unlink p (pid_unlock p i s) | _ \<Rightarrow> pid_unlink p s)"

definition pid_crash :: "int \<Rightarrow> pid_fs \<Rightarrow> pid_fs" where
  "pid_crash p s =
     set_pc p Ended (s\<lparr>pf_lock := (\<lambda>i. if pf_lock s i = Some p then None else pf_lock s i)\<rparr>)"

section \<open>Interleavings\<close>

inductive pid_step :: "bool \<Rightarrow> pid_fs \<Rightarrow> pid_fs \<Rightarrow> bool" for stops where
  open_it: "pf_pc s p = Idle \<Longrightarrow> pid_step stops s (pid_open p s)"
| lock: "pf_pc s p = Opened i \<Longrightarrow> pid_step stops s (pid_lock p i s)"
| fill: "pf_pc s p = Locked i \<Longrightarrow> pid_step stops s (pid_write p i s)"
| unlock: "stops \<Longrightarrow> pf_pc s p = Running i \<Longrightarrow> pid_step stops s (pid_unlock p i s)"
| unlink: "stops \<Longrightarrow> pf_pc s p = Unlocked \<Longrightarrow> pid_step stops s (pid_unlink p s)"
| crash: "pid_step stops s (pid_crash p s)"

text \<open>At the beginning nobody runs; a file may be left over.\<close>

definition pid_start :: "string option \<Rightarrow> pid_fs" where
  "pid_start left =
     (case left of
        None \<Rightarrow> \<lparr>pf_path = None, pf_text = (\<lambda>_. []), pf_lock = (\<lambda>_. None), pf_next = 0, pf_pc = (\<lambda>_. Idle)\<rparr>
      | Some t \<Rightarrow> \<lparr>pf_path = Some 0, pf_text = (\<lambda>_. t), pf_lock = (\<lambda>_. None), pf_next = 1, pf_pc = (\<lambda>_. Idle)\<rparr>)"

inductive pid_run :: "bool \<Rightarrow> pid_fs \<Rightarrow> bool" for stops where
  start: "pid_run stops (pid_start left)"
| step: "pid_run stops s \<Longrightarrow> pid_step stops s s' \<Longrightarrow> pid_run stops s'"

definition is_running :: "int \<Rightarrow> pid_fs \<Rightarrow> bool" where
  "is_running p s \<longleftrightarrow> (\<exists>i. pf_pc s p = Running i)"

fun pc_inode :: "pc \<Rightarrow> nat option" where
  "pc_inode (Opened i) = Some i"
| "pc_inode (Locked i) = Some i"
| "pc_inode (Running i) = Some i"
| "pc_inode _ = None"

section \<open>Starts exclude each other\<close>

text \<open>Whoever opened the file has the one the path names; whoever holds a lock owns it.\<close>

definition pid_ok :: "pid_fs \<Rightarrow> bool" where
  "pid_ok s \<longleftrightarrow>
     (\<forall>p i. pc_inode (pf_pc s p) = Some i \<longrightarrow> pf_path s = Some i) \<and>
     (\<forall>p i. pf_pc s p = Locked i \<or> pf_pc s p = Running i \<longleftrightarrow> pf_lock s i = Some p) \<and>
     (\<forall>p i. pf_pc s p = Running i \<longrightarrow> pf_text s i = pid_text p) \<and>
     (\<forall>p. pf_pc s p \<noteq> Unlocked) \<and>
     (\<forall>i. pf_path s = Some i \<longrightarrow> i < pf_next s)"

lemma pid_ok_start: "pid_ok (pid_start left)"
  by (auto simp: pid_ok_def pid_start_def split: option.splits)

lemma pid_ok_facts:
  assumes "pid_ok s"
  shows "pc_inode (pf_pc s p) = Some i \<Longrightarrow> pf_path s = Some i"
    "pf_pc s p = Locked i \<or> pf_pc s p = Running i \<longleftrightarrow> pf_lock s i = Some p"
  using assms unfolding pid_ok_def by blast+

lemma pid_ok_owner:
  assumes "pid_ok s" "pf_lock s i = Some p"
  shows "pf_pc s p = Locked i \<or> pf_pc s p = Running i"
  using pid_ok_facts(2) [OF assms(1)] assms(2) by blast

lemma pid_ok_path:
  assumes "pid_ok s"
  shows "pf_pc s p = Running i \<Longrightarrow> pf_path s = Some i" "pf_pc s p = Locked i \<Longrightarrow> pf_path s = Some i"
    "pf_pc s p = Opened i \<Longrightarrow> pf_path s = Some i"
  using pid_ok_facts(1) [OF assms, of p i] by simp_all

lemma pid_ok_unique:
  assumes "pid_ok s" "pf_pc s p = Locked i \<or> pf_pc s p = Running i" "pf_pc s q = Running i"
  shows "p = q"
proof -
  have "pf_lock s i = Some p" "pf_lock s i = Some q"
    using pid_ok_facts(2) [OF assms(1)] assms(2,3) by blast+
  then show ?thesis by simp
qed

lemma pid_ok_step: "pid_step False s s' \<Longrightarrow> pid_ok s \<Longrightarrow> pid_ok s'"
proof (induction rule: pid_step.induct)
  case (open_it s p)
  then show ?case
    using pid_ok_owner [OF open_it.prems, of _ p] open_it.hyps pid_ok_path [OF open_it.prems]
    by (cases "pf_path s") (auto simp: pid_ok_def pid_open_def set_pc_def)
next
  case (lock s p i)
  then show ?case
    using pid_ok_owner [OF lock.prems, of _ p] lock.hyps pid_ok_path [OF lock.prems]
    by (cases "pf_lock s i") (auto simp: pid_ok_def pid_lock_def set_pc_def)
next
  case (fill s p i)
  then show ?case
    using pid_ok_owner [OF fill.prems, of _ p] pid_ok_path(2) [OF fill.prems fill.hyps]
      pid_ok_unique [OF fill.prems disjI1 [OF fill.hyps]]
    by (auto simp: pid_ok_def pid_write_def set_pc_def)
next
  case (crash s p)
  then show ?case by (auto simp: pid_ok_def pid_crash_def set_pc_def)
qed simp_all

lemma pid_run_ok: "pid_run False s \<Longrightarrow> pid_ok s"
  by (induction rule: pid_run.induct) (auto simp: pid_ok_start intro: pid_ok_step)

text \<open>C15. However many daemons are started at the same time, over whatever file an earlier one left
  and however some of them crash, at most one gets through, and the pid file then names it.\<close>

theorem pidfile_exclusive:
  assumes "pid_run False s" "is_running p s" "is_running q s"
  shows "p = q \<and> (\<exists>i. pf_path s = Some i \<and> pf_text s i = pid_text p)"
proof -
  have ok: "pid_ok s" using assms(1) by (rule pid_run_ok)
  obtain i j where i: "pf_pc s p = Running i" and j: "pf_pc s q = Running j"
    using assms(2,3) by (auto simp: is_running_def)
  have "pf_path s = Some i" "pf_path s = Some j"
    using pid_ok_path(1) [OF ok i] pid_ok_path(1) [OF ok j] by auto
  moreover have "pf_lock s i = Some p" "pf_lock s j = Some q"
    using pid_ok_facts(2) [OF ok] i j by blast+
  moreover have "pf_text s i = pid_text p"
    using ok i by (simp add: pid_ok_def)
  ultimately show ?thesis by simp
qed

lemma acquire_run:
  assumes "pid_run stops s" "pf_pc s p = Idle"
  shows "pid_run stops (pid_acquire p s)"
proof -
  have opened: "pid_run stops (pid_open p s)"
    by (rule pid_run.step [OF assms(1) pid_step.open_it [OF assms(2)]])
  then have lock: "pid_run stops (pid_lock p i (pid_open p s))" if "pf_pc (pid_open p s) p = Opened i" for i
    by (rule pid_run.step) (rule pid_step.lock [OF that])
  then have "pid_run stops (pid_write p j (pid_lock p i (pid_open p s)))"
    if "pf_pc (pid_open p s) p = Opened i" "pf_pc (pid_lock p i (pid_open p s)) p = Locked j" for i j
    using that by (blast intro: pid_run.step pid_step.fill)
  with lock assms(1) show ?thesis by (auto simp: pid_acquire_def Let_def split: pc.splits)
qed

lemma acquire_free:
  "pf_path s = None \<Longrightarrow> pf_lock s (pf_next s) = None \<Longrightarrow> is_running p (pid_acquire p s)"
  by (simp add: pid_acquire_def pid_open_def pid_lock_def pid_write_def set_pc_def is_running_def Let_def)

theorem pidfile_exclusive_witness:
  "is_running 10 (pid_acquire 11 (pid_acquire 10 (pid_start None))) \<and>
   \<not> is_running 11 (pid_acquire 11 (pid_acquire 10 (pid_start None)))"
proof -
  let ?s = "pid_acquire 11 (pid_acquire 10 (pid_start None))"
  have idle: "pf_pc (pid_acquire 10 (pid_start None)) 11 = Idle" and ten: "is_running 10 ?s"
    by (simp_all add: pid_acquire_def pid_open_def pid_lock_def pid_write_def set_pc_def
        is_running_def pid_start_def Let_def)
  have run: "pid_run False ?s"
    by (rule acquire_run [OF acquire_run [OF pid_run.start] idle]) (simp add: pid_start_def)
  from pidfile_exclusive [OF run ten, of 11] ten show ?thesis by auto
qed

section \<open>A stop in between\<close>

text \<open>\<open>release\<close> unlocks the file before it removes its name: a daemon that opened the file before
  can lock it in between, its file then disappears, and a third daemon finds no file.\<close>

definition race_fs :: pid_fs where
  "race_fs =
     (let s1 = pid_acquire 10 (pid_start None);
          s2 = pid_unlock 10 0 (pid_open 11 s1);
          s3 = pid_write 11 0 (pid_lock 11 0 s2)
      in pid_acquire 12 (pid_unlink 10 s3))"

text \<open>When a stop overlaps with two starts, two daemons can run at the same time.\<close>

theorem pidfile_race: "pid_run True race_fs \<and> is_running 11 race_fs \<and> is_running 12 race_fs"
proof -
  note defs = pid_acquire_def pid_open_def pid_lock_def pid_write_def pid_unlock_def pid_unlink_def
    set_pc_def pid_start_def Let_def
  let ?s1 = "pid_acquire 10 (pid_start None)"
  let ?s2 = "pid_unlock 10 0 (pid_open 11 ?s1)"
  let ?s3 = "pid_write 11 0 (pid_lock 11 0 ?s2)"
  have "pid_run True ?s1" by (rule acquire_run [OF pid_run.start]) (simp add: pid_start_def)
  then have "pid_run True (pid_open 11 ?s1)"
    by (rule pid_run.step) (rule pid_step.open_it, simp add: defs)
  then have "pid_run True ?s2"
    by (rule pid_run.step) (rule pid_step.unlock, simp_all add: defs)
  then have "pid_run True (pid_lock 11 0 ?s2)"
    by (rule pid_run.step) (rule pid_step.lock, simp add: defs)
  then have "pid_run True ?s3"
    by (rule pid_run.step) (rule pid_step.fill, simp add: defs)
  then have "pid_run True (pid_unlink 10 ?s3)"
    by (rule pid_run.step) (rule pid_step.unlink, simp_all add: defs)
  then have "pid_run True race_fs"
    unfolding race_fs_def Let_def by (rule acquire_run) (simp add: defs)
  moreover have "is_running 11 race_fs" "is_running 12 race_fs"
    by (simp_all add: race_fs_def is_running_def defs)
  ultimately show ?thesis by blast
qed

end
