(* ===== verification/Auth.thy ===== *)
theory Auth
  imports PyText
begin

text \<open>
  \<open>src/src/ocp/auth.py\<close>: who is calling, and what they may do. The password database is the
  parameter \<open>getpwuid\<close> (the name of a uid, or none). The whitelist is whatever value the
  configuration holds under \<open>multiuser.whitelist\<close>: iterating a list gives its entries,
  iterating a string its characters and iterating a dict its keys.
\<close>

record caller =
  c_pid :: int
  c_uid :: int
  c_gid :: int
  c_user :: string

definition caller_from_creds :: "(int \<Rightarrow> string option) \<Rightarrow> int \<Rightarrow> int \<Rightarrow> int \<Rightarrow> caller" where
  "caller_from_creds getpwuid pid uid gid =
     (let user = (case getpwuid uid of Some name \<Rightarrow> name | None \<Rightarrow> ''uid='' @ dec_int uid)
      in \<lparr>c_pid = pid, c_uid = uid, c_gid = gid, c_user = user\<rparr>)"

definition is_root :: "caller \<Rightarrow> bool" where
  "is_root c \<longleftrightarrow> c_uid c = 0"

fun py_iter :: "pyval \<Rightarrow> pyval list res" where
  "py_iter (PList xs) = Inr xs"
| "py_iter (PStr s) = Inr (map (\<lambda>c. PStr [c]) s)"
| "py_iter (PDict kvs) = Inr (map (\<lambda>(k, v). PStr k) kvs)"
| "py_iter _ = Inl TypeError"

fun whitelist_loop :: "caller \<Rightarrow> pyval list \<Rightarrow> bool" where
  "whitelist_loop c [] = False"
| "whitelist_loop c (entry # rest) =
     (case entry of
        PBool _ \<Rightarrow> whitelist_loop c rest
      | PInt i \<Rightarrow> if i = c_uid c then True else whitelist_loop c rest
      | PStr s \<Rightarrow> if s = c_user c then True else whitelist_loop c rest
      | _ \<Rightarrow> whitelist_loop c rest)"

definition is_whitelisted :: "caller \<Rightarrow> pyval \<Rightarrow> bool res" where
  "is_whitelisted c whitelist =
     (if is_root c then Inr True
      else rbind (py_iter whitelist) (\<lambda>entries. Inr (whitelist_loop c entries)))"

lemma whitelist_loop_iff:
  "whitelist_loop c es \<longleftrightarrow> PInt (c_uid c) \<in> set es \<or> PStr (c_user c) \<in> set es"
  by (induction es) (auto split: pyval.splits)

text \<open>Over a list whitelist a caller is admitted exactly when they are root, or their uid is
  listed as an integer, or their user name is listed as a string; a boolean entry admits nobody,
  not even uid 1.\<close>

lemma is_whitelisted_list:
  "is_whitelisted c (PList es) =
   Inr (c_uid c = 0 \<or> PInt (c_uid c) \<in> set es \<or> PStr (c_user c) \<in> set es)"
  by (simp add: is_whitelisted_def is_root_def whitelist_loop_iff)

section \<open>Authorization tiers\<close>

text \<open>The tiers of the README's table, in order: each includes the commands of those below.\<close>

datatype tier = Anyone | Whitelisted | Root

instantiation tier :: linorder
begin

fun rank :: "tier \<Rightarrow> nat" where
  "rank Anyone = 0"
| "rank Whitelisted = 1"
| "rank Root = 2"

definition less_eq_tier :: "tier \<Rightarrow> tier \<Rightarrow> bool" where
  "less_eq_tier a b \<longleftrightarrow> rank a \<le> rank b"

definition less_tier :: "tier \<Rightarrow> tier \<Rightarrow> bool" where
  "less_tier a b \<longleftrightarrow> rank a < rank b"

lemma rank_inj: "rank a = rank b \<Longrightarrow> a = b"
  by (cases a; cases b) auto

instance
  by standard (auto simp: less_eq_tier_def less_tier_def intro: rank_inj)

end

definition caller_tier :: "caller \<Rightarrow> pyval \<Rightarrow> tier res" where
  "caller_tier c whitelist =
     (if is_root c then Inr Root
      else rbind (is_whitelisted c whitelist) (\<lambda>b. Inr (if b then Whitelisted else Anyone)))"

lemma tier_le_simps [simp]:
  "Anyone \<le> t" "t \<le> Root" "\<not> Whitelisted \<le> Anyone" "\<not> Root \<le> Whitelisted" "\<not> Root \<le> Anyone"
  "Whitelisted \<le> Whitelisted"
  by (cases t; simp add: less_eq_tier_def)+

lemma is_whitelisted_root [simp]: "c_uid c = 0 \<Longrightarrow> is_whitelisted c wl = Inr True"
  by (simp add: is_whitelisted_def is_root_def)

end
