(* ===== verification/Config.thy ===== *)
theory Config
  imports Auth "HOL-Library.Char_ord" "HOL-Library.List_Lexorder"
begin

text \<open>
  \<open>src/src/ocp/config.py\<close>: the configuration and its validation. A section is a record with
  the dataclass's fields, each holding whatever value the TOML document has there, since the
  dataclasses do not check types; \<open>_validate\<close> compares those values as Python does, so
  comparing something that is not a number raises TypeError instead of ConfigError. The file is
  its parse result (\<open>cfg_file\<close>), the TOML parser being the standard library's.
\<close>

section \<open>The dataclasses\<close>

record general_cfg =
  poll_interval_s :: pyval
  log_level :: pyval

record gpu_cfg =
  indices :: pyval

record thresholds_cfg =
  util_low :: pyval
  mem_low :: pyval
  idle_debounce_s :: pyval

record worker_cfg =
  workloads :: pyval
  mem_frac :: pyval
  mem_mb :: pyval
  mem_noise_frac :: pyval
  mem_noise_period_s :: pyval
  util_target :: pyval
  util_noise_frac :: pyval
  util_noise_period_s :: pyval
  nice :: pyval
  restart_backoff_s :: pyval

record multiuser_cfg =
  whitelist :: pyval

record pause_cfg =
  min_duration_s :: pyval
  max_duration_s :: pyval

record history_cfg =
  max_entries :: pyval

record config =
  general :: general_cfg
  gpu :: gpu_cfg
  thresholds :: thresholds_cfg
  worker :: worker_cfg
  multiuser :: multiuser_cfg
  pause :: pause_cfg
  history :: history_cfg

text \<open>The constructors \<open>cls(**sub)\<close>: a given keyword, or the field's default.\<close>

type_synonym table = "(string \<times> pyval) list"

definition kwarg :: "table \<Rightarrow> string \<Rightarrow> pyval \<Rightarrow> pyval" where
  "kwarg sub k dflt = (case map_of sub k of None \<Rightarrow> dflt | Some v \<Rightarrow> v)"

definition GeneralCfg :: "table \<Rightarrow> general_cfg" where
  "GeneralCfg sub =
     \<lparr>poll_interval_s = kwarg sub ''poll_interval_s'' (PFloat (Fin 2)),
      log_level = kwarg sub ''log_level'' (PStr ''INFO'')\<rparr>"

definition GpuCfg :: "table \<Rightarrow> gpu_cfg" where
  "GpuCfg sub = \<lparr>indices = kwarg sub ''indices'' (PList [])\<rparr>"

definition ThresholdsCfg :: "table \<Rightarrow> thresholds_cfg" where
  "ThresholdsCfg sub =
     \<lparr>util_low = kwarg sub ''util_low'' (PInt 5),
      mem_low = kwarg sub ''mem_low'' (PInt 10),
      idle_debounce_s = kwarg sub ''idle_debounce_s'' (PInt 30)\<rparr>"

definition WorkerCfg :: "table \<Rightarrow> worker_cfg" where
  "WorkerCfg sub =
     \<lparr>workloads = kwarg sub ''workloads'' (PList [PStr ''mem'', PStr ''util'']),
      mem_frac = kwarg sub ''mem_frac'' (PFloat (Fin (1/2))),
      mem_mb = kwarg sub ''mem_mb'' PNone,
      mem_noise_frac = kwarg sub ''mem_noise_frac'' (PFloat (Fin (1/20))),
      mem_noise_period_s = kwarg sub ''mem_noise_period_s'' (PFloat (Fin 5)),
      util_target = kwarg sub ''util_target'' (PInt 90),
      util_noise_frac = kwarg sub ''util_noise_frac'' (PFloat (Fin (1/20))),
      util_noise_period_s = kwarg sub ''util_noise_period_s'' (PFloat (Fin 5)),
      nice = kwarg sub ''nice'' (PInt 19),
      restart_backoff_s = kwarg sub ''restart_backoff_s'' (PFloat (Fin 5))\<rparr>"

definition MultiuserCfg :: "table \<Rightarrow> multiuser_cfg" where
  "MultiuserCfg sub = \<lparr>whitelist = kwarg sub ''whitelist'' (PList [])\<rparr>"

definition PauseCfg :: "table \<Rightarrow> pause_cfg" where
  "PauseCfg sub =
     \<lparr>min_duration_s = kwarg sub ''min_duration_s'' (PInt 30),
      max_duration_s = kwarg sub ''max_duration_s'' (PInt 7200)\<rparr>"

definition HistoryCfg :: "table \<Rightarrow> history_cfg" where
  "HistoryCfg sub = \<lparr>max_entries = kwarg sub ''max_entries'' (PInt 1000)\<rparr>"

definition default_config :: config where
  "default_config =
     \<lparr>general = GeneralCfg [], gpu = GpuCfg [], thresholds = ThresholdsCfg [],
      worker = WorkerCfg [], multiuser = MultiuserCfg [], pause = PauseCfg [],
      history = HistoryCfg []\<rparr>"

definition config_to_dict :: "config \<Rightarrow> table" where
  "config_to_dict c =
     [(''general'', PDict
        [(''poll_interval_s'', poll_interval_s (general c)),
         (''log_level'', log_level (general c))]),
      (''gpu'', PDict [(''indices'', indices (gpu c))]),
      (''thresholds'', PDict
        [(''util_low'', util_low (thresholds c)),
         (''mem_low'', mem_low (thresholds c)),
         (''idle_debounce_s'', idle_debounce_s (thresholds c))]),
      (''worker'', PDict
        [(''workloads'', workloads (worker c)),
         (''mem_frac'', mem_frac (worker c)),
         (''mem_mb'', mem_mb (worker c)),
         (''mem_noise_frac'', mem_noise_frac (worker c)),
         (''mem_noise_period_s'', mem_noise_period_s (worker c)),
         (''util_target'', util_target (worker c)),
         (''util_noise_frac'', util_noise_frac (worker c)),
         (''util_noise_period_s'', util_noise_period_s (worker c)),
         (''nice'', nice (worker c)),
         (''restart_backoff_s'', restart_backoff_s (worker c))]),
      (''multiuser'', PDict [(''whitelist'', whitelist (multiuser c))]),
      (''pause'', PDict
        [(''min_duration_s'', min_duration_s (pause c)),
         (''max_duration_s'', max_duration_s (pause c))]),
      (''history'', PDict [(''max_entries'', max_entries (history c))])]"

section \<open>Sections\<close>

definition known_sections :: "string list" where
  "known_sections =
     [''general'', ''gpu'', ''thresholds'', ''worker'', ''multiuser'', ''pause'', ''history'']"

definition strs :: "string list \<Rightarrow> pyval" where
  "strs xs = PList (map PStr xs)"

text \<open>
  \<open>valid\<close> are the dataclass's field names. A section that is present but falsy (0, an empty
  list) counts as empty, as \<open>raw.get(section, {}) or {}\<close> does.
\<close>

definition load_section :: "table \<Rightarrow> string \<Rightarrow> string list \<Rightarrow> (table \<Rightarrow> 'c) \<Rightarrow> 'c res" where
  "load_section raw name valid cls =
     (let v = (case map_of raw name of None \<Rightarrow> PDict [] | Some v \<Rightarrow> v);
          sub = (if truthy v then v else PDict [])
      in case sub of
           PDict d \<Rightarrow>
             let unknown = filter (\<lambda>k. k \<notin> set valid) (dkeys d) in
             if unknown \<noteq> []
             then Inl (ConfigError
               [Lit (''['' @ name @ ''] unknown keys: ''), Val (strs (sort unknown))])
             else Inr (cls d)
         | _ \<Rightarrow> Inl (ConfigError [Lit (''['' @ name @ ''] must be a table'')]))"

definition general_fields :: "string list" where
  "general_fields = [''poll_interval_s'', ''log_level'']"

definition thresholds_fields :: "string list" where
  "thresholds_fields = [''util_low'', ''mem_low'', ''idle_debounce_s'']"

definition worker_fields :: "string list" where
  "worker_fields =
     [''workloads'', ''mem_frac'', ''mem_mb'', ''mem_noise_frac'', ''mem_noise_period_s'',
      ''util_target'', ''util_noise_frac'', ''util_noise_period_s'', ''nice'',
      ''restart_backoff_s'']"

definition pause_fields :: "string list" where
  "pause_fields = [''min_duration_s'', ''max_duration_s'']"

definition load_sections :: "table \<Rightarrow> config res" where
  "load_sections raw =
     rbind (load_section raw ''general'' general_fields GeneralCfg) (\<lambda>a.
     rbind (load_section raw ''gpu'' [''indices''] GpuCfg) (\<lambda>b.
     rbind (load_section raw ''thresholds'' thresholds_fields ThresholdsCfg) (\<lambda>c.
     rbind (load_section raw ''worker'' worker_fields WorkerCfg) (\<lambda>d.
     rbind (load_section raw ''multiuser'' [''whitelist''] MultiuserCfg) (\<lambda>e.
     rbind (load_section raw ''pause'' pause_fields PauseCfg) (\<lambda>f.
     rbind (load_section raw ''history'' [''max_entries''] HistoryCfg) (\<lambda>g.
     Inr \<lparr>general = a, gpu = b, thresholds = c, worker = d, multiuser = e, pause = f,
          history = g\<rparr>)))))))"

section \<open>Validation\<close>

text \<open>
  A boolean expression that may raise, with Python's short circuit, and the statement
  \<open>if cond: raise ConfigError(msg)\<close>, whose outcome is the exception raised, if any.
\<close>

definition r_and :: "bool res \<Rightarrow> bool res \<Rightarrow> bool res" where
  "r_and a b = rbind a (\<lambda>x. if x then b else Inr False)"

definition r_or :: "bool res \<Rightarrow> bool res \<Rightarrow> bool res" where
  "r_or a b = rbind a (\<lambda>x. if x then Inr True else b)"

definition r_not :: "bool res \<Rightarrow> bool res" where
  "r_not a = rbind a (\<lambda>x. Inr (\<not> x))"

definition raise_if :: "bool res \<Rightarrow> message \<Rightarrow> exn option" where
  "raise_if cond msg =
     (case cond of Inl e \<Rightarrow> Some e | Inr b \<Rightarrow> if b then Some (ConfigError msg) else None)"

fun first_raise :: "exn option list \<Rightarrow> exn option" where
  "first_raise [] = None"
| "first_raise (None # cs) = first_raise cs"
| "first_raise (Some e # cs) = Some e"

text \<open>
  \<open>set(w.workloads)\<close>: iterating and hashing raise TypeError on what cannot be iterated or
  hashed; equal elements collapse (\<open>1 == True == 1.0\<close>, while NaN equals nothing). \<open>sorted\<close>
  raises TypeError when two elements cannot be compared.
\<close>

definition py_eq :: "pyval \<Rightarrow> pyval \<Rightarrow> bool" where
  "py_eq a b =
     (case (num_of a, num_of b) of
        (Some x, Some y) \<Rightarrow> x = y \<and> x \<noteq> NaN
      | (None, None) \<Rightarrow> a = b
      | _ \<Rightarrow> False)"

fun hashable :: "pyval \<Rightarrow> bool" where
  "hashable (PList _) = False"
| "hashable (PDict _) = False"
| "hashable _ = True"

fun dedupe :: "pyval list \<Rightarrow> pyval list" where
  "dedupe [] = []"
| "dedupe (x # xs) = x # filter (\<lambda>y. \<not> py_eq x y) (dedupe xs)"

fun py_less_any :: "pyval \<Rightarrow> pyval \<Rightarrow> bool res" where
  "py_less_any (PStr a) (PStr b) = Inr (a < b)"
| "py_less_any (PDate a) (PDate b) = Inr (a < b)"
| "py_less_any a b = py_lt a b"

fun py_insert :: "pyval \<Rightarrow> pyval list \<Rightarrow> pyval list res" where
  "py_insert x [] = Inr [x]"
| "py_insert x (y # ys) =
     rbind (py_less_any y x) (\<lambda>b.
       if b then rbind (py_insert x ys) (\<lambda>zs. Inr (y # zs)) else Inr (x # y # ys))"

fun py_sorted :: "pyval list \<Rightarrow> pyval list res" where
  "py_sorted [] = Inr []"
| "py_sorted (x # xs) = rbind (py_sorted xs) (py_insert x)"

definition valid_workloads :: "pyval list" where
  "valid_workloads = [PStr ''mem'', PStr ''util'']"

definition check_workloads :: "pyval \<Rightarrow> exn option" where
  "check_workloads v =
     (case py_iter v of
        Inl e \<Rightarrow> Some e
      | Inr xs \<Rightarrow>
          if \<not> (\<forall>x \<in> set xs. hashable x) then Some TypeError
          else let bad = filter (\<lambda>x. x \<notin> set valid_workloads) (dedupe xs) in
               if bad = [] then None
               else (case py_sorted bad of
                       Inl e \<Rightarrow> Some e
                     | Inr s \<Rightarrow> Some (ConfigError
                         [Lit ''worker.workloads contains unknown entries: '', Val (PList s)])))"

definition in_range :: "int \<Rightarrow> pyval \<Rightarrow> int \<Rightarrow> bool res" where
  "in_range lo v hi = r_and (py_le (PInt lo) v) (py_le v (PInt hi))"

fun bad_index :: "pyval \<Rightarrow> bool" where
  "bad_index (PInt i) = (i < 0)"
| "bad_index _ = True"

fun bad_entry :: "pyval \<Rightarrow> bool" where
  "bad_entry (PStr _) = False"
| "bad_entry (PInt _) = False"
| "bad_entry _ = True"

definition check_whitelist :: "pyval \<Rightarrow> exn option" where
  "check_whitelist v =
     (case py_iter v of
        Inl e \<Rightarrow> Some e
      | Inr es \<Rightarrow>
          (case filter bad_entry es of
             [] \<Rightarrow> None
           | e # _ \<Rightarrow> Some (ConfigError
               [Lit ''multiuser.whitelist entry not a str or int: '', Repr e])))"

definition validate :: "config \<Rightarrow> exn option" where
  "validate cfg =
     (let t = thresholds cfg; w = worker cfg; p = pause cfg in first_raise
      [raise_if (r_not (in_range 0 (util_low t) 100))
         [Lit ''thresholds.util_low must be in [0, 100]''],
       raise_if (r_not (in_range 0 (mem_low t) 100))
         [Lit ''thresholds.mem_low must be in [0, 100]''],
       raise_if (py_le (idle_debounce_s t) (PInt 0))
         [Lit ''thresholds.idle_debounce_s must be > 0''],
       check_workloads (workloads w),
       raise_if
         (r_and (Inr (mem_mb w = PNone))
            (r_not (r_and (py_lt (PInt 0) (mem_frac w)) (py_lt (mem_frac w) (PInt 1)))))
         [Lit ''worker.mem_frac must be in (0, 1) when mem_mb is unset''],
       raise_if (r_and (Inr (mem_mb w \<noteq> PNone)) (py_le (mem_mb w) (PInt 0)))
         [Lit ''worker.mem_mb must be > 0''],
       raise_if (r_not (in_range 0 (util_target w) 100))
         [Lit ''worker.util_target must be in [0, 100]''],
       raise_if (r_or (py_lt (mem_noise_frac w) (PInt 0)) (py_lt (util_noise_frac w) (PInt 0)))
         [Lit ''worker noise fractions must be >= 0''],
       raise_if
         (r_or (py_le (mem_noise_period_s w) (PInt 0)) (py_le (util_noise_period_s w) (PInt 0)))
         [Lit ''worker noise periods must be > 0''],
       raise_if (py_le (min_duration_s p) (PInt 0)) [Lit ''pause.min_duration_s must be > 0''],
       raise_if (py_lt (max_duration_s p) (min_duration_s p))
         [Lit ''pause.max_duration_s must be >= min_duration_s''],
       raise_if (py_lt (max_entries (history cfg)) (PInt 10))
         [Lit ''history.max_entries must be >= 10''],
       raise_if (rbind (py_iter (indices (gpu cfg))) (\<lambda>is. Inr (\<exists>i \<in> set is. bad_index i)))
         [Lit ''gpu.indices must be a list of non-negative integers''],
       check_whitelist (whitelist (multiuser cfg)),
       raise_if (py_le (poll_interval_s (general cfg)) (PInt 0))
         [Lit ''general.poll_interval_s must be > 0'']])"

section \<open>Loading\<close>

text \<open>
  What reading and parsing the file gives: no file, an OS error, bytes that are not UTF-8 (the
  one decoding error the code does not catch), text that is not TOML, or a document.
\<close>

datatype cfg_file = NoFile | CfgOSError | CfgNotUtf8 | BadToml | Toml table

definition load_config :: "string \<Rightarrow> cfg_file \<Rightarrow> config res" where
  "load_config path file =
     (case file of
        NoFile \<Rightarrow> (case validate default_config of Some e \<Rightarrow> Inl e | None \<Rightarrow> Inr default_config)
      | CfgOSError \<Rightarrow> Inl (ConfigError [Lit (''parse error in '' @ path @ '': ''), Exc OSError])
      | BadToml \<Rightarrow>
          Inl (ConfigError [Lit (''parse error in '' @ path @ '': ''), Exc (OtherExn ''TOMLDecodeError'')])
      | CfgNotUtf8 \<Rightarrow> Inl UnicodeDecodeError
      | Toml raw \<Rightarrow>
          let unknown = filter (\<lambda>k. k \<notin> set known_sections) (dkeys raw) in
          if unknown \<noteq> []
          then Inl (ConfigError [Lit ''unknown top-level tables: '', Val (strs (sort unknown))])
          else rbind (load_sections raw) (\<lambda>cfg.
            case validate cfg of Some e \<Rightarrow> Inl e | None \<Rightarrow> Inr cfg))"

section \<open>What validation accepts\<close>

definition num_sat :: "(pyfloat \<Rightarrow> bool) \<Rightarrow> pyval \<Rightarrow> bool" where
  "num_sat P v \<longleftrightarrow> (case num_of v of None \<Rightarrow> False | Some x \<Rightarrow> P x)"

definition all_elems :: "(pyval \<Rightarrow> bool) \<Rightarrow> pyval \<Rightarrow> bool" where
  "all_elems P v \<longleftrightarrow> (case py_iter v of Inl _ \<Rightarrow> False | Inr xs \<Rightarrow> \<forall>x \<in> set xs. P x)"

text \<open>
  The declarative reading. A number that is only required not to be \<open>\<le> 0\<close> or \<open>< 10\<close> may
  be NaN: the code tests for the bad range, not for the good one.
\<close>

definition config_ok :: "config \<Rightarrow> bool" where
  "config_ok c \<longleftrightarrow>
     (let t = thresholds c; w = worker c; p = pause c in
      num_sat (\<lambda>x. Fin 0 \<le> x \<and> x \<le> Fin 100) (util_low t) \<and>
      num_sat (\<lambda>x. Fin 0 \<le> x \<and> x \<le> Fin 100) (mem_low t) \<and>
      num_sat (\<lambda>x. \<not> x \<le> Fin 0) (idle_debounce_s t) \<and>
      all_elems (\<lambda>x. x = PStr ''mem'' \<or> x = PStr ''util'') (workloads w) \<and>
      (if mem_mb w = PNone then num_sat (\<lambda>x. Fin 0 < x \<and> x < Fin 1) (mem_frac w)
       else num_sat (\<lambda>x. \<not> x \<le> Fin 0) (mem_mb w)) \<and>
      num_sat (\<lambda>x. Fin 0 \<le> x \<and> x \<le> Fin 100) (util_target w) \<and>
      num_sat (\<lambda>x. \<not> x < Fin 0) (mem_noise_frac w) \<and>
      num_sat (\<lambda>x. \<not> x < Fin 0) (util_noise_frac w) \<and>
      num_sat (\<lambda>x. \<not> x \<le> Fin 0) (mem_noise_period_s w) \<and>
      num_sat (\<lambda>x. \<not> x \<le> Fin 0) (util_noise_period_s w) \<and>
      num_sat (\<lambda>x. \<not> x \<le> Fin 0 \<and> num_sat (\<lambda>y. \<not> y < x) (max_duration_s p)) (min_duration_s p) \<and>
      num_sat (\<lambda>x. \<not> x < Fin 10) (max_entries (history c)) \<and>
      all_elems (\<lambda>i. \<exists>k. i = PInt k \<and> 0 \<le> k) (indices (gpu c)) \<and>
      all_elems (\<lambda>e. (\<exists>s. e = PStr s) \<or> (\<exists>k. e = PInt k)) (whitelist (multiuser c)) \<and>
      num_sat (\<lambda>x. \<not> x \<le> Fin 0) (poll_interval_s (general c)))"

lemma first_raise_None: "first_raise cs = None \<longleftrightarrow> (\<forall>c \<in> set cs. c = None)"
  by (induction cs rule: first_raise.induct) auto

lemma first_raise_Some: "first_raise cs = Some e \<Longrightarrow> Some e \<in> set cs"
  by (induction cs rule: first_raise.induct) auto

lemma raise_if_None: "raise_if c m = None \<longleftrightarrow> c = Inr False"
  by (auto simp: raise_if_def split: sum.splits)

lemma num_of_int [simp]: "num_of (PInt i) = Some (Fin (real_of_int i))"
  by simp

lemma not_in_range: "r_not (in_range lo v hi) = Inr False \<longleftrightarrow>
    num_sat (\<lambda>x. Fin (real_of_int lo) \<le> x \<and> x \<le> Fin (real_of_int hi)) v"
  by (auto simp: r_not_def in_range_def r_and_def py_cmp_def num_sat_def split: option.splits)

lemma cmp_const_False: "py_cmp r v (PInt k) = Inr False \<longleftrightarrow>
    num_sat (\<lambda>x. \<not> r x (Fin (real_of_int k))) v"
  by (auto simp: py_cmp_def num_sat_def split: option.splits)

lemma r_or_False: "r_or a b = Inr False \<longleftrightarrow> a = Inr False \<and> b = Inr False"
  by (auto simp: r_or_def res_simps)

lemma guarded_False: "r_and (Inr g) c = Inr False \<longleftrightarrow> (g \<longrightarrow> c = Inr False)"
  by (auto simp: r_and_def)

lemma open_unit: "r_not (r_and (py_lt (PInt 0) v) (py_lt v (PInt 1))) = Inr False \<longleftrightarrow>
    num_sat (\<lambda>x. Fin 0 < x \<and> x < Fin 1) v"
  by (auto simp: r_not_def r_and_def py_cmp_def num_sat_def split: option.splits)

lemma iter_any_False:
  "rbind (py_iter v) (\<lambda>is. Inr (\<exists>i \<in> set is. P i)) = Inr False \<longleftrightarrow> all_elems (\<lambda>i. \<not> P i) v"
  by (cases "py_iter v") (auto simp: all_elems_def)

lemma bad_index_iff: "\<not> bad_index i \<longleftrightarrow> (\<exists>k. i = PInt k \<and> 0 \<le> k)"
  by (cases i) auto

lemma bad_entry_iff: "\<not> bad_entry e \<longleftrightarrow> (\<exists>s. e = PStr s) \<or> (\<exists>k. e = PInt k)"
  by (cases e) auto

lemma dedupe_covers: "x \<in> set xs \<Longrightarrow> \<exists>y \<in> set (dedupe xs). y = x \<or> py_eq y x"
proof (induction xs)
  case (Cons z xs)
  have trans: "py_eq a b \<Longrightarrow> py_eq b c \<Longrightarrow> py_eq a c" for a b c
    by (auto simp: py_eq_def split: option.splits)
  show ?case
  proof (cases "x = z")
    case True
    then show ?thesis by auto
  next
    case False
    with Cons obtain y where y: "y \<in> set (dedupe xs)" "y = x \<or> py_eq y x" by auto
    then show ?thesis by (cases "py_eq z y") (auto intro: trans)
  qed
qed simp

lemma dedupe_subset: "set (dedupe xs) \<subseteq> set xs"
  by (induction xs) auto

lemma py_eq_workload: "py_eq y x \<Longrightarrow> y \<in> set valid_workloads \<Longrightarrow> x = y"
  by (auto simp: py_eq_def valid_workloads_def split: option.splits)

lemma check_workloads_None:
  "check_workloads v = None \<longleftrightarrow> all_elems (\<lambda>x. x = PStr ''mem'' \<or> x = PStr ''util'') v"
proof (cases "py_iter v")
  case (Inl e)
  then show ?thesis by (simp add: check_workloads_def all_elems_def)
next
  case (Inr xs)
  have "x \<in> set valid_workloads" if "x \<in> set xs" "\<forall>y \<in> set (dedupe xs). y \<in> set valid_workloads" for x
    using dedupe_covers [OF that(1)] that(2) py_eq_workload by metis
  then have bad: "filter (\<lambda>x. x \<notin> set valid_workloads) (dedupe xs) = [] \<longleftrightarrow>
      (\<forall>x \<in> set xs. x \<in> set valid_workloads)"
    using dedupe_subset by (auto simp: filter_empty_conv)
  have hash: "\<forall>x \<in> set xs. x \<in> set valid_workloads \<Longrightarrow> \<forall>x \<in> set xs. hashable x"
    by (auto simp: valid_workloads_def)
  have "check_workloads v = None \<longleftrightarrow> (\<forall>x \<in> set xs. x \<in> set valid_workloads)"
    using Inr bad hash by (auto simp: check_workloads_def Let_def split: sum.splits)
  with Inr show ?thesis by (auto simp: all_elems_def valid_workloads_def)
qed

lemma check_whitelist_None:
  "check_whitelist v = None \<longleftrightarrow>
   all_elems (\<lambda>e. (\<exists>s. e = PStr s) \<or> (\<exists>k. e = PInt k)) v"
proof (cases "py_iter v")
  case (Inr es)
  have "check_whitelist v = None \<longleftrightarrow> filter bad_entry es = []"
    using Inr by (auto simp: check_whitelist_def split: list.splits)
  with Inr show ?thesis by (simp add: all_elems_def filter_empty_conv bad_entry_iff)
qed (simp add: check_whitelist_def all_elems_def)

lemma min_max_None:
  "py_le m (PInt 0) = Inr False \<Longrightarrow>
   py_lt x m = Inr False \<longleftrightarrow> num_sat (\<lambda>a. num_sat (\<lambda>b. \<not> b < a) x) m"
  by (auto simp: py_cmp_def num_sat_def split: option.splits)

lemma num_sat_conj: "num_sat (\<lambda>x. P x \<and> Q x) v \<longleftrightarrow> num_sat P v \<and> num_sat Q v"
  by (simp add: num_sat_def split: option.splits)

lemma mem_size_None:
  "(mem_mb w = PNone \<longrightarrow> num_sat (\<lambda>x. Fin 0 < x \<and> x < Fin 1) (mem_frac w)) \<and>
   (mem_mb w \<noteq> PNone \<longrightarrow> num_sat (\<lambda>x. \<not> x \<le> Fin 0) (mem_mb w)) \<longleftrightarrow>
   (if mem_mb w = PNone then num_sat (\<lambda>x. Fin 0 < x \<and> x < Fin 1) (mem_frac w)
    else num_sat (\<lambda>x. \<not> x \<le> Fin 0) (mem_mb w))"
  by simp

lemmas validate_simps =
  raise_if_None not_in_range cmp_const_False r_or_False guarded_False open_unit iter_any_False
  check_workloads_None check_whitelist_None bad_index_iff

text \<open>Validation, check by check: no check raises exactly when \<open>config_ok\<close> holds.\<close>

theorem validate_iff_config_ok: "validate c = None \<longleftrightarrow> config_ok c"
proof -
  have pause: "py_le m (PInt 0) = Inr False \<and> py_lt x m = Inr False \<longleftrightarrow>
      num_sat (\<lambda>a. \<not> a \<le> Fin 0 \<and> num_sat (\<lambda>b. \<not> b < a) x) m" for m x
    using min_max_None [of m x] by (auto simp: num_sat_conj cmp_const_False)
  show ?thesis
    unfolding validate_def config_ok_def Let_def first_raise_None pause [symmetric]
      mem_size_None [symmetric]
    by (simp add: validate_simps conj_ac)
qed

lemma load_config_ok:
  assumes "load_config path file = Inr c"
  shows "config_ok c"
proof -
  have "validate c = None"
    using assms by (auto simp: load_config_def Let_def res_simps split: cfg_file.splits
        option.splits if_splits)
  then show ?thesis by (simp add: validate_iff_config_ok)
qed

section \<open>Which exception a rejected configuration raises\<close>

definition is_num :: "pyval \<Rightarrow> bool" where
  "is_num v \<longleftrightarrow> num_of v \<noteq> None"

definition well_typed :: "config \<Rightarrow> bool" where
  "well_typed c \<longleftrightarrow>
     (\<forall>v \<in> {util_low (thresholds c), mem_low (thresholds c), idle_debounce_s (thresholds c),
             mem_frac (worker c), util_target (worker c), mem_noise_frac (worker c),
             util_noise_frac (worker c), mem_noise_period_s (worker c),
             util_noise_period_s (worker c), min_duration_s (pause c), max_duration_s (pause c),
             max_entries (history c), poll_interval_s (general c)}. is_num v) \<and>
     (mem_mb (worker c) = PNone \<or> is_num (mem_mb (worker c))) \<and>
     (\<exists>ws. workloads (worker c) = PList (map PStr ws)) \<and>
     (\<exists>xs. indices (gpu c) = PList xs) \<and> (\<exists>xs. whitelist (multiuser c) = PList xs)"

definition only_config_error :: "exn option \<Rightarrow> bool" where
  "only_config_error r \<longleftrightarrow> (\<forall>e. r = Some e \<longrightarrow> (\<exists>m. e = ConfigError m))"

lemma raise_if_only: "\<not> isl c \<Longrightarrow> only_config_error (raise_if c m)"
  by (cases c) (simp_all add: only_config_error_def raise_if_def)

lemma is_num_int [simp]: "is_num (PInt i)"
  by (simp add: is_num_def)

lemma not_isl_cmp: "is_num a \<Longrightarrow> is_num b \<Longrightarrow> \<not> isl (py_cmp r a b)"
  by (auto simp: is_num_def py_cmp_def)

lemma not_isl_bool:
  "\<not> isl a \<Longrightarrow> \<not> isl b \<Longrightarrow> \<not> isl (r_and a b)"
  "\<not> isl a \<Longrightarrow> \<not> isl b \<Longrightarrow> \<not> isl (r_or a b)"
  "\<not> isl a \<Longrightarrow> \<not> isl (r_not a)"
  by (cases a; simp add: r_and_def r_or_def r_not_def)+

lemma not_isl_guard: "(g \<Longrightarrow> \<not> isl c) \<Longrightarrow> \<not> isl (r_and (Inr g) c)"
  by (simp add: r_and_def)

lemma not_isl_range: "is_num v \<Longrightarrow> \<not> isl (in_range lo v hi)"
  by (simp add: in_range_def not_isl_bool not_isl_cmp)

lemmas total_simps = not_isl_cmp not_isl_bool not_isl_guard not_isl_range

lemma py_insert_strs: "\<exists>zs. py_insert (PStr x) (map PStr ys) = Inr (map PStr zs)"
proof (induction ys)
  case Nil
  show ?case by (auto intro: exI [of _ "[x]"])
next
  case (Cons y ys)
  then obtain zs where "py_insert (PStr x) (map PStr ys) = Inr (map PStr zs)" by blast
  then show ?case
    by (cases "y < x") (auto intro: exI [of _ "y # zs"] exI [of _ "x # y # ys"])
qed

lemma py_sorted_strs: "\<exists>zs. py_sorted (map PStr ys) = Inr (map PStr zs)"
proof (induction ys)
  case Nil
  show ?case by (auto intro: exI [of _ "[]"])
next
  case (Cons y ys)
  then show ?case using py_insert_strs by auto
qed

lemma filter_dedupe_strs: "\<exists>zs. filter P (dedupe (map PStr ws)) = map PStr zs"
proof -
  have "\<forall>x \<in> set (filter P (dedupe (map PStr ws))). \<exists>s. x = PStr s"
    using dedupe_subset by fastforce
  then show ?thesis by (auto simp: ex_map_conv)
qed

lemma check_workloads_strs: "only_config_error (check_workloads (PList (map PStr ws)))"
proof -
  obtain zs where bad: "filter (\<lambda>x. x \<notin> set valid_workloads) (dedupe (map PStr ws)) = map PStr zs"
    using filter_dedupe_strs by blast
  obtain ss where "py_sorted (map PStr zs) = Inr (map PStr ss)"
    using py_sorted_strs by blast
  with bad show ?thesis
    by (simp add: check_workloads_def Let_def only_config_error_def)
qed

lemma check_whitelist_list: "only_config_error (check_whitelist (PList xs))"
  by (auto simp: check_whitelist_def only_config_error_def split: list.splits)

lemma only_config_error_None [simp]: "only_config_error None"
  by (simp add: only_config_error_def)

lemma first_raise_only: "\<forall>c \<in> set cs. only_config_error c \<Longrightarrow> only_config_error (first_raise cs)"
  using first_raise_Some by (fastforce simp: only_config_error_def)

text \<open>When every field holds a value of the type its dataclass declares, a rejected
  configuration is always reported as ConfigError, the one exception the daemon's callers of
  \<open>load\<close> handle.\<close>

theorem validate_typed_only_config_error:
  assumes "well_typed c"
  shows "only_config_error (validate c)"
proof -
  obtain ws ixs wl where lists: "workloads (worker c) = PList (map PStr ws)"
      "indices (gpu c) = PList ixs" "whitelist (multiuser c) = PList wl"
    using assms by (auto simp: well_typed_def)
  have nums: "is_num (util_low (thresholds c))" "is_num (mem_low (thresholds c))"
    "is_num (idle_debounce_s (thresholds c))" "is_num (mem_frac (worker c))"
    "is_num (util_target (worker c))" "is_num (mem_noise_frac (worker c))"
    "is_num (util_noise_frac (worker c))" "is_num (mem_noise_period_s (worker c))"
    "is_num (util_noise_period_s (worker c))" "is_num (min_duration_s (pause c))"
    "is_num (max_duration_s (pause c))" "is_num (max_entries (history c))"
    "is_num (poll_interval_s (general c))"
    "mem_mb (worker c) \<noteq> PNone \<Longrightarrow> is_num (mem_mb (worker c))"
    using assms by (auto simp: well_typed_def)
  have any: "\<not> isl (rbind (Inr xs) (\<lambda>ys. Inr (P ys)))" for xs :: "pyval list" and P
    by simp
  show ?thesis
    unfolding validate_def Let_def lists py_iter.simps
    by (rule first_raise_only)
      (simp add: raise_if_only total_simps nums any check_workloads_strs check_whitelist_list
        del: rbind.simps)
qed

theorem validate_typed_only_config_error_witness:
  "only_config_error (validate (default_config\<lparr>history := \<lparr>max_entries = PInt 3\<rparr>\<rparr>))"
  by (rule validate_typed_only_config_error)
    (auto simp: well_typed_def default_config_def GeneralCfg_def GpuCfg_def ThresholdsCfg_def
      WorkerCfg_def MultiuserCfg_def PauseCfg_def is_num_def kwarg_def
      intro: exI [of _ "[''mem'', ''util'']"])

text \<open>A threshold of the wrong type is not reported as ConfigError: a file that sets
  \<open>util_low\<close> to something that is not a number makes \<open>load\<close> raise TypeError.\<close>

lemma load_config_type_error:
  assumes "num_of v = None"
  shows "load_config path (Toml [(''thresholds'', PDict [(''util_low'', v)])]) = Inl TypeError"
  using assms
  by (simp add: load_config_def load_sections_def load_section_def known_sections_def
      thresholds_fields_def ThresholdsCfg_def kwarg_def validate_def Let_def raise_if_def
      r_not_def in_range_def r_and_def py_cmp_def)

section \<open>Defaults and round trip\<close>

lemma default_config_ok: "config_ok default_config"
  by (simp add: config_ok_def default_config_def GeneralCfg_def GpuCfg_def ThresholdsCfg_def
      WorkerCfg_def MultiuserCfg_def PauseCfg_def HistoryCfg_def kwarg_def num_sat_def
      all_elems_def Let_def)

lemma load_config_absent: "load_config path NoFile = Inr default_config"
  using validate_iff_config_ok [THEN iffD2, OF default_config_ok] by (simp add: load_config_def)

lemma load_sections_to_dict: "load_sections (config_to_dict c) = Inr c"
  by (simp add: load_sections_def load_section_def config_to_dict_def kwarg_def
      general_fields_def thresholds_fields_def worker_fields_def pause_fields_def
      GeneralCfg_def GpuCfg_def ThresholdsCfg_def WorkerCfg_def MultiuserCfg_def PauseCfg_def
      HistoryCfg_def)

lemma config_dict_loads:
  assumes "config_ok c"
  shows "load_config path (Toml (config_to_dict c)) = Inr c"
proof -
  have "filter (\<lambda>k. k \<notin> set known_sections) (dkeys (config_to_dict c)) = []"
    by (simp add: config_to_dict_def known_sections_def)
  moreover have "validate c = None"
    using assms by (simp add: validate_iff_config_ok)
  ultimately show ?thesis
    by (simp add: load_config_def load_sections_to_dict)
qed

text \<open>The dictionary \<open>to_dict\<close> gives of a valid configuration, read back as a document,
  loads as the same configuration.\<close>

theorem load_config_to_dict:
  assumes "config_ok c"
  shows "load_config path (Toml (config_to_dict c)) = Inr c"
  using assms by (rule config_dict_loads)

theorem load_config_to_dict_witness:
  "load_config ''c'' (Toml (config_to_dict default_config)) = Inr default_config"
  by (rule load_config_to_dict) (rule default_config_ok)

section \<open>The declared ranges\<close>

text \<open>
  The ranges as the messages of the checks and the comments of the dataclasses declare them, each
  written as what a value has to be.
\<close>

definition in_ranges :: "config \<Rightarrow> bool" where
  "in_ranges c \<longleftrightarrow>
     (let t = thresholds c; w = worker c; p = pause c in
      num_sat (\<lambda>x. Fin 0 \<le> x \<and> x \<le> Fin 100) (util_low t) \<and>
      num_sat (\<lambda>x. Fin 0 \<le> x \<and> x \<le> Fin 100) (mem_low t) \<and>
      num_sat (\<lambda>x. Fin 0 < x) (idle_debounce_s t) \<and>
      all_elems (\<lambda>x. x = PStr ''mem'' \<or> x = PStr ''util'') (workloads w) \<and>
      (if mem_mb w = PNone then num_sat (\<lambda>x. Fin 0 < x \<and> x < Fin 1) (mem_frac w)
       else num_sat (\<lambda>x. Fin 0 < x) (mem_mb w)) \<and>
      num_sat (\<lambda>x. Fin 0 \<le> x \<and> x \<le> Fin 100) (util_target w) \<and>
      num_sat (\<lambda>x. Fin 0 \<le> x) (mem_noise_frac w) \<and> num_sat (\<lambda>x. Fin 0 \<le> x) (util_noise_frac w) \<and>
      num_sat (\<lambda>x. Fin 0 < x) (mem_noise_period_s w) \<and>
      num_sat (\<lambda>x. Fin 0 < x) (util_noise_period_s w) \<and>
      num_sat (\<lambda>x. Fin 0 < x \<and> num_sat (\<lambda>y. x \<le> y) (max_duration_s p)) (min_duration_s p) \<and>
      num_sat (\<lambda>x. Fin 10 \<le> x) (max_entries (history c)) \<and>
      all_elems (\<lambda>i. \<exists>k. i = PInt k \<and> 0 \<le> k) (indices (gpu c)) \<and>
      all_elems (\<lambda>e. (\<exists>s. e = PStr s) \<or> (\<exists>k. e = PInt k)) (whitelist (multiuser c)) \<and>
      num_sat (\<lambda>x. Fin 0 < x) (poll_interval_s (general c)))"

definition no_nan :: "config \<Rightarrow> bool" where
  "no_nan c \<longleftrightarrow>
     (\<forall>v \<in> {idle_debounce_s (thresholds c), mem_mb (worker c), mem_noise_frac (worker c),
             util_noise_frac (worker c), mem_noise_period_s (worker c),
             util_noise_period_s (worker c), min_duration_s (pause c), max_duration_s (pause c),
             max_entries (history c), poll_interval_s (general c)}. v \<noteq> PFloat NaN)"

lemma pyfloat_compl: "x \<noteq> NaN \<Longrightarrow> y \<noteq> NaN \<Longrightarrow> \<not> x \<le> y \<longleftrightarrow> y < x"
  "x \<noteq> NaN \<Longrightarrow> y \<noteq> NaN \<Longrightarrow> \<not> x < y \<longleftrightarrow> y \<le> x" for x y :: pyfloat
  by (cases x; cases y; auto)+

lemma not_nan: "v \<noteq> PFloat NaN \<Longrightarrow> num_of v = Some x \<Longrightarrow> x \<noteq> NaN"
  by (cases v) (auto split: if_splits)

lemma num_sat_compl:
  assumes "v \<noteq> PFloat NaN"
  shows "num_sat (\<lambda>x. \<not> x \<le> Fin k) v \<longleftrightarrow> num_sat (\<lambda>x. Fin k < x) v"
    "num_sat (\<lambda>x. \<not> x < Fin k) v \<longleftrightarrow> num_sat (\<lambda>x. Fin k \<le> x) v"
  using not_nan [OF assms] by (auto simp: num_sat_def pyfloat_compl split: option.splits)

lemma num_sat_pair:
  assumes "v \<noteq> PFloat NaN" "u \<noteq> PFloat NaN"
  shows "num_sat (\<lambda>x. \<not> x \<le> Fin 0 \<and> num_sat (\<lambda>y. \<not> y < x) u) v \<longleftrightarrow>
    num_sat (\<lambda>x. Fin 0 < x \<and> num_sat (\<lambda>y. x \<le> y) u) v"
  using not_nan [OF assms(1)] not_nan [OF assms(2)]
  by (auto simp: num_sat_def pyfloat_compl split: option.splits)

lemma config_ok_ranges: "no_nan c \<Longrightarrow> config_ok c \<longleftrightarrow> in_ranges c"
  unfolding config_ok_def in_ranges_def Let_def
  by (simp add: no_nan_def num_sat_compl num_sat_pair)

text \<open>C28. What \<open>load\<close> makes of a file whose tables are known and whose sections can be built. When the
  fields have the types their dataclasses declare (an int may stand for a float and the other way
  round) and none is a nan, it returns the configuration if all the declared ranges hold, and
  otherwise it raises ConfigError: the thresholds and \<open>util_target\<close> are in [0, 100], the idle time,
  noise periods, poll interval and \<open>mem_mb\<close> are positive, \<open>mem_frac\<close> is inside (0, 1) where it counts,
  the noise fractions are not negative, \<open>0 < min_duration_s <= max_duration_s\<close>, at least 10 history
  entries are kept, and workloads, GPU indices and whitelist hold nothing else than they may.\<close>

theorem load_in_ranges:
  assumes "set (dkeys raw) \<subseteq> set known_sections" "load_sections raw = Inr c"
    and "well_typed c" "no_nan c"
  shows "if in_ranges c then load_config path (Toml raw) = Inr c
    else \<exists>m. load_config path (Toml raw) = Inl (ConfigError m)"
proof -
  have "filter (\<lambda>k. k \<notin> set known_sections) (dkeys raw) = []"
    using assms(1) by (auto simp: filter_empty_conv)
  then have load: "load_config path (Toml raw) =
      (case validate c of Some e \<Rightarrow> Inl e | None \<Rightarrow> Inr c)"
    using assms(2) by (simp add: load_config_def Let_def)
  have "validate c = None \<longleftrightarrow> in_ranges c"
    using validate_iff_config_ok config_ok_ranges [OF assms(4)] by simp
  moreover have "only_config_error (validate c)" by (rule validate_typed_only_config_error [OF assms(3)])
  ultimately show ?thesis by (auto simp: load only_config_error_def split: option.splits)
qed

theorem load_in_ranges_witness:
  "\<exists>m. load_config ''c'' (Toml [(''pause'', PDict [(''min_duration_s'', PInt 60), (''max_duration_s'', PInt 30)])]) =
     Inl (ConfigError m)"
proof -
  let ?raw = "[(''pause'', PDict [(''min_duration_s'', PInt 60), (''max_duration_s'', PInt 30)])]"
  let ?c = "default_config\<lparr>pause := \<lparr>min_duration_s = PInt 60, max_duration_s = PInt 30\<rparr>\<rparr>"
  have "load_sections ?raw = Inr ?c"
    by (simp add: load_sections_def load_section_def default_config_def pause_fields_def
        PauseCfg_def kwarg_def Let_def)
  moreover have "set (dkeys ?raw) \<subseteq> set known_sections" by (simp add: known_sections_def)
  moreover have "well_typed ?c" "no_nan ?c" "\<not> in_ranges ?c"
    by (auto simp: well_typed_def no_nan_def in_ranges_def default_config_def GeneralCfg_def GpuCfg_def
        ThresholdsCfg_def WorkerCfg_def MultiuserCfg_def HistoryCfg_def is_num_def kwarg_def
        num_sat_def intro: exI [of _ "[''mem'', ''util'']"])
  ultimately show ?thesis using load_in_ranges [of ?raw ?c "''c''"] by simp
qed

end
