(* ===== verification/Workers.thy ===== *)
theory Workers
  imports Config
begin

text \<open>
  \<open>src/src/ocp/worker/manager.py\<close>: the pool of worker processes. A \<open>Popen\<close> object is a
  number (\<open>p_next\<close> is the next one); \<open>p_exited\<close> is the operating system's side, the exit
  code of each process that has ended. The coroutines that suspend are tasks: \<open>stop\<close> before its
  first step, waiting after SIGTERM, waiting after SIGKILL, and \<open>_watch\<close>. \<open>run_task\<close> is one
  activation of a task, up to its next suspension; the event loop may activate tasks in any
  order, which \<open>pool_step\<close> says. A cancelled watcher does nothing more, so cancelling removes it.

  The lemmas: the three dicts of the pool always agree, and a process that is alive is one the
  pool knows, as long as nothing is spawned on a GPU whose previous worker is still being stopped
  (without that condition a live worker can be forgotten).
\<close>

record worker_proc =
  wp_gpu :: int
  wp_pid :: int
  wp_started_at :: real

datatype task = StopTask int | StopWait int nat | StopKill int nat | WatchTask int nat

record pool =
  p_cfg :: worker_cfg
  p_procs :: "(int \<times> nat) list"
  p_meta :: "(int \<times> worker_proc) list"
  p_watchers :: "(int \<times> nat) list"
  p_next :: nat
  p_exited :: "nat \<Rightarrow> int option"
  p_tasks :: "task list"

definition pool_init :: "worker_cfg \<Rightarrow> pool" where
  "pool_init cfg =
     \<lparr>p_cfg = cfg, p_procs = [], p_meta = [], p_watchers = [], p_next = 0,
      p_exited = (\<lambda>_. None), p_tasks = []\<rparr>"

definition replace_worker_config :: "worker_cfg \<Rightarrow> pool \<Rightarrow> pool" where
  "replace_worker_config cfg p = p\<lparr>p_cfg := cfg\<rparr>"

definition worker_get :: "pool \<Rightarrow> int \<Rightarrow> worker_proc option" where
  "worker_get p g = map_of (p_meta p) g"

definition running_gpus :: "pool \<Rightarrow> int list" where
  "running_gpus p = dkeys (p_procs p)"

definition pid_for :: "pool \<Rightarrow> int \<Rightarrow> int option" where
  "pid_for p g = map_option wp_pid (map_of (p_meta p) g)"

definition our_pids :: "pool \<Rightarrow> int set" where
  "our_pids p = set (map wp_pid (dvals (p_meta p)))"

section \<open>Spawning\<close>

definition join_strs :: "string \<Rightarrow> pyval \<Rightarrow> string res" where
  "join_strs sep v =
     rbind (py_iter v) (\<lambda>xs.
     rbind (rmap (\<lambda>x. case x of PStr s \<Rightarrow> Inr s | _ \<Rightarrow> Inl TypeError) xs) (\<lambda>ss.
     Inr (join sep ss)))"

definition build_argv :: "formatter \<Rightarrow> string \<Rightarrow> worker_cfg \<Rightarrow> int \<Rightarrow> string list res" where
  "build_argv F exe cfg g =
     rbind (join_strs '','' (workloads cfg)) (\<lambda>loads.
       let argv =
         [exe, ''-m'', ''ocp.worker.main'',
          ''--gpu'', dec_int g,
          ''--workloads'', loads,
          ''--util-target'', fmt_str F (util_target cfg),
          ''--mem-noise-frac'', fmt_str F (mem_noise_frac cfg),
          ''--mem-noise-period-s'', fmt_str F (mem_noise_period_s cfg),
          ''--util-noise-frac'', fmt_str F (util_noise_frac cfg),
          ''--util-noise-period-s'', fmt_str F (util_noise_period_s cfg)];
           argv = argv @ (if mem_mb cfg \<noteq> PNone then [''--mem-mb'', fmt_str F (mem_mb cfg)]
                          else [''--mem-frac'', fmt_str F (mem_frac cfg)]);
           argv = argv @ (if nice cfg \<noteq> PNone then [''--nice'', fmt_str F (nice cfg)] else [])
       in Inr argv)"

text \<open>
  What starting a process does is outside: \<open>launch argv\<close> is the new pid, or the OSError that
  \<open>Popen\<close> raises.
\<close>

definition spawn ::
    "formatter \<Rightarrow> string \<Rightarrow> (string list \<Rightarrow> int option) \<Rightarrow> real \<Rightarrow> int \<Rightarrow> pool \<Rightarrow> worker_proc res \<times> pool"
  where
  "spawn F exe launch now g p =
     (if g \<in> set (dkeys (p_procs p))
      then (case map_of (p_meta p) g of None \<Rightarrow> Inl KeyError | Some m \<Rightarrow> Inr m, p)
      else (case build_argv F exe (p_cfg p) g of
              Inl e \<Rightarrow> (Inl e, p)
            | Inr argv \<Rightarrow>
                (case launch argv of
                   None \<Rightarrow> (Inl OSError, p)
                 | Some pid \<Rightarrow>
                     let po = p_next p; meta = \<lparr>wp_gpu = g, wp_pid = pid, wp_started_at = now\<rparr>
                     in (Inr meta,
                         p\<lparr>p_procs := dset g po (p_procs p), p_meta := dset g meta (p_meta p),
                           p_watchers := dset g po (p_watchers p), p_next := Suc po,
                           p_tasks := p_tasks p @ [WatchTask g po]\<rparr>))))"

section \<open>Stopping and watching\<close>

definition schedule_stop :: "int \<Rightarrow> pool \<Rightarrow> pool" where
  "schedule_stop g p = p\<lparr>p_tasks := p_tasks p @ [StopTask g]\<rparr>"

definition stop_all :: "pool \<Rightarrow> pool" where
  "stop_all p = fold schedule_stop (dkeys (p_procs p)) p"

definition cleanup :: "int \<Rightarrow> pool \<Rightarrow> pool" where
  "cleanup g p =
     p\<lparr>p_procs := ddel g (p_procs p), p_meta := ddel g (p_meta p),
       p_watchers := ddel g (p_watchers p),
       p_tasks := (case map_of (p_watchers p) g of
                     None \<Rightarrow> p_tasks p
                   | Some po \<Rightarrow> removeAll (WatchTask g po) (p_tasks p))\<rparr>"

definition add_task :: "task \<Rightarrow> pool \<Rightarrow> pool" where
  "add_task t p = p\<lparr>p_tasks := p_tasks p @ [t]\<rparr>"

text \<open>
  One activation of a task already taken off the list. \<open>timeout\<close> says whether the wait after
  SIGTERM has timed out. The second result is the call of \<open>on_exit\<close>, if there is one.
\<close>

fun run_task :: "bool \<Rightarrow> task \<Rightarrow> pool \<Rightarrow> pool \<times> (int \<times> int) option" where
  "run_task timeout (StopTask g) p =
     (case map_of (p_procs p) g of
        None \<Rightarrow> (p, None)
      | Some po \<Rightarrow>
          if p_exited p po = None then (add_task (StopWait g po) p, None) else (cleanup g p, None))"
| "run_task timeout (StopWait g po) p =
     (if p_exited p po \<noteq> None then (cleanup g p, None)
      else if timeout then (add_task (StopKill g po) p, None)
      else (add_task (StopWait g po) p, None))"
| "run_task timeout (StopKill g po) p =
     (if p_exited p po \<noteq> None then (cleanup g p, None) else (add_task (StopKill g po) p, None))"
| "run_task timeout (WatchTask g po) p =
     (case p_exited p po of
        None \<Rightarrow> (add_task (WatchTask g po) p, None)
      | Some rc \<Rightarrow>
          if map_of (p_procs p) g = Some po then (cleanup g p, Some (g, rc)) else (p, None))"

definition activate :: "bool \<Rightarrow> task \<Rightarrow> pool \<Rightarrow> pool \<times> (int \<times> int) option" where
  "activate timeout t p = run_task timeout t (p\<lparr>p_tasks := remove1 t (p_tasks p)\<rparr>)"

definition process_exit :: "nat \<Rightarrow> int \<Rightarrow> pool \<Rightarrow> pool" where
  "process_exit po rc p = p\<lparr>p_exited := (p_exited p)(po \<mapsto> rc)\<rparr>"

section \<open>Runs of the pool\<close>

text \<open>
  Everything that can happen to the pool, in any order. \<open>may_spawn\<close> restricts when the
  environment asks for a spawn; with \<open>\<lambda>_ _. True\<close> it is unrestricted.
\<close>

inductive pool_step :: "(int \<Rightarrow> pool \<Rightarrow> bool) \<Rightarrow> pool \<Rightarrow> pool \<Rightarrow> bool" for may_spawn where
  spawn: "may_spawn g p \<Longrightarrow> pool_step may_spawn p (snd (spawn F exe launch now g p))"
| schedule: "pool_step may_spawn p (schedule_stop g p)"
| activate: "t \<in> set (p_tasks p) \<Longrightarrow> pool_step may_spawn p (fst (activate timeout t p))"
| exit: "po < p_next p \<Longrightarrow> p_exited p po = None \<Longrightarrow> pool_step may_spawn p (process_exit po rc p)"
| config: "pool_step may_spawn p (replace_worker_config cfg p)"

inductive pool_run :: "(int \<Rightarrow> pool \<Rightarrow> bool) \<Rightarrow> pool \<Rightarrow> bool" for may_spawn where
  init: "pool_run may_spawn (pool_init cfg)"
| step: "pool_run may_spawn p \<Longrightarrow> pool_step may_spawn p p' \<Longrightarrow> pool_run may_spawn p'"

definition task_po :: "task \<Rightarrow> nat option" where
  "task_po t =
     (case t of StopTask g \<Rightarrow> None | StopWait g po \<Rightarrow> Some po | StopKill g po \<Rightarrow> Some po
      | WatchTask g po \<Rightarrow> Some po)"

definition pool_ok :: "pool \<Rightarrow> bool" where
  "pool_ok p \<longleftrightarrow>
     dom (map_of (p_meta p)) = dom (map_of (p_procs p)) \<and>
     map_of (p_watchers p) = map_of (p_procs p) \<and>
     (\<forall>g m. map_of (p_meta p) g = Some m \<longrightarrow> wp_gpu m = g) \<and>
     (\<forall>g po. map_of (p_procs p) g = Some po \<longrightarrow> po < p_next p) \<and>
     inj_on (map_of (p_procs p)) (dom (map_of (p_procs p))) \<and>
     (\<forall>t po. t \<in> set (p_tasks p) \<longrightarrow> task_po t = Some po \<longrightarrow> po < p_next p)"

lemma pool_ok_init: "pool_ok (pool_init cfg)"
  by (simp add: pool_ok_def pool_init_def)

lemma not_key: "g \<notin> set (dkeys d) \<Longrightarrow> map_of d g = None"
  by (simp add: map_of_eq_None_iff)

lemma spawn_cases:
  obtains (same) "snd (spawn F exe launch now g p) = p"
  | (new) pid where "map_of (p_procs p) g = None"
    "snd (spawn F exe launch now g p) =
       p\<lparr>p_procs := dset g (p_next p) (p_procs p),
         p_meta := dset g \<lparr>wp_gpu = g, wp_pid = pid, wp_started_at = now\<rparr> (p_meta p),
         p_watchers := dset g (p_next p) (p_watchers p), p_next := Suc (p_next p),
         p_tasks := p_tasks p @ [WatchTask g (p_next p)]\<rparr>"
  by (cases "g \<in> set (dkeys (p_procs p))"; cases "build_argv F exe (p_cfg p) g";
      cases "launch (projr (build_argv F exe (p_cfg p) g))")
    (auto simp: spawn_def Let_def not_key)

lemma pool_ok_spawn:
  assumes "pool_ok p"
  shows "pool_ok (snd (spawn F exe launch now g p))"
proof (rule spawn_cases [of F exe launch now g p])
  assume "snd (spawn F exe launch now g p) = p"
  with assms show ?thesis by simp
next
  fix pid
  assume new: "map_of (p_procs p) g = None"
    and eq: "snd (spawn F exe launch now g p) =
       p\<lparr>p_procs := dset g (p_next p) (p_procs p),
         p_meta := dset g \<lparr>wp_gpu = g, wp_pid = pid, wp_started_at = now\<rparr> (p_meta p),
         p_watchers := dset g (p_next p) (p_watchers p), p_next := Suc (p_next p),
         p_tasks := p_tasks p @ [WatchTask g (p_next p)]\<rparr>"
  have "inj_on ((map_of (p_procs p))(g \<mapsto> p_next p)) (insert g (dom (map_of (p_procs p))))"
    using assms new by (force simp: pool_ok_def inj_on_def dom_def)
  with assms show ?thesis
    unfolding eq by (auto simp: pool_ok_def task_po_def less_Suc_eq)
qed

lemma pool_ok_cleanup: "pool_ok p \<Longrightarrow> pool_ok (cleanup g p)"
  by (auto simp: pool_ok_def cleanup_def inj_on_def dom_def split: option.splits)

lemma pool_ok_add_task: "pool_ok p \<Longrightarrow> task_po t = None \<or> the (task_po t) < p_next p \<Longrightarrow> pool_ok (add_task t p)"
  by (auto simp: pool_ok_def add_task_def)

lemma pool_ok_remove: "pool_ok p \<Longrightarrow> pool_ok (p\<lparr>p_tasks := remove1 t (p_tasks p)\<rparr>)"
  by (auto simp: pool_ok_def dest: notin_set_remove1 set_remove1_subset [THEN subsetD])

lemma pool_ok_run_task:
  "pool_ok p \<Longrightarrow> task_po t = None \<or> the (task_po t) < p_next p \<Longrightarrow> pool_ok (fst (run_task b t p))"
  by (induction b t p rule: run_task.induct)
    (auto simp: pool_ok_cleanup task_po_def intro!: pool_ok_add_task split: option.splits,
     auto simp: pool_ok_def)

lemma pool_ok_step: "pool_step may p p' \<Longrightarrow> pool_ok p \<Longrightarrow> pool_ok p'"
proof (induction rule: pool_step.induct)
  case (spawn g p F exe launch now)
  then show ?case by (simp add: pool_ok_spawn)
next
  case (schedule p g)
  then show ?case by (auto simp: pool_ok_def schedule_stop_def task_po_def)
next
  case (activate t p timeout)
  then have "task_po t = None \<or> the (task_po t) < p_next (p\<lparr>p_tasks := remove1 t (p_tasks p)\<rparr>)"
    by (cases "task_po t") (auto simp: pool_ok_def)
  with activate show ?case
    by (simp add: activate_def pool_ok_run_task pool_ok_remove)
next
  case (exit po p rc)
  then show ?case by (auto simp: pool_ok_def process_exit_def)
next
  case (config p cfg)
  then show ?case by (simp add: pool_ok_def replace_worker_config_def)
qed

lemma pool_run_ok: "pool_run may p \<Longrightarrow> pool_ok p"
  by (induction rule: pool_run.induct) (auto simp: pool_ok_init intro: pool_ok_step)

text \<open>A spawn on a concrete host, for examples.\<close>

definition spawn_one :: "pool \<Rightarrow> pool" where
  "spawn_one p = snd (spawn
     plain_fmt
     ''python'' (\<lambda>_. Some 100) 0 7 p)"

lemmas spawn_one_simps = spawn_one_def spawn_def build_argv_def join_strs_def WorkerCfg_def
  kwarg_def pool_init_def Let_def

text \<open>However spawns, stops, exits and the event loop interleave, the pool's three dicts
  agree: a GPU has a process exactly when it has a metadata record and a watcher, the watcher
  watches that process, and no two GPUs share a process.\<close>

theorem pool_dicts_agree:
  assumes "pool_run may_spawn p"
  shows "(pid_for p g \<noteq> None \<longleftrightarrow> g \<in> set (running_gpus p)) \<and>
    map_of (p_watchers p) g = map_of (p_procs p) g \<and>
    inj_on (map_of (p_procs p)) (set (running_gpus p))"
proof -
  have ok: "pool_ok p" using assms by (rule pool_run_ok)
  have keys: "dom (map_of (p_procs p)) = set (running_gpus p)"
    by (simp add: running_gpus_def dom_map_of_conv_image_fst)
  have "pid_for p g \<noteq> None \<longleftrightarrow> g \<in> dom (map_of (p_meta p))"
    by (auto simp: pid_for_def)
  with ok keys show ?thesis by (simp add: pool_ok_def)
qed

theorem pool_dicts_agree_witness:
  "pid_for (spawn_one (pool_init (WorkerCfg []))) 7 \<noteq> None \<and>
   map_of (p_watchers (spawn_one (pool_init (WorkerCfg [])))) 7 = Some 0"
proof -
  have "pool_run (\<lambda>_ _. True) (spawn_one (pool_init (WorkerCfg [])))"
    unfolding spawn_one_def by (rule pool_run.step [OF pool_run.init pool_step.spawn]) simp
  from pool_dicts_agree [OF this, of 7] show ?thesis
    by (simp add: spawn_one_simps running_gpus_def)
qed

section \<open>Live workers are known\<close>

definition no_stop_pending :: "int \<Rightarrow> pool \<Rightarrow> bool" where
  "no_stop_pending g p \<longleftrightarrow> (\<forall>po. StopWait g po \<notin> set (p_tasks p) \<and> StopKill g po \<notin> set (p_tasks p))"

definition all_known :: "pool \<Rightarrow> bool" where
  "all_known p \<longleftrightarrow>
     (\<forall>po < p_next p. p_exited p po = None \<longrightarrow> (\<exists>g. map_of (p_procs p) g = Some po))"

definition stops_match :: "pool \<Rightarrow> bool" where
  "stops_match p \<longleftrightarrow>
     (\<forall>g po. StopWait g po \<in> set (p_tasks p) \<or> StopKill g po \<in> set (p_tasks p) \<longrightarrow>
        map_of (p_procs p) g = None \<or> map_of (p_procs p) g = Some po)"

definition calm_ok :: "pool \<Rightarrow> bool" where
  "calm_ok p \<longleftrightarrow> pool_ok p \<and> all_known p \<and> stops_match p"

lemma calm_cleanup:
  assumes "calm_ok p" "\<And>po. map_of (p_procs p) g = Some po \<Longrightarrow> p_exited p po \<noteq> None"
  shows "calm_ok (cleanup g p)"
proof -
  have "all_known (cleanup g p)"
    using assms by (fastforce simp: calm_ok_def all_known_def cleanup_def)
  moreover have "stops_match (cleanup g p)"
    using assms(1) by (auto simp: calm_ok_def stops_match_def cleanup_def split: option.splits)
  ultimately show ?thesis
    using assms(1) pool_ok_cleanup by (simp add: calm_ok_def)
qed

lemma calm_remove: "calm_ok p \<Longrightarrow> calm_ok (p\<lparr>p_tasks := remove1 t (p_tasks p)\<rparr>)"
  using pool_ok_remove [of p t] set_remove1_subset [of t "p_tasks p"]
  by (simp add: calm_ok_def all_known_def stops_match_def) blast

lemma calm_add_task:
  assumes "calm_ok p" "task_po t = None \<or> the (task_po t) < p_next p"
    and "\<And>g po. t = StopWait g po \<or> t = StopKill g po \<Longrightarrow>
      map_of (p_procs p) g = None \<or> map_of (p_procs p) g = Some po"
  shows "calm_ok (add_task t p)"
  using assms pool_ok_add_task [of p t]
  by (auto simp: calm_ok_def all_known_def stops_match_def add_task_def)

lemma calm_run_task:
  assumes p: "calm_ok p" and po: "task_po t = None \<or> the (task_po t) < p_next p"
    and stop: "\<And>g po. t = StopWait g po \<or> t = StopKill g po \<Longrightarrow>
      map_of (p_procs p) g = None \<or> map_of (p_procs p) g = Some po"
  shows "calm_ok (fst (run_task b t p))"
proof (cases t)
  case (StopTask g)
  have "po < p_next p" if "map_of (p_procs p) g = Some po" for po
    using p that by (simp add: calm_ok_def pool_ok_def)
  with StopTask p show ?thesis
    by (auto simp: task_po_def intro!: calm_cleanup calm_add_task split: option.splits)
next
  case (StopWait g po)
  have match: "map_of (p_procs p) g = None \<or> map_of (p_procs p) g = Some po"
    using stop StopWait by blast
  with StopWait p po show ?thesis
    by (auto simp: task_po_def intro!: calm_cleanup calm_add_task)
next
  case (StopKill g po)
  have match: "map_of (p_procs p) g = None \<or> map_of (p_procs p) g = Some po"
    using stop StopKill by blast
  with StopKill p po show ?thesis
    by (auto simp: task_po_def intro!: calm_cleanup calm_add_task)
next
  case (WatchTask g po)
  with p po show ?thesis
    by (auto simp: task_po_def intro!: calm_cleanup calm_add_task split: option.splits)
qed

lemma calm_spawn:
  assumes p: "calm_ok p" and free: "no_stop_pending g p"
  shows "calm_ok (snd (spawn F exe launch now g p))"
proof (rule spawn_cases [of F exe launch now g p])
  assume "snd (spawn F exe launch now g p) = p"
  with p show ?thesis by simp
next
  fix pid
  assume new: "map_of (p_procs p) g = None"
    and eq: "snd (spawn F exe launch now g p) =
       p\<lparr>p_procs := dset g (p_next p) (p_procs p),
         p_meta := dset g \<lparr>wp_gpu = g, wp_pid = pid, wp_started_at = now\<rparr> (p_meta p),
         p_watchers := dset g (p_next p) (p_watchers p), p_next := Suc (p_next p),
         p_tasks := p_tasks p @ [WatchTask g (p_next p)]\<rparr>"
  have "all_known (snd (spawn F exe launch now g p))"
    unfolding eq all_known_def
  proof (intro allI impI)
    fix po
    let ?p = "p\<lparr>p_procs := dset g (p_next p) (p_procs p),
         p_meta := dset g \<lparr>wp_gpu = g, wp_pid = pid, wp_started_at = now\<rparr> (p_meta p),
         p_watchers := dset g (p_next p) (p_watchers p), p_next := Suc (p_next p),
         p_tasks := p_tasks p @ [WatchTask g (p_next p)]\<rparr>"
    assume "po < p_next ?p" "p_exited ?p po = None"
    then have "po = p_next p \<or> (\<exists>h. map_of (p_procs p) h = Some po)"
      using p by (auto simp: calm_ok_def all_known_def less_Suc_eq)
    then show "\<exists>h. map_of (p_procs ?p) h = Some po"
    proof
      assume "po = p_next p"
      then show ?thesis by (intro exI [of _ g]) simp
    next
      assume "\<exists>h. map_of (p_procs p) h = Some po"
      then obtain h where "map_of (p_procs p) h = Some po" by blast
      with new show ?thesis by (intro exI [of _ h]) auto
    qed
  qed
  moreover have "stops_match (snd (spawn F exe launch now g p))"
    using p free unfolding eq by (auto simp: calm_ok_def stops_match_def no_stop_pending_def)
  ultimately show ?thesis
    using p pool_ok_spawn by (simp add: calm_ok_def)
qed

lemma calm_step: "pool_step no_stop_pending p p' \<Longrightarrow> calm_ok p \<Longrightarrow> calm_ok p'"
proof (induction rule: pool_step.induct)
  case (spawn g p F exe launch now)
  then show ?case by (simp add: calm_spawn)
next
  case (schedule p g)
  then show ?case
    using calm_add_task [of p "StopTask g"] by (simp add: schedule_stop_def add_task_def task_po_def)
next
  case (activate t p timeout)
  let ?q = "p\<lparr>p_tasks := remove1 t (p_tasks p)\<rparr>"
  have "task_po t = None \<or> the (task_po t) < p_next ?q"
    using activate by (cases "task_po t") (auto simp: calm_ok_def pool_ok_def)
  moreover have "map_of (p_procs ?q) g = None \<or> map_of (p_procs ?q) g = Some po"
    if "t = StopWait g po \<or> t = StopKill g po" for g po
    using activate that by (auto simp: calm_ok_def stops_match_def)
  ultimately show ?case
    using calm_run_task [OF calm_remove] activate by (simp add: activate_def)
next
  case (exit po p rc)
  then show ?case
    by (auto simp: calm_ok_def pool_ok_def all_known_def stops_match_def process_exit_def)
next
  case (config p cfg)
  then show ?case
    by (simp add: calm_ok_def pool_ok_def all_known_def stops_match_def replace_worker_config_def)
qed

lemma calm_run: "pool_run no_stop_pending p \<Longrightarrow> calm_ok p"
proof (induction rule: pool_run.induct)
  case (init cfg)
  show ?case
    using pool_ok_init by (simp add: calm_ok_def all_known_def stops_match_def pool_init_def)
next
  case (step p p')
  then show ?case by (blast intro: calm_step)
qed

text \<open>C31. As long as no worker is spawned on a GPU whose previous worker is still being stopped,
  every worker process that is alive is one the pool knows, under some GPU: none can outlive
  \<open>stop\<close> or \<open>stop_all\<close> unseen.\<close>

theorem live_worker_known:
  assumes "pool_run no_stop_pending p" "po < p_next p" "p_exited p po = None"
  shows "\<exists>g \<in> set (running_gpus p). map_of (p_procs p) g = Some po"
proof -
  obtain g where g: "map_of (p_procs p) g = Some po"
    using calm_run [OF assms(1)] assms(2,3) by (auto simp: calm_ok_def all_known_def)
  then have "g \<in> set (running_gpus p)"
    by (force simp: running_gpus_def dest: map_of_SomeD)
  with g show ?thesis by blast
qed

theorem live_worker_known_witness:
  "\<exists>g \<in> set (running_gpus (schedule_stop 7 (spawn_one (pool_init (WorkerCfg []))))).
     map_of (p_procs (schedule_stop 7 (spawn_one (pool_init (WorkerCfg []))))) g = Some 0"
proof -
  have "pool_run no_stop_pending (spawn_one (pool_init (WorkerCfg [])))"
    unfolding spawn_one_def
    by (rule pool_run.step [OF pool_run.init pool_step.spawn])
      (simp add: no_stop_pending_def pool_init_def)
  then have "pool_run no_stop_pending (schedule_stop 7 (spawn_one (pool_init (WorkerCfg []))))"
    by (rule pool_run.step) (rule pool_step.schedule)
  from live_worker_known [OF this, of 0] show ?thesis
    by (simp add: spawn_one_simps schedule_stop_def)
qed

section \<open>A worker can be forgotten\<close>

definition race :: pool where
  "race =
     (let p = spawn_one (pool_init (WorkerCfg []));
          p = fst (activate False (StopTask 7) (schedule_stop 7 p));
          p = fst (activate False (WatchTask 7 0) (process_exit 0 0 p));
          p = spawn_one p
      in fst (activate False (StopWait 7 0) p))"

text \<open>The condition is needed: \<open>stop\<close> cleans up by GPU, not by process. If the watcher sees
  the old worker exit first and a new one is spawned before the pending \<open>stop\<close> wakes, \<open>stop\<close>
  erases the new worker from the pool while it is alive.\<close>

theorem live_worker_forgotten:
  "\<exists>p. pool_run (\<lambda>_ _. True) p \<and> (\<exists>po < p_next p. p_exited p po = None) \<and> running_gpus p = []"
proof -
  let ?p1 = "spawn_one (pool_init (WorkerCfg []))"
  let ?p2 = "schedule_stop 7 ?p1"
  let ?p3 = "fst (activate False (StopTask 7) ?p2)"
  let ?p4 = "process_exit 0 0 ?p3"
  let ?p5 = "fst (activate False (WatchTask 7 0) ?p4)"
  let ?p6 = "spawn_one ?p5"
  note defs = spawn_one_simps schedule_stop_def activate_def add_task_def process_exit_def
    cleanup_def
  have run: "pool_run (\<lambda>_ _. True) (spawn_one p)" if "pool_run (\<lambda>_ _. True) p" for p
    unfolding spawn_one_def using that by (auto intro: pool_run.step pool_step.spawn)
  have "pool_run (\<lambda>_ _. True) ?p2"
    by (rule pool_run.step [OF run [OF pool_run.init] pool_step.schedule])
  then have "pool_run (\<lambda>_ _. True) ?p3"
    by (rule pool_run.step) (rule pool_step.activate, simp add: defs)
  then have "pool_run (\<lambda>_ _. True) ?p4"
    by (rule pool_run.step) (rule pool_step.exit, simp_all add: defs)
  then have "pool_run (\<lambda>_ _. True) ?p5"
    by (rule pool_run.step) (rule pool_step.activate, simp add: defs)
  then have "pool_run (\<lambda>_ _. True) ?p6"
    by (rule run)
  then have "pool_run (\<lambda>_ _. True) race"
    unfolding race_def Let_def
    by (rule pool_run.step) (rule pool_step.activate, simp add: defs)
  moreover have "p_next race = 2" "p_exited race 1 = None" "running_gpus race = []"
    by (simp_all add: race_def defs running_gpus_def)
  ultimately show ?thesis
    by (intro exI [of _ race] conjI exI [of _ 1]) simp_all
qed

text \<open>A stop that was asked for is reported as an unexpected exit whenever the watcher polls before
  the stop does, since the process is still in the pool then.\<close>

lemma requested_stop_reported:
  assumes "map_of (p_procs p) g = Some po" "p_exited p po = None"
  shows "StopWait g po \<in> set (p_tasks (fst (run_task b (StopTask g) p))) \<and>
    snd (run_task b' (WatchTask g po) (process_exit po rc (fst (run_task b (StopTask g) p)))) = Some (g, rc)"
  using assms by (simp add: add_task_def process_exit_def)

end
