(* ===== verification/History.thy ===== *)
theory History
  imports PyText
begin

text \<open>
  \<open>src/src/ocp/history.py\<close>: the event history, a bounded ring in memory and an append-only
  file that is compacted when it grows past 1.2 times the bound. Recording only enqueues; the
  writer task takes entries off the queue. Each disk write has an outcome, a parameter of the
  step: a failed append may leave anything in the file, a failed compaction leaves it as it was
  (the new file is moved into place only once complete). A line of the file is what
  \<open>json.loads\<close> makes of it.

  The lemmas: the ring is always the most recent entries, whatever the disk does; the file stays
  bounded and a restart reads back the same ring when the disk works; queries select exactly what
  they say.
\<close>

record entry =
  e_ts :: pyfloat
  e_uid :: int
  e_user :: string
  e_cmd :: string
  e_args :: pyval
  e_ok :: bool
  e_error :: pyval
  e_note :: pyval

definition entry_to_dict :: "entry \<Rightarrow> pyval" where
  "entry_to_dict e =
     PDict [(''ts'', PFloat (e_ts e)), (''uid'', PInt (e_uid e)), (''user'', PStr (e_user e)),
            (''cmd'', PStr (e_cmd e)), (''args'', e_args e), (''ok'', PBool (e_ok e)),
            (''error'', e_error e), (''note'', e_note e)]"

definition entry_from_dict :: "formatter \<Rightarrow> pyval \<Rightarrow> entry res" where
  "entry_from_dict F d =
     rbind (rbind (py_item d ''ts'') py_float) (\<lambda>ts.
     rbind (rbind (py_item d ''uid'') py_int) (\<lambda>uid.
     rbind (py_item d ''user'') (\<lambda>user.
     rbind (py_item d ''cmd'') (\<lambda>cmd.
     Inr \<lparr>e_ts = ts, e_uid = uid, e_user = py_str F user, e_cmd = py_str F cmd,
          e_args = or_empty (dict_get d ''args'' PNone),
          e_ok = truthy (dict_get d ''ok'' (PBool True)),
          e_error = dict_get d ''error'' PNone, e_note = dict_get d ''note'' PNone\<rparr>))))"

section \<open>The store\<close>

datatype hline = BlankLine | BadLine | JsonLine pyval

datatype hfile = HNoFile | HOSError | HNotUtf8 | HLines "hline list"

record history_store =
  h_max :: int
  h_ring :: "entry list"
  h_lines :: int
  h_queue :: "entry option list"
  h_file :: hfile

text \<open>A deque with \<open>maxlen\<close> keeps the last \<open>maxlen\<close> elements; \<open>xs[-n:]\<close> the last \<open>n\<close>.\<close>

definition last_n :: "nat \<Rightarrow> 'a list \<Rightarrow> 'a list" where
  "last_n n xs = drop (length xs - n) xs"

text \<open>\<open>deque(maxlen=n)\<close> takes a machine-size integer.\<close>

fun deque_maxlen :: "pyval \<Rightarrow> int res" where
  "deque_maxlen (PInt k) =
     (if k < 0 then Inl ValueError else if 2 ^ 63 \<le> k then Inl OverflowError else Inr k)"
| "deque_maxlen (PBool b) = Inr (if b then 1 else 0)"
| "deque_maxlen _ = Inl TypeError"

definition history_init :: "hfile \<Rightarrow> pyval \<Rightarrow> history_store res" where
  "history_init file max_entries =
     rbind (py_int max_entries) (\<lambda>m. rbind (deque_maxlen (PInt m)) (\<lambda>k.
       Inr \<lparr>h_max = k, h_ring = [], h_lines = 0, h_queue = [], h_file = file\<rparr>))"

definition set_max_entries :: "pyval \<Rightarrow> history_store \<Rightarrow> exn option \<times> history_store" where
  "set_max_entries n s =
     (case py_lt n (PInt 10) of
        Inl e \<Rightarrow> (Some e, s)
      | Inr b \<Rightarrow>
          if b then (Some ValueError, s)
          else (case deque_maxlen n of
                  Inl e \<Rightarrow> (Some e, s)
                | Inr k \<Rightarrow> (None, s\<lparr>h_ring := last_n (nat k) (h_ring s), h_max := k\<rparr>)))"

section \<open>Loading\<close>

fun load_lines :: "formatter \<Rightarrow> hline list \<Rightarrow> entry list res" where
  "load_lines F [] = Inr []"
| "load_lines F (BlankLine # ls) = load_lines F ls"
| "load_lines F (BadLine # ls) = load_lines F ls"
| "load_lines F (JsonLine v # ls) =
     (case entry_from_dict F v of
        Inl e \<Rightarrow> if skippable e then load_lines F ls else Inl e
      | Inr x \<Rightarrow> rbind (load_lines F ls) (\<lambda>xs. Inr (x # xs)))"

definition load_history :: "formatter \<Rightarrow> history_store \<Rightarrow> exn option \<times> history_store" where
  "load_history F s =
     (case h_file s of
        HNoFile \<Rightarrow> (None, s\<lparr>h_file := HLines [], h_lines := 0\<rparr>)
      | HOSError \<Rightarrow> (Some OSError, s)
      | HNotUtf8 \<Rightarrow> (Some UnicodeDecodeError, s)
      | HLines ls \<Rightarrow>
          (case load_lines F ls of
             Inl e \<Rightarrow> (Some e, s)
           | Inr loaded \<Rightarrow>
               let kept = (if int (length loaded) > h_max s then last_n (nat (h_max s)) loaded
                           else loaded)
               in (None, s\<lparr>h_lines := int (length loaded), h_ring := last_n (nat (h_max s)) kept\<rparr>)))"

section \<open>Recording\<close>

definition enqueue :: "entry \<Rightarrow> history_store \<Rightarrow> history_store" where
  "enqueue e s = s\<lparr>h_queue := h_queue s @ [Some e]\<rparr>"

definition record_entry ::
    "real \<Rightarrow> int \<Rightarrow> string \<Rightarrow> string \<Rightarrow> pyval \<Rightarrow> bool \<Rightarrow> pyval \<Rightarrow> pyval \<Rightarrow> history_store \<Rightarrow> history_store"
  where
  "record_entry now uid user cmd args ok error note =
     enqueue \<lparr>e_ts = Fin now, e_uid = uid, e_user = user, e_cmd = cmd, e_args = or_empty args,
              e_ok = ok, e_error = error, e_note = note\<rparr>"

definition stop_signal :: "history_store \<Rightarrow> history_store" where
  "stop_signal s = s\<lparr>h_queue := h_queue s @ [None]\<rparr>"

section \<open>The writer task\<close>

text \<open>Outcomes of one entry's disk writes: \<open>Some f\<close> is a failed append that leaves \<open>f\<close>.\<close>

record write_io =
  w_append :: "hfile option"
  w_compact :: bool

definition file_append :: "hline \<Rightarrow> hfile \<Rightarrow> hfile" where
  "file_append l f =
     (case f of HNoFile \<Rightarrow> HLines [l] | HLines ls \<Rightarrow> HLines (ls @ [l]) | _ \<Rightarrow> f)"

definition append_to_disk :: "hfile option \<Rightarrow> entry \<Rightarrow> history_store \<Rightarrow> history_store" where
  "append_to_disk failed e s =
     (case failed of
        Some f \<Rightarrow> s\<lparr>h_file := f\<rparr>
      | None \<Rightarrow> s\<lparr>h_file := file_append (JsonLine (entry_to_dict e)) (h_file s),
                 h_lines := h_lines s + 1\<rparr>)"

definition compact :: "bool \<Rightarrow> history_store \<Rightarrow> history_store" where
  "compact ok s =
     (if ok then s\<lparr>h_file := HLines (map (JsonLine \<circ> entry_to_dict) (h_ring s)),
                   h_lines := int (length (h_ring s))\<rparr>
      else s)"

definition compact_limit :: "history_store \<Rightarrow> int" where
  "compact_limit s = 6 * h_max s div 5"

text \<open>
  One entry. In the main loop (\<open>looping\<close>) an overgrown file is compacted; while draining after
  the stop signal it is not.
\<close>

definition write_entry :: "bool \<Rightarrow> write_io \<Rightarrow> entry \<Rightarrow> history_store \<Rightarrow> history_store" where
  "write_entry looping io e s =
     (let s1 = s\<lparr>h_ring := last_n (nat (h_max s)) (h_ring s @ [e])\<rparr>;
          s2 = append_to_disk (w_append io) e s1
      in if looping \<and> compact_limit s2 < h_lines s2 then compact (w_compact io) s2 else s2)"

fun writer_run ::
    "bool \<Rightarrow> (nat \<Rightarrow> write_io) \<Rightarrow> entry option list \<Rightarrow> history_store \<Rightarrow> history_store" where
  "writer_run looping io [] s = s"
| "writer_run looping io (None # q) s = writer_run False (io \<circ> Suc) q s"
| "writer_run looping io (Some e # q) s =
     writer_run looping (io \<circ> Suc) q (write_entry looping (io 0) e s)"

definition run_writer :: "(nat \<Rightarrow> write_io) \<Rightarrow> history_store \<Rightarrow> history_store" where
  "run_writer io s = writer_run True io (h_queue s) (s\<lparr>h_queue := []\<rparr>)"

section \<open>Queries\<close>

fun time_since :: "real \<Rightarrow> pyfloat \<Rightarrow> pyfloat" where
  "time_since now (Fin d) = Fin (now - d)"
| "time_since now PosInf = NegInf"
| "time_since now NegInf = PosInf"
| "time_since now NaN = NaN"

definition query ::
    "real \<Rightarrow> int option \<Rightarrow> pyfloat option \<Rightarrow> string option \<Rightarrow> int option \<Rightarrow> history_store \<Rightarrow> entry list"
  where
  "query now n since user uid s =
     (let items = h_ring s;
          items = (case since of None \<Rightarrow> items
                   | Some d \<Rightarrow> filter (\<lambda>e. time_since now d \<le> e_ts e) items);
          items = (case user of None \<Rightarrow> items | Some u \<Rightarrow> filter (\<lambda>e. e_user e = u) items);
          items = (case uid of None \<Rightarrow> items | Some i \<Rightarrow> filter (\<lambda>e. e_uid e = i) items)
      in (case n of None \<Rightarrow> items | Some k \<Rightarrow> if 0 < k then last_n (nat k) items else items))"

definition format_relative :: "pyfloat \<Rightarrow> real \<Rightarrow> string res" where
  "format_relative ts now =
     rbind (int_of_float (case ts of Fin t \<Rightarrow> Fin (now - t) | f \<Rightarrow> fneg f)) (\<lambda>delta.
       Inr (if delta < 5 then ''now''
            else if delta < 60 then dec_int delta @ ''s ago''
            else if delta < 3600 then dec_int (delta div 60) @ ''m ago''
            else if delta < 86400 then dec_int (delta div 3600) @ ''h ago''
            else dec_int (delta div 86400) @ ''d ago''))"

section \<open>The most recent entries\<close>

lemma last_n_all: "length xs \<le> n \<Longrightarrow> last_n n xs = xs"
  by (simp add: last_n_def)

lemma length_last_n [simp]: "length (last_n n xs) = min n (length xs)"
  by (simp add: last_n_def)

lemma last_n_append: "last_n n (last_n n xs @ ys) = last_n n (xs @ ys)"
proof (cases "length xs \<le> n")
  case True
  then show ?thesis by (simp add: last_n_all)
next
  case False
  then obtain k where k: "length xs = k + n" using le_Suc_ex by (metis add.commute nat_le_linear)
  then show ?thesis by (simp add: last_n_def add.commute)
qed

lemma last_n_idem [simp]: "last_n n (last_n n xs) = last_n n xs"
  by (simp add: last_n_def)

lemma set_last_n: "set (last_n n xs) \<subseteq> set xs"
  by (simp add: last_n_def set_drop_subset)

text \<open>
  The contract of a bounded log: pushing an item leaves the last \<open>cap\<close> of the contents
  followed by the item. What a run of pushes leaves follows for every such log.
\<close>

locale bounded_log =
  fixes contents :: "'s \<Rightarrow> 'a list"
    and cap :: "'s \<Rightarrow> nat"
    and item :: "'x \<Rightarrow> 'a"
    and push :: "'x \<Rightarrow> 's \<Rightarrow> 's"
  assumes push_contents: "contents (push x s) = last_n (cap s) (contents s @ [item x])"
    and push_cap: "cap (push x s) = cap s"
begin

lemma fold_cap: "cap (fold push xs s) = cap s"
  by (induction xs arbitrary: s) (simp_all add: push_cap)

lemma fold_contents:
  "length (contents s) \<le> cap s \<Longrightarrow>
   contents (fold push xs s) = last_n (cap s) (contents s @ map item xs)"
proof (induction xs arbitrary: s)
  case Nil
  then show ?case by (simp add: last_n_all)
next
  case (Cons x xs)
  have "contents (fold push xs (push x s)) =
      last_n (cap s) (last_n (cap s) (contents s @ [item x]) @ map item xs)"
    using Cons.IH [of "push x s"] by (simp add: push_contents push_cap)
  then show ?case by (simp add: last_n_append)
qed

end

lemma append_to_disk_ring [simp]:
  "h_ring (append_to_disk f e s) = h_ring s" "h_max (append_to_disk f e s) = h_max s"
  "h_queue (append_to_disk f e s) = h_queue s"
  by (simp_all add: append_to_disk_def split: option.splits)

lemma compact_ring [simp]:
  "h_ring (compact ok s) = h_ring s" "h_max (compact ok s) = h_max s"
  "h_queue (compact ok s) = h_queue s"
  by (simp_all add: compact_def)

lemma write_entry_ring [simp]:
  "h_ring (write_entry l io e s) = last_n (nat (h_max s)) (h_ring s @ [e])"
  "h_max (write_entry l io e s) = h_max s"
  "h_queue (write_entry l io e s) = h_queue s"
  by (simp_all add: write_entry_def Let_def)

definition ring_cap :: "history_store \<Rightarrow> nat" where
  "ring_cap s = nat (h_max s)"

definition push_entry :: "(bool \<times> write_io) \<times> entry \<Rightarrow> history_store \<Rightarrow> history_store" where
  "push_entry x s = write_entry (fst (fst x)) (snd (fst x)) (snd x) s"

lemma push_entry_apply: "push_entry ((l, io), e) s = write_entry l io e s"
  by (simp add: push_entry_def)

interpretation ring: bounded_log h_ring ring_cap snd push_entry
  by unfold_locales (simp_all add: push_entry_def ring_cap_def)

fun queued :: "entry option list \<Rightarrow> entry list" where
  "queued [] = []"
| "queued (None # q) = queued q"
| "queued (Some e # q) = e # queued q"

lemma writer_run_fold:
  "\<exists>ctx. length ctx = length (queued q) \<and> writer_run l io q s = fold push_entry (zip ctx (queued q)) s"
proof (induction l io q s rule: writer_run.induct)
  case (1 l io s)
  then show ?case by simp
next
  case (2 l io q s)
  then show ?case by (simp only: writer_run.simps queued.simps)
next
  case (3 l io e q s)
  then obtain ctx where "length ctx = length (queued q)"
    "writer_run l (io \<circ> Suc) q (write_entry l (io 0) e s) =
     fold push_entry (zip ctx (queued q)) (write_entry l (io 0) e s)" by blast
  then show ?case by (intro exI [of _ "(l, io 0) # ctx"]) (simp add: push_entry_apply)
qed

definition ring_ok :: "history_store \<Rightarrow> bool" where
  "ring_ok s \<longleftrightarrow> 0 \<le> h_max s \<and> int (length (h_ring s)) \<le> h_max s"

lemma writer_recent:
  assumes "ring_ok s"
  shows "h_ring (run_writer io s) = last_n (nat (h_max s)) (h_ring s @ queued (h_queue s)) \<and>
    h_queue (run_writer io s) = [] \<and> ring_ok (run_writer io s)"
proof -
  let ?s = "s\<lparr>h_queue := []\<rparr>"
  obtain ctx where ctx: "length ctx = length (queued (h_queue s))"
    "run_writer io s = fold push_entry (zip ctx (queued (h_queue s))) ?s"
    using writer_run_fold [of "h_queue s" True io ?s] by (auto simp: run_writer_def)
  have "length (h_ring ?s) \<le> ring_cap ?s" using assms by (auto simp: ring_ok_def ring_cap_def)
  from ring.fold_contents [OF this, of "zip ctx (queued (h_queue s))"] ctx
  have ring: "h_ring (run_writer io s) = last_n (nat (h_max s)) (h_ring s @ queued (h_queue s))"
    by (simp add: ring_cap_def)
  have "h_queue (fold push_entry xs t) = h_queue t \<and> h_max (fold push_entry xs t) = h_max t" for xs t
    by (induction xs arbitrary: t) (simp_all add: push_entry_def)
  then have "h_queue (run_writer io s) = []" "h_max (run_writer io s) = h_max s"
    by (simp_all add: ctx(2))
  with ring assms show ?thesis by (auto simp: ring_ok_def)
qed

text \<open>C32. Whatever the outcome of every disk write, and wherever a stop signal stands in the
  queue, once the writer has worked the queue off the ring holds the last \<open>max_entries\<close> of
  what it held followed by everything recorded, in order: a disk failure loses no event from
  memory.\<close>

theorem writer_keeps_recent:
  assumes "ring_ok s"
  shows "h_ring (run_writer io s) = last_n (nat (h_max s)) (h_ring s @ queued (h_queue s)) \<and>
    h_queue (run_writer io s) = [] \<and> ring_ok (run_writer io s)"
  using assms by (rule writer_recent)

theorem writer_keeps_recent_witness:
  "h_ring (run_writer (\<lambda>i. \<lparr>w_append = Some HOSError, w_compact = False\<rparr>)
     (stop_signal (record_entry 5 7 ''u'' ''pause'' PNone True PNone PNone
        \<lparr>h_max = 10, h_ring = [], h_lines = 0, h_queue = [], h_file = HOSError\<rparr>))) =
   [\<lparr>e_ts = Fin 5, e_uid = 7, e_user = ''u'', e_cmd = ''pause'', e_args = PDict [], e_ok = True,
     e_error = PNone, e_note = PNone\<rparr>]"
  using writer_keeps_recent [of "stop_signal (record_entry 5 7 ''u'' ''pause'' PNone True PNone PNone
      \<lparr>h_max = 10, h_ring = [], h_lines = 0, h_queue = [], h_file = HOSError\<rparr>)"
      "\<lambda>i. \<lparr>w_append = Some HOSError, w_compact = False\<rparr>"]
  by (simp add: ring_ok_def stop_signal_def record_entry_def enqueue_def or_empty_def last_n_def)

section \<open>The file\<close>

definition entry_ok :: "entry \<Rightarrow> bool" where
  "entry_ok e \<longleftrightarrow> or_empty (e_args e) = e_args e"

definition file_of :: "entry list \<Rightarrow> hfile" where
  "file_of es = HLines (map (JsonLine \<circ> entry_to_dict) es)"

text \<open>The file holds entries whose last \<open>max_entries\<close> are the ring, and the count is right.\<close>

definition synced :: "history_store \<Rightarrow> bool" where
  "synced s \<longleftrightarrow> 0 \<le> h_max s \<and>
     (\<exists>es. h_file s = file_of es \<and> h_lines s = int (length es) \<and>
        h_ring s = last_n (nat (h_max s)) es \<and> (\<forall>e \<in> set es. entry_ok e))"

definition disk_works :: "(nat \<Rightarrow> write_io) \<Rightarrow> bool" where
  "disk_works io \<longleftrightarrow> (\<forall>i. w_append (io i) = None \<and> w_compact (io i))"

lemma disk_works_Suc: "disk_works io \<Longrightarrow> disk_works (io \<circ> Suc)"
  by (simp add: disk_works_def)

lemma or_empty_idem [simp]: "or_empty (or_empty v) = or_empty v"
  by (simp add: or_empty_def)

lemma entry_from_to_dict: "entry_ok e \<Longrightarrow> entry_from_dict F (entry_to_dict e) = Inr e"
  by (cases e) (simp add: entry_from_dict_def entry_to_dict_def py_item_def py_str_def
      dict_get_def entry_ok_def)

lemma load_lines_docs:
  "\<forall>e \<in> set es. entry_ok e \<Longrightarrow> load_lines F (map (JsonLine \<circ> entry_to_dict) es) = Inr es"
  by (induction es) (simp_all add: entry_from_to_dict)

lemma write_entry_synced:
  assumes "synced s" "entry_ok e" "w_append io = None" "w_compact io"
  shows "synced (write_entry l io e s)"
proof -
  obtain es where es: "h_file s = file_of es" "h_lines s = int (length es)"
      "h_ring s = last_n (nat (h_max s)) es" "\<forall>e \<in> set es. entry_ok e" "0 \<le> h_max s"
    using assms(1) by (auto simp: synced_def)
  let ?s2 = "append_to_disk (w_append io) e
      (s\<lparr>h_ring := last_n (nat (h_max s)) (h_ring s @ [e])\<rparr>)"
  have ring: "last_n (nat (h_max s)) (h_ring s @ [e]) = last_n (nat (h_max s)) (es @ [e])"
    by (simp add: es(3) last_n_append)
  have s2: "synced ?s2"
    using es assms ring unfolding synced_def
    by (intro conjI exI [of _ "es @ [e]"])
      (auto simp: append_to_disk_def file_of_def file_append_def)
  have "synced (compact True ?s2)"
    using s2 set_last_n unfolding synced_def
    by (intro conjI exI [of _ "h_ring ?s2"])
      (fastforce simp: compact_def file_of_def)+
  with s2 assms(4) show ?thesis by (simp add: write_entry_def Let_def)
qed

lemma writer_run_synced:
  "synced s \<Longrightarrow> disk_works io \<Longrightarrow> \<forall>e \<in> set (queued q). entry_ok e \<Longrightarrow> synced (writer_run l io q s)"
proof (induction l io q s rule: writer_run.induct)
  case (3 l io e q s)
  then have "synced (write_entry l (io 0) e s)"
    by (intro write_entry_synced) (auto simp: disk_works_def)
  with 3 show ?case by (simp add: disk_works_def comp_def)
next
  case (2 l io q s)
  then show ?case using disk_works_Suc by (simp only: writer_run.simps queued.simps)
qed simp

lemma write_entry_limit:
  assumes "0 \<le> h_max s" "w_append io = None" "w_compact io"
  shows "h_lines (write_entry True io e s) \<le> compact_limit s"
proof -
  have "int (min (nat (h_max s)) k) \<le> 6 * h_max s div 5" for k using assms(1) by linarith
  with assms show ?thesis
    by (auto simp: write_entry_def Let_def compact_def compact_limit_def)
qed

text \<open>
  The file may hold more lines than the writer counts: lines that were malformed or blank when the
  file was loaded. There are at most \<open>x\<close> of them.
\<close>

definition counted :: "int \<Rightarrow> history_store \<Rightarrow> bool" where
  "counted x s \<longleftrightarrow> 0 \<le> h_max s \<and>
     (\<exists>ls. h_file s = HLines ls \<and> h_lines s \<le> int (length ls) \<and> int (length ls) - h_lines s \<le> x)"

lemma load_lines_count: "load_lines F ls = Inr xs \<Longrightarrow> length xs \<le> length ls"
  by (induction F ls arbitrary: xs rule: load_lines.induct)
    (fastforce simp: res_simps split: sum.splits if_splits)+

lemma load_counted:
  assumes "load_history F s = (None, s')"
  shows "\<exists>ls. h_file s' = HLines ls \<and> h_lines s' \<le> int (length ls)"
  using assms load_lines_count
  by (fastforce simp: load_history_def Let_def split: hfile.splits sum.splits)

lemma write_entry_counted:
  assumes "counted x s" "0 \<le> x" "w_append io = None" "w_compact io"
  shows "counted x (write_entry l io e s)"
  using assms
  by (auto simp: counted_def write_entry_def append_to_disk_def file_append_def compact_def Let_def)

lemma writer_run_append:
  "writer_run True io (map Some es @ q) s =
     writer_run True (\<lambda>i. io (i + length es)) q (writer_run True io (map Some es) s)"
  by (induction es arbitrary: io s) (simp_all add: comp_def)

lemma writer_run_counted:
  assumes "counted x s" "0 \<le> x" "disk_works io"
  shows "counted x (writer_run True io (map Some es) s) \<and>
    h_max (writer_run True io (map Some es) s) = h_max s \<and>
    (es \<noteq> [] \<longrightarrow> h_lines (writer_run True io (map Some es) s) \<le> compact_limit s)"
  using assms
proof (induction es arbitrary: io s)
  case (Cons e es)
  let ?s = "write_entry True (io 0) e s"
  have io: "w_append (io 0) = None" "w_compact (io 0)" "disk_works (io \<circ> Suc)"
    using Cons.prems(3) disk_works_Suc by (simp_all add: disk_works_def)
  have "counted x ?s" by (rule write_entry_counted [OF Cons.prems(1,2) io(1,2)])
  note IH = Cons.IH [OF this Cons.prems(2) io(3)]
  have "0 \<le> h_max s" using Cons.prems(1) by (simp add: counted_def)
  then have "h_lines ?s \<le> compact_limit s" by (rule write_entry_limit [OF _ io(1,2)])
  with IH show ?case by (cases "es = []") (simp_all add: compact_limit_def comp_def)
qed simp

lemma writer_drain_counted:
  assumes "counted x s" "0 \<le> x" "disk_works io"
  shows "counted x (writer_run False io q s) \<and>
    h_lines (writer_run False io q s) = h_lines s + int (length (queued q))"
  using assms
proof (induction q arbitrary: io s)
  case (Cons o1 q)
  have io: "w_append (io 0) = None" "w_compact (io 0)" "disk_works (io \<circ> Suc)"
    using Cons.prems(3) disk_works_Suc by (simp_all add: disk_works_def)
  show ?case
  proof (cases o1)
    case None
    with Cons.IH [OF Cons.prems(1,2) io(3)] show ?thesis by (simp add: comp_def)
  next
    case (Some e)
    let ?s = "write_entry False (io 0) e s"
    have "counted x ?s" by (rule write_entry_counted [OF Cons.prems(1,2) io(1,2)])
    moreover have "h_lines ?s = h_lines s + 1"
      using io(1) by (simp add: write_entry_def append_to_disk_def)
    ultimately show ?thesis using Cons.IH [OF _ Cons.prems(2) io(3), of ?s] Some by (simp add: comp_def)
  qed
qed simp

text \<open>C33. With a working disk and an unchanged \<open>max_entries\<close> the file stays bounded. The writer counts at
  most the lines the file has, as \<open>load\<close> leaves it. After each entry the writer takes off the queue
  before a stop signal, the file has at most 1.2 times \<open>max_entries\<close> lines (rounded down), and as many
  more as it had lines that the writer does not count, which are those that were malformed or blank
  when it was loaded; between an append and the compaction it can have one line more. What is still
  queued behind a stop signal is written as well, a line for each entry, without a compaction.\<close>

theorem history_file_bounded:
  assumes "0 \<le> h_max s" "h_file s = HLines ls" "h_lines s \<le> int (length ls)" "disk_works io"
    and "h_queue s = map Some es @ tail" "tail = [] \<or> hd tail = None"
  shows "(\<forall>k \<le> length es. \<exists>ls'.
      h_file (writer_run True io (map Some (take k es)) (s\<lparr>h_queue := []\<rparr>)) = HLines ls' \<and>
      int (length ls') \<le> (if k = 0 then int (length ls)
        else 6 * h_max s div 5 + (int (length ls) - h_lines s)) \<and>
      (\<forall>e. \<exists>l. h_file (append_to_disk None e
         (writer_run True io (map Some (take k es)) (s\<lparr>h_queue := []\<rparr>))) = HLines (ls' @ [l]))) \<and>
    (\<exists>ls'. h_file (run_writer io s) = HLines ls' \<and>
      int (length ls') \<le> (if es = [] then int (length ls)
        else 6 * h_max s div 5 + (int (length ls) - h_lines s)) + int (length (queued tail)))"
proof -
  let ?s = "s\<lparr>h_queue := []\<rparr>" and ?x = "int (length ls) - h_lines s"
  have s: "counted ?x ?s" "0 \<le> ?x" using assms(1-3) by (auto simp: counted_def)
  have limit: "compact_limit ?s = 6 * h_max s div 5" by (simp add: compact_limit_def)
  have size: "\<exists>ls'. h_file t = HLines ls' \<and> int (length ls') \<le> n + ?x"
    if "counted ?x t" "h_lines t \<le> n" for t n
    using that by (force simp: counted_def)
  have appended: "h_file t = HLines ls' \<Longrightarrow> \<exists>l. h_file (append_to_disk None e t) = HLines (ls' @ [l])" for t ls' e
    by (simp add: append_to_disk_def file_append_def)
  let ?t = "\<lambda>es. writer_run True io (map Some es) ?s"
  have prefix: "\<exists>ls'. h_file (?t xs) = HLines ls' \<and>
      int (length ls') \<le> (if xs = [] then int (length ls) else 6 * h_max s div 5 + ?x)" for xs
    using writer_run_counted [OF s assms(4), of xs] size [of "?t xs" "6 * h_max s div 5"] assms(2) limit
    by (cases "xs = []") auto
  let ?io = "\<lambda>i. io (i + length es)"
  have io: "disk_works ?io" "disk_works (?io \<circ> Suc)" using assms(4) by (simp_all add: disk_works_def)
  have run: "run_writer io s = writer_run True ?io tail (?t es)"
    by (simp add: run_writer_def assms(5) writer_run_append)
  have final: "\<exists>ls'. h_file (run_writer io s) = HLines ls' \<and>
      int (length ls') \<le> (if es = [] then int (length ls) else 6 * h_max s div 5 + ?x) + int (length (queued tail))"
  proof (cases tail)
    case Nil
    with run prefix [of es] show ?thesis by simp
  next
    case (Cons o1 q)
    then have tail: "tail = None # q" using assms(6) by simp
    have "counted ?x (?t es)" using writer_run_counted [OF s assms(4), of es] by blast
    note drain = writer_drain_counted [OF this s(2) io(2), of q]
    have "h_lines (?t es) + ?x \<le> (if es = [] then int (length ls) else 6 * h_max s div 5 + ?x)"
      using writer_run_counted [OF s assms(4), of es] limit by simp
    with drain size [of "writer_run False (?io \<circ> Suc) q (?t es)" "h_lines (?t es) + int (length (queued q))"]
    show ?thesis using run tail by (auto simp del: writer_run.simps(3))
  qed
  have each: "\<exists>ls'. h_file (?t (take k es)) = HLines ls' \<and>
      int (length ls') \<le> (if k = 0 then int (length ls) else 6 * h_max s div 5 + ?x) \<and>
      (\<forall>e. \<exists>l. h_file (append_to_disk None e (?t (take k es))) = HLines (ls' @ [l]))"
    if "k \<le> length es" for k
    using prefix [of "take k es"] appended that by (cases "k = 0"; cases "es = []") auto
  then show ?thesis using final by blast
qed

definition history_restarted :: "history_store \<Rightarrow> history_store" where
  "history_restarted s = s\<lparr>h_ring := [], h_lines := 0, h_queue := []\<rparr>"

lemma load_synced:
  assumes "synced s"
  shows "load_history F (history_restarted s) =
    (None, (history_restarted s)\<lparr>h_lines := h_lines s, h_ring := h_ring s\<rparr>)"
  using assms load_lines_docs
  by (auto simp: synced_def load_history_def history_restarted_def file_of_def Let_def last_n_all)

text \<open>A restart loses no recent history: after the writer has worked the queue off on a
  working disk, a new store that loads the file has exactly the ring the old one had.\<close>

theorem history_reload:
  assumes "synced s" "disk_works io" "\<forall>e \<in> set (queued (h_queue s)). entry_ok e"
  shows "fst (load_history F (history_restarted (run_writer io s))) = None \<and>
    h_ring (snd (load_history F (history_restarted (run_writer io s)))) =
      last_n (nat (h_max s)) (h_ring s @ queued (h_queue s))"
proof -
  let ?s = "s\<lparr>h_queue := []\<rparr>"
  have "synced ?s" using assms(1) by (simp add: synced_def)
  then have "synced (run_writer io s)"
    using writer_run_synced assms(2,3) by (simp add: run_writer_def)
  moreover have "ring_ok s" using assms(1) by (auto simp: synced_def ring_ok_def)
  then have "h_ring (run_writer io s) = last_n (nat (h_max s)) (h_ring s @ queued (h_queue s))"
    using writer_run_fold [of "h_queue s" True io ?s] ring.fold_contents [of ?s]
    by (auto simp: run_writer_def ring_ok_def ring_cap_def)
  ultimately show ?thesis by (simp add: load_synced)
qed

definition fresh_history :: history_store where
  "fresh_history = \<lparr>h_max = 10, h_ring = [], h_lines = 0, h_queue = [], h_file = HLines []\<rparr>"

lemma fresh_synced: "synced fresh_history"
  by (simp add: synced_def fresh_history_def file_of_def last_n_def)

definition working_disk :: "nat \<Rightarrow> write_io" where
  "working_disk i = \<lparr>w_append = None, w_compact = True\<rparr>"

lemma working_disk_works: "disk_works working_disk"
  by (simp add: disk_works_def working_disk_def)

definition sample_entry :: entry where
  "sample_entry = \<lparr>e_ts = Fin 5, e_uid = 7, e_user = ''u'', e_cmd = ''pause'', e_args = PDict [],
     e_ok = True, e_error = PNone, e_note = PNone\<rparr>"

theorem history_file_bounded_witness:
  "\<exists>ls. h_file (run_writer working_disk
       (fresh_history\<lparr>h_file := HLines [BadLine], h_queue := [Some sample_entry, None, Some sample_entry]\<rparr>)) =
     HLines ls \<and> length ls \<le> 14"
proof -
  let ?s = "fresh_history\<lparr>h_file := HLines [BadLine], h_queue := [Some sample_entry, None, Some sample_entry]\<rparr>"
  have "h_queue ?s = map Some [sample_entry] @ [None, Some sample_entry]" by simp
  from history_file_bounded [OF _ _ _ working_disk_works this] show ?thesis
    by (auto simp: fresh_history_def)
qed

theorem history_reload_witness:
  "h_ring (snd (load_history plain_fmt (history_restarted
     (run_writer working_disk (fresh_history\<lparr>h_queue := [Some sample_entry, None]\<rparr>))))) =
   [sample_entry]"
  using history_reload [of "fresh_history\<lparr>h_queue := [Some sample_entry, None]\<rparr>" working_disk plain_fmt]
    fresh_synced working_disk_works
  by (simp add: synced_def fresh_history_def sample_entry_def entry_ok_def or_empty_def last_n_def)

section \<open>Queries\<close>

definition selected ::
    "real \<Rightarrow> pyfloat option \<Rightarrow> string option \<Rightarrow> int option \<Rightarrow> entry \<Rightarrow> bool" where
  "selected now since user uid e \<longleftrightarrow>
     (\<forall>d. since = Some d \<longrightarrow> time_since now d \<le> e_ts e) \<and>
     (\<forall>u. user = Some u \<longrightarrow> e_user e = u) \<and> (\<forall>i. uid = Some i \<longrightarrow> e_uid e = i)"

text \<open>A query returns, in recorded order, every entry of the ring that passes all the given
  filters, or the last \<open>n\<close> of those when a positive \<open>n\<close> is given.\<close>

theorem query_selects:
  "query now n since user uid s =
   (let hits = filter (selected now since user uid) (h_ring s) in
    case n of None \<Rightarrow> hits | Some k \<Rightarrow> if 0 < k then last_n (nat k) hits else hits)"
proof -
  have hits: "(let items = h_ring s;
          items = (case since of None \<Rightarrow> items
                   | Some d \<Rightarrow> filter (\<lambda>e. time_since now d \<le> e_ts e) items);
          items = (case user of None \<Rightarrow> items | Some u \<Rightarrow> filter (\<lambda>e. e_user e = u) items)
      in (case uid of None \<Rightarrow> items | Some i \<Rightarrow> filter (\<lambda>e. e_uid e = i) items)) =
      filter (selected now since user uid) (h_ring s)"
    by (cases since; cases user; cases uid) (auto simp: selected_def intro!: filter_cong)
  then show ?thesis
    by (cases n) (simp_all add: query_def Let_def)
qed

end
