(* ===== verification/Policy.thy ===== *)
theory Policy
  imports Controller
begin

text \<open>
  What the controller's policy (\<open>Controller\<close>) guarantees. A tick is a loop whose body touches one
  GPU: \<open>device_loop\<close> states that contract and derives what the loop does to each GPU, and the
  policy's theorems follow from what one body does.
\<close>

section \<open>Loops over devices\<close>

lemma for_each_append:
  "for_each body i (xs @ ys) s =
   (case for_each body i xs s of
      (Some e, s') \<Rightarrow> (Some e, s')
    | (None, s') \<Rightarrow> for_each body (i + length xs) ys s')"
  by (induction xs arbitrary: i s) (auto split: prod.splits option.splits)

text \<open>
  A body that touches only the part of the state that belongs to its own device (\<open>view\<close>) and
  leaves a common part (\<open>shared\<close>) alone.
\<close>

locale device_loop =
  fixes body :: "nat \<Rightarrow> 'a \<Rightarrow> 's \<Rightarrow> exn option \<times> 's"
    and view :: "'s \<Rightarrow> 'a \<Rightarrow> 'v"
    and shared :: "'s \<Rightarrow> 'c"
  assumes frame: "y \<noteq> x \<Longrightarrow> view (snd (body i x s)) y = view s y"
    and keeps: "shared (snd (body i x s)) = shared s"
begin

lemma loop_shared: "shared (snd (for_each body i xs s)) = shared s"
proof (induction xs arbitrary: i s)
  case (Cons x xs)
  then show ?case
    using keeps [of i x s] by (auto split: prod.splits option.splits)
qed simp

lemma loop_frame: "y \<notin> set xs \<Longrightarrow> view (snd (for_each body i xs s)) y = view s y"
proof (induction xs arbitrary: i s)
  case (Cons x xs)
  then show ?case
    using frame [of y x i s] by (auto split: prod.splits option.splits)
qed simp

lemma loop_invariant:
  assumes "\<And>i s. C (shared s) \<Longrightarrow> P (view s y) \<Longrightarrow> P (view (snd (body i y s)) y)"
  shows "C (shared s) \<Longrightarrow> P (view s y) \<Longrightarrow> P (view (snd (for_each body i xs s)) y)"
proof (induction xs arbitrary: i s)
  case (Cons x xs)
  have P: "P (view (snd (body i x s)) y)"
    using Cons.prems assms frame [of y x i s] by (cases "y = x") auto
  have C: "C (shared (snd (body i x s)))"
    using Cons.prems keeps by simp
  show ?case
    using P Cons.IH [OF C P] by (auto split: prod.splits option.splits)
qed simp

lemma loop_errors:
  assumes keep: "\<And>i x s. C (shared s) \<Longrightarrow> P (view s x) \<Longrightarrow> P (view (snd (body i x s)) x)"
    and err: "\<And>i x s e. C (shared s) \<Longrightarrow> P (view s x) \<Longrightarrow> fst (body i x s) = Some e \<Longrightarrow> E e"
  shows "C (shared s) \<Longrightarrow> \<forall>y. P (view s y) \<Longrightarrow> fst (for_each body i xs s) = Some e \<Longrightarrow> E e"
proof (induction xs arbitrary: i s)
  case (Cons x xs)
  have C: "C (shared (snd (body i x s)))" using Cons.prems keeps by simp
  have P: "\<forall>y. P (view (snd (body i x s)) y)"
    using Cons.prems keep frame [of _ x i s] by metis
  show ?case
    using Cons.prems err [of s x i e] Cons.IH [OF C P]
    by (auto split: prod.splits option.splits)
qed simp

text \<open>A device that occurs once: the loop stops before it, or does to it what its body does.\<close>

lemma loop_at:
  assumes "x \<notin> set xs" "x \<notin> set ys"
  shows "(fst (for_each body i xs s) \<noteq> None \<and>
      view (snd (for_each body i (xs @ x # ys) s)) x = view s x \<and>
      fst (for_each body i (xs @ x # ys) s) \<noteq> None) \<or>
    (\<exists>s'. for_each body i xs s = (None, s') \<and> view s' x = view s x \<and> shared s' = shared s \<and>
      view (snd (for_each body i (xs @ x # ys) s)) x =
        view (snd (body (i + length xs) x s')) x \<and>
      (fst (for_each body i (xs @ x # ys) s) = None \<longrightarrow> fst (body (i + length xs) x s') = None))"
proof -
  obtain r s' where pre: "for_each body i xs s = (r, s')" by fastforce
  have same: "view s' x = view s x" "shared s' = shared s"
    using loop_frame [OF assms(1), of i s] loop_shared [of i xs s] pre by simp_all
  obtain r' t where step: "body (i + length xs) x s' = (r', t)" by fastforce
  show ?thesis
  proof (cases r)
    case None
    with pre step same loop_frame [OF assms(2), of "Suc (i + length xs)" t] show ?thesis
      by (auto simp: for_each_append split: option.splits)
  next
    case (Some e)
    with pre same show ?thesis by (simp add: for_each_append)
  qed
qed

end

section \<open>What belongs to a GPU\<close>

record device_view =
  v_state :: "device_state option"
  v_proc :: "nat option"
  v_meta :: "worker_proc option"
  v_stopping :: bool

definition dev_view :: "system \<Rightarrow> int \<Rightarrow> device_view" where
  "dev_view s g =
     \<lparr>v_state = map_of (k_states (y_ctl s)) g, v_proc = map_of (p_procs (y_pool s)) g,
      v_meta = map_of (p_meta (y_pool s)) g,
      v_stopping = (StopTask g \<in> set (p_tasks (y_pool s)))\<rparr>"

definition tick_shared ::
    "system \<Rightarrow> lease_store \<times> config \<times> int list \<times> real option \<times> worker_cfg" where
  "tick_shared s =
     (y_leases s, k_cfg (y_ctl s), k_watched (y_ctl s), k_last_tick_at (y_ctl s), p_cfg (y_pool s))"

lemma view_simps [simp]:
  "dev_view (put_state g st s) y =
     (if y = g then (dev_view s y)\<lparr>v_state := Some st\<rparr> else dev_view s y)"
  "dev_view (auto_record now cmd args ok error note s) y = dev_view s y"
  "dev_view (ctl_schedule_stop g s) y =
     (if y = g then (dev_view s y)\<lparr>v_stopping := True\<rparr> else dev_view s y)"
  by (simp_all add: dev_view_def put_state_def auto_record_def ctl_schedule_stop_def
      schedule_stop_def)

lemma shared_simps [simp]:
  "tick_shared (put_state g st s) = tick_shared s"
  "tick_shared (auto_record now cmd args ok error note s) = tick_shared s"
  "tick_shared (ctl_schedule_stop g s) = tick_shared s"
  by (simp_all add: tick_shared_def put_state_def auto_record_def ctl_schedule_stop_def
      schedule_stop_def)

lemma component_simps [simp]:
  "y_pool (put_state g st s) = y_pool s" "y_leases (put_state g st s) = y_leases s"
  "k_cfg (y_ctl (put_state g st s)) = k_cfg (y_ctl s)"
  "y_pool (auto_record now cmd args ok error note s) = y_pool s"
  "y_leases (auto_record now cmd args ok error note s) = y_leases s"
  "y_ctl (auto_record now cmd args ok error note s) = y_ctl s"
  "y_leases (ctl_schedule_stop g s) = y_leases s" "y_ctl (ctl_schedule_stop g s) = y_ctl s"
  "y_hist (put_state g st s) = y_hist s" "y_hist (ctl_schedule_stop g s) = y_hist s"
  by (simp_all add: put_state_def auto_record_def ctl_schedule_stop_def)

lemma spawn_view:
  fixes F exe launch now g p s
  defines "p' \<equiv> snd (spawn F exe launch now g p)"
  assumes "y_pool s = p"
  shows "y \<noteq> g \<Longrightarrow> dev_view (s\<lparr>y_pool := p'\<rparr>) y = dev_view s y"
    and "tick_shared (s\<lparr>y_pool := p'\<rparr>) = tick_shared s"
    and "v_stopping (dev_view (s\<lparr>y_pool := p'\<rparr>) g) = v_stopping (dev_view s g)"
    and "v_state (dev_view (s\<lparr>y_pool := p'\<rparr>) g) = v_state (dev_view s g)"
proof -
  have "\<exists>d. (y \<noteq> g \<longrightarrow> map_of (p_procs p') y = map_of (p_procs p) y \<and>
        map_of (p_meta p') y = map_of (p_meta p) y) \<and>
      p_cfg p' = p_cfg p \<and> (\<forall>h. StopTask h \<in> set (p_tasks p') \<longleftrightarrow> StopTask h \<in> set (p_tasks p))"
    unfolding p'_def by (rule spawn_cases [of F exe launch now g p]) auto
  with assms(2) show
    "y \<noteq> g \<Longrightarrow> dev_view (s\<lparr>y_pool := p'\<rparr>) y = dev_view s y"
    "tick_shared (s\<lparr>y_pool := p'\<rparr>) = tick_shared s"
    "v_stopping (dev_view (s\<lparr>y_pool := p'\<rparr>) g) = v_stopping (dev_view s g)"
    "v_state (dev_view (s\<lparr>y_pool := p'\<rparr>) g) = v_state (dev_view s g)"
    by (simp_all add: dev_view_def tick_shared_def)
qed

lemma spawn_worker_cases:
  fixes env g s
  defines "h \<equiv> t_host env"
  defines "r \<equiv> spawn (hs_fmt h) (hs_exe h) (hs_launch h) (t_wall env) g (y_pool s)"
  shows "spawn_worker env g st s =
    (case fst r of
       Inl e \<Rightarrow> (Some e, s\<lparr>y_pool := snd r\<rparr>)
     | Inr w \<Rightarrow>
         (None, put_state g (st\<lparr>d_idle_streak_s := 0, d_last_decision := ''spawned''\<rparr>)
            (auto_record (t_wall env) ''worker_spawned'' (gpu_args g) True PNone
               (PStr (''idle '' @ dec_int (trunc (d_idle_streak_s st)) @ ''s''))
               (s\<lparr>y_pool := snd r\<rparr>))))"
  by (simp add: spawn_worker_def h_def r_def Let_def split: prod.splits sum.splits)

lemma spawn_worker_frame:
  "y \<noteq> g \<Longrightarrow> dev_view (snd (spawn_worker env g st s)) y = dev_view s y"
  "tick_shared (snd (spawn_worker env g st s)) = tick_shared s"
  by (auto simp: spawn_worker_cases spawn_view [OF refl] split: sum.splits)

lemma apply_sample_frame:
  "y \<noteq> g \<Longrightarrow> dev_view (snd (apply_sample env g sample dt s)) y = dev_view s y"
  "tick_shared (snd (apply_sample env g sample dt s)) = tick_shared s"
  by (auto simp: apply_sample_def Let_def spawn_worker_frame split: sum.splits)

interpretation devices: device_loop "tick_step env dt" dev_view tick_shared for env dt
  by unfold_locales
    (auto simp: tick_step_def apply_sample_frame split: sum.splits)

section \<open>What one tick sees of a GPU and does about it\<close>

datatype obs = Unwatched | Unseen | Errored | Held | Occupied | Busy | Quiet

definition observe :: "config \<Rightarrow> bool \<Rightarrow> bool \<Rightarrow> gpu_sample res \<Rightarrow> obs" where
  "observe cfg held ours r =
     (case r of
        Inl e \<Rightarrow> Unseen
      | Inr sample \<Rightarrow>
          if has_error sample then Errored
          else if held then Held
          else (case is_quiet cfg sample of
                  Inl e \<Rightarrow> Unseen
                | Inr quiet \<Rightarrow> if ours then Occupied else if quiet then Quiet else Busy))"

definition seen_by :: "tick_env \<Rightarrow> nat \<Rightarrow> int \<Rightarrow> system \<Rightarrow> obs" where
  "seen_by env i g s =
     observe (k_cfg (y_ctl s)) (covers (y_leases s) g) (pid_for (y_pool s) g \<noteq> None)
       (t_sample env i g)"

definition view_streak :: "device_view \<Rightarrow> real" where
  "view_streak v = (case v_state v of None \<Rightarrow> 0 | Some st \<Rightarrow> d_idle_streak_s st)"

lemma view_streak_Some [simp]: "view_streak (v\<lparr>v_state := Some st\<rparr>) = d_idle_streak_s st"
  by (simp add: view_streak_def)

lemma device_streak: "d_idle_streak_s (device_of g s) = view_streak (dev_view s g)"
  by (simp add: device_of_def view_streak_def dev_view_def new_device_def split: option.splits)

lemma spawn_worker_streak:
  "view_streak (dev_view (snd (spawn_worker env g st s)) g) \<in> {0, view_streak (dev_view s g)}"
  by (simp add: spawn_worker_cases view_streak_def spawn_view [OF refl] split: sum.splits)

text \<open>The streak of the GPU the body is for: reset when it is held or busy; it grows by \<open>dt\<close> at
  most, and only when the GPU is seen quiet.\<close>

lemma step_streak:
  assumes "0 \<le> dt" "0 \<le> view_streak (dev_view s g)"
  shows "view_streak (dev_view (snd (tick_step env dt i g s)) g) =
      (if seen_by env i g s = Held \<or> seen_by env i g s = Busy then 0
       else view_streak (dev_view (snd (tick_step env dt i g s)) g)) \<and>
    0 \<le> view_streak (dev_view (snd (tick_step env dt i g s)) g) \<and>
    view_streak (dev_view (snd (tick_step env dt i g s)) g) \<le>
      view_streak (dev_view s g) + (if seen_by env i g s = Quiet then dt else 0)"
proof (cases "t_sample env i g")
  case (Inl e)
  then show ?thesis using assms by (simp add: tick_step_def seen_by_def observe_def)
next
  case (Inr sample)
  let ?st = "\<lambda>b. (device_of g s)\<lparr>d_last_sample := Some sample,
    d_idle_streak_s := if b then view_streak (dev_view s g) + dt else 0\<rparr>"
  have sp: "view_streak (dev_view (snd (spawn_worker env g (?st b) (put_state g (?st b)
      (put_state g ((device_of g s)\<lparr>d_last_sample := Some sample\<rparr>) s)))) g) \<in>
      {0, if b then view_streak (dev_view s g) + dt else 0}" for b
    using spawn_worker_streak [of env g "?st b" "put_state g (?st b)
      (put_state g ((device_of g s)\<lparr>d_last_sample := Some sample\<rparr>) s)"] by simp
  show ?thesis
    using Inr assms sp [of True] sp [of False]
    by (auto simp: tick_step_def seen_by_def observe_def apply_sample_def Let_def device_streak
        split: sum.splits)
qed

text \<open>A worker appears only on a free GPU, seen quiet or with no idle time required at all.\<close>

lemma step_spawn:
  assumes "v_proc (dev_view (snd (tick_step env dt i g s)) g) \<noteq> v_proc (dev_view s g)"
  shows "\<not> covers (y_leases s) g \<and>
    ((seen_by env i g s = Quiet \<and>
       may_start (k_cfg (y_ctl s)) (view_streak (dev_view s g) + dt) = Inr True) \<or>
     (seen_by env i g s = Busy \<and> may_start (k_cfg (y_ctl s)) 0 = Inr True))"
  using assms
  by (auto simp: tick_step_def seen_by_def observe_def apply_sample_def Let_def device_streak
      split: sum.splits if_splits)

section \<open>The tick, seen from one GPU\<close>

lemma expiry_events_frame:
  "y_ctl (fold (expiry_event now) ls s) = y_ctl s"
  "y_pool (fold (expiry_event now) ls s) = y_pool s"
  "y_leases (fold (expiry_event now) ls s) = y_leases s"
  by (induction ls arbitrary: s) (simp_all add: expiry_event_def auto_record_def)

lemma sweep_and_record_frame:
  "y_ctl (snd (sweep_and_record io now s)) = y_ctl s"
  "y_pool (snd (sweep_and_record io now s)) = y_pool s"
  "y_leases (snd (sweep_and_record io now s)) = snd (sweep_expired io now (y_leases s))"
  by (auto simp: sweep_and_record_def expiry_events_frame split: prod.splits sum.splits)

definition swept :: "tick_env \<Rightarrow> system \<Rightarrow> system" where
  "swept env s = snd (sweep_and_record (t_io env) (t_wall env) (start_tick env s))"

definition sweep_failed :: "tick_env \<Rightarrow> system \<Rightarrow> bool" where
  "sweep_failed env s \<longleftrightarrow>
     fst (sweep_and_record (t_io env) (t_wall env) (start_tick env s)) \<noteq> None"

lemma swept_simps [simp]:
  "k_watched (y_ctl (swept env s)) = k_watched (y_ctl s)"
  "k_cfg (y_ctl (swept env s)) = k_cfg (y_ctl s)"
  "k_states (y_ctl (swept env s)) = k_states (y_ctl s)"
  "k_last_tick_at (y_ctl (swept env s)) = Some (t_now env)"
  "y_pool (swept env s) = y_pool s"
  "dev_view (swept env s) g = dev_view s g"
  by (simp_all add: swept_def sweep_and_record_frame start_tick_def dev_view_def)

lemma tick_once_cases:
  "sweep_failed env s \<Longrightarrow> snd (tick_once env s) = swept env s \<and> fst (tick_once env s) \<noteq> None"
  "\<not> sweep_failed env s \<Longrightarrow>
   tick_once env s = for_each (tick_step env (tick_dt env s)) 0 (k_watched (y_ctl s)) (swept env s)"
  using swept_simps(1) [of env s]
  by (auto simp: tick_once_def sweep_failed_def swept_def split: prod.splits option.splits)

text \<open>What a tick saw of a GPU: nothing when it was aborted before it came to it.\<close>

definition tick_sees :: "tick_env \<Rightarrow> int \<Rightarrow> system \<Rightarrow> obs" where
  "tick_sees env g s =
     (let before = takeWhile (\<lambda>h. h \<noteq> g) (k_watched (y_ctl s)) in
      if g \<notin> set (k_watched (y_ctl s)) then Unwatched
      else if sweep_failed env s \<or>
        fst (for_each (tick_step env (tick_dt env s)) 0 before (swept env s)) \<noteq> None then Unseen
      else seen_by env (length before) g (swept env s))"

lemma seen_by_cong:
  "dev_view s g = dev_view s' g \<Longrightarrow> tick_shared s = tick_shared s' \<Longrightarrow>
   seen_by env i g s = seen_by env i g s'"
  by (simp add: seen_by_def dev_view_def tick_shared_def pid_for_def)

lemma tick_unwatched:
  "g \<notin> set (k_watched (y_ctl s)) \<Longrightarrow> dev_view (snd (tick_once env s)) g = dev_view s g"
  by (cases "sweep_failed env s") (simp_all add: tick_once_cases devices.loop_frame)

lemma tick_at:
  assumes "distinct (k_watched (y_ctl s))" "g \<in> set (k_watched (y_ctl s))"
  obtains (aborted) "tick_sees env g s = Unseen" "dev_view (snd (tick_once env s)) g = dev_view s g"
      "fst (tick_once env s) \<noteq> None"
    | (reached) i s' where "k_watched (y_ctl s) ! i = g" "i < length (k_watched (y_ctl s))"
      "dev_view s' g = dev_view s g" "tick_shared s' = tick_shared (swept env s)"
      "tick_sees env g s = seen_by env i g s'"
      "dev_view (snd (tick_once env s)) g = dev_view (snd (tick_step env (tick_dt env s) i g s')) g"
      "fst (tick_once env s) = None \<longrightarrow> fst (tick_step env (tick_dt env s) i g s') = None"
proof (cases "sweep_failed env s")
  case True
  show ?thesis
    by (rule aborted) (use True assms in \<open>simp_all add: tick_once_cases tick_sees_def\<close>)
next
  case False
  let ?w = "k_watched (y_ctl s)" and ?t = "swept env s"
  define xs where "xs = takeWhile (\<lambda>h. h \<noteq> g) ?w"
  obtain ys where w: "?w = xs @ g # ys"
    using assms(2) unfolding xs_def
    by (metis (mono_tags, lifting) dropWhile_eq_Cons_conv dropWhile_eq_Nil_conv list.exhaust_sel
        takeWhile_dropWhile_id)
  then have notin: "g \<notin> set xs" "g \<notin> set ys" using assms(1) by auto
  have tick: "tick_once env s = for_each (tick_step env (tick_dt env s)) 0 (xs @ g # ys) ?t"
    using False w by (simp add: tick_once_cases)
  consider (a) "fst (for_each (tick_step env (tick_dt env s)) 0 xs ?t) \<noteq> None"
      "dev_view (snd (tick_once env s)) g = dev_view ?t g" "fst (tick_once env s) \<noteq> None"
    | (b) s' where "for_each (tick_step env (tick_dt env s)) 0 xs ?t = (None, s')"
      "dev_view s' g = dev_view ?t g" "tick_shared s' = tick_shared ?t"
      "dev_view (snd (tick_once env s)) g =
         dev_view (snd (tick_step env (tick_dt env s) (length xs) g s')) g"
      "fst (tick_once env s) = None \<longrightarrow> fst (tick_step env (tick_dt env s) (length xs) g s') = None"
    using devices.loop_at [OF notin, of env "tick_dt env s" 0 ?t] unfolding tick by auto
  then show ?thesis
  proof cases
    case a
    then show ?thesis
      by (intro aborted) (use assms in \<open>simp_all add: tick_sees_def xs_def [symmetric] Let_def\<close>)
  next
    case b
    have "tick_sees env g s = seen_by env (length xs) g ?t"
      using b(1) False assms(2) by (simp add: tick_sees_def xs_def [symmetric] Let_def)
    with b w seen_by_cong [OF b(2,3)] show ?thesis
      by (intro reached [of "length xs" s']) simp_all
  qed
qed

section \<open>Leased GPUs\<close>

lemma tick_leases: "y_leases (snd (tick_once env s)) = y_leases (swept env s)"
proof (cases "sweep_failed env s")
  case False
  have "tick_shared (snd (tick_once env s)) = tick_shared (swept env s)"
    using False by (simp add: tick_once_cases devices.loop_shared)
  then show ?thesis by (simp add: tick_shared_def)
qed (simp add: tick_once_cases)

lemma step_teardown:
  assumes "seen_by env i g s = Held"
  shows "\<exists>st. v_state (dev_view (snd (tick_step env dt i g s)) g) = Some st \<and>
    d_idle_streak_s st = 0 \<and> d_last_decision st = ''leased'' \<and>
    (pid_for (y_pool s) g \<noteq> None \<longrightarrow> v_stopping (dev_view (snd (tick_step env dt i g s)) g))"
  using assms
  by (auto simp: seen_by_def observe_def tick_step_def apply_sample_def Let_def
      split: sum.splits if_splits)

lemma step_error:
  assumes "seen_by env i g s = Errored"
  shows "\<exists>st. v_state (dev_view (snd (tick_step env dt i g s)) g) = Some st \<and>
    d_idle_streak_s st = view_streak (dev_view s g) \<and> d_last_decision st = ''monitor_error'' \<and>
    v_stopping (dev_view (snd (tick_step env dt i g s)) g) = v_stopping (dev_view s g)"
  using assms
  by (auto simp: seen_by_def observe_def tick_step_def apply_sample_def Let_def device_streak
      split: sum.splits if_splits)

lemma covers_shared: "tick_shared s = tick_shared s' \<Longrightarrow> covers (y_leases s) g = covers (y_leases s') g"
  by (simp add: tick_shared_def)

text \<open>A small host for examples: GPU 7 is watched and idle, and leased until 60 in one of them.\<close>

definition plain_host :: host where
  "plain_host =
     \<lparr>hs_fmt = plain_fmt,
      hs_exe = ''python'', hs_launch = (\<lambda>_. Some 100)\<rparr>"

definition idle_env :: "real \<Rightarrow> tick_env" where
  "idle_env t =
     \<lparr>t_host = plain_host, t_now = t, t_wall = t, t_io = True,
      t_sample = (\<lambda>i g. Inr \<lparr>s_gpu = g, s_util_pct = 0, s_mem_used_mb = 0, s_mem_total_mb = 100,
        s_compute_pids = [], s_error = None\<rparr>)\<rparr>"

definition small_system :: system where
  "small_system =
     \<lparr>y_ctl = set_watched [7] (controller_init default_config),
      y_leases = \<lparr>ls_leases = [], ls_disk = SNoFile\<rparr>, y_pool = pool_init (worker default_config),
      y_hist = \<lparr>h_max = 1000, h_ring = [], h_lines = 0, h_queue = [], h_file = HNoFile\<rparr>\<rparr>"

definition leased_system :: system where
  "leased_system = small_system
     \<lparr>y_leases := \<lparr>ls_leases = [(7, \<lparr>l_uid = 1001, l_user = ''alice'', l_gpu = 7,
        l_acquired_at = Fin 0, l_expires_at = Fin 60\<rparr>)], ls_disk = SNoFile\<rparr>\<rparr>"

lemmas small_simps = leased_system_def small_system_def idle_env_def plain_host_def
  set_watched_def controller_init_def default_config_def setdefault_def

lemma leased_tick:
  "covers (y_leases (snd (tick_once (idle_env 5) leased_system))) 7"
  "fst (tick_once (idle_env 5) leased_system) = None"
  by (simp_all add: small_simps tick_once_def sweep_and_record_def sweep_expired_def expired_keys_def
      start_tick_def tick_step_def apply_sample_def has_error_def covers_def put_state_def
      ctl_schedule_stop_def schedule_stop_def pid_for_def pool_init_def device_of_def Let_def)

lemma tick_no_spawn:
  assumes "covers (y_leases (snd (tick_once env s))) g"
  shows "map_of (p_procs (y_pool (snd (tick_once env s)))) g = map_of (p_procs (y_pool s)) g"
proof (cases "sweep_failed env s")
  case True
  then show ?thesis by (simp add: tick_once_cases)
next
  case False
  let ?C = "\<lambda>c. covers (fst c) g" and ?P = "\<lambda>v. v_proc v = map_of (p_procs (y_pool s)) g"
  have "?C (tick_shared (swept env s))"
    using assms by (simp add: tick_leases tick_shared_def)
  moreover have "?P (dev_view (swept env s) g)"
    by (simp add: dev_view_def)
  moreover have "?P (dev_view (snd (tick_step env dt i g s')) g)"
    if "?C (tick_shared s')" "?P (dev_view s' g)" for dt i s'
    using that step_spawn [of env dt i g s'] by (auto simp: tick_shared_def)
  ultimately have "?P (dev_view (snd (tick_once env s)) g)"
    using False devices.loop_invariant [where C = ?C and P = ?P]
    by (simp add: tick_once_cases)
  then show ?thesis by (simp add: dev_view_def)
qed

text \<open>C10. A tick never starts a worker on a leased GPU: whatever the samples, the clock and the
  failures, a GPU that is leased once the expired leases are swept out has the same worker
  process, or none, after the tick as before.\<close>

theorem no_spawn_on_leased:
  assumes "covers (y_leases (snd (tick_once env s))) g"
  shows "map_of (p_procs (y_pool (snd (tick_once env s)))) g = map_of (p_procs (y_pool s)) g"
  using assms by (rule tick_no_spawn)

theorem no_spawn_on_leased_witness:
  "map_of (p_procs (y_pool (snd (tick_once (idle_env 5) leased_system)))) 7 = None"
  using no_spawn_on_leased [OF leased_tick(1)]
  by (simp add: leased_system_def small_system_def pool_init_def)

text \<open>C14. A tick that completes and has a sample of a leased GPU, the watched GPUs being distinct:
  when the sample is not an error, the idle streak is reset, the decision is \<open>leased\<close>, and a worker
  of ours on the GPU has its stop under way. When the sample is an error, the tick comes to no
  decision on the lease: the streak stays what it was and no stop of the worker is scheduled that
  was not under way before.\<close>

theorem leased_gpu_torn_down:
  assumes "covers (y_leases (snd (tick_once env s))) g" "fst (tick_once env s) = None"
    and "distinct (k_watched (y_ctl s))" "i < length (k_watched (y_ctl s))"
    and "k_watched (y_ctl s) ! i = g" "t_sample env i g = Inr sample"
  shows "\<exists>st. map_of (k_states (y_ctl (snd (tick_once env s)))) g = Some st \<and>
    (if has_error sample
     then d_idle_streak_s st = d_idle_streak_s (device_of g s) \<and>
       d_last_decision st = ''monitor_error'' \<and>
       (StopTask g \<in> set (p_tasks (y_pool (snd (tick_once env s)))) \<longleftrightarrow>
        StopTask g \<in> set (p_tasks (y_pool s)))
     else d_idle_streak_s st = 0 \<and> d_last_decision st = ''leased'' \<and>
       (pid_for (y_pool s) g \<noteq> None \<longrightarrow>
          StopTask g \<in> set (p_tasks (y_pool (snd (tick_once env s))))))"
proof -
  have "g \<in> set (k_watched (y_ctl s))" using assms(4,5) nth_mem by blast
  from assms(3) this show ?thesis
  proof (cases rule: tick_at [where env = env])
    case aborted
    with assms(2) show ?thesis by simp
  next
    case (reached j s')
    then have j: "j = i" using assms(3,4,5) nth_eq_iff_index_eq by blast
    have held: "covers (y_leases s') g"
      using assms(1) covers_shared [OF reached(4)] by (simp add: tick_leases)
    show ?thesis
    proof (cases "has_error sample")
      case True
      then have "seen_by env i g s' = Errored"
        using assms(6) by (simp add: seen_by_def observe_def)
      from step_error [OF this] j True reached(3,6) show ?thesis
        by (simp add: dev_view_def device_streak)
    next
      case False
      then have "seen_by env i g s' = Held"
        using held assms(6) by (simp add: seen_by_def observe_def)
      from step_teardown [OF this] j False reached(3,6) show ?thesis
        by (simp add: dev_view_def pid_for_def)
    qed
  qed
qed

theorem leased_gpu_torn_down_witness:
  "\<exists>st. map_of (k_states (y_ctl (snd (tick_once (idle_env 5) leased_system)))) 7 = Some st \<and>
     d_last_decision st = ''leased''"
proof -
  have "distinct (k_watched (y_ctl leased_system))" "k_watched (y_ctl leased_system) ! 0 = 7"
    "0 < length (k_watched (y_ctl leased_system))"
    by (simp_all add: small_simps)
  moreover have "t_sample (idle_env 5) 0 7 = Inr \<lparr>s_gpu = 7, s_util_pct = 0, s_mem_used_mb = 0,
      s_mem_total_mb = 100, s_compute_pids = [], s_error = None\<rparr>"
    by (simp add: idle_env_def)
  ultimately show ?thesis
    using leased_gpu_torn_down [OF leased_tick] by (fastforce simp: has_error_def)
qed

section \<open>The idle debounce\<close>

text \<open>
  Runs of the daemon as GPU \<open>g\<close> sees them, with the log of its ticks, latest first: the time, the
  time since the tick before, and what the tick saw of \<open>g\<close>. The steps are ticks on a monotonic
  clock, changes of the watched set, and anything else that does not touch the controller's device
  states (leases, workers, events, another configuration).
\<close>

type_synonym tick_log = "(real \<times> real \<times> obs) list"

inductive watch_run :: "int \<Rightarrow> system \<Rightarrow> tick_log \<Rightarrow> bool" for g where
  init: "y_ctl s = controller_init cfg \<Longrightarrow> watch_run g s []"
| tick: "watch_run g s trail \<Longrightarrow> 0 \<le> tick_dt env s \<Longrightarrow>
    watch_run g (snd (tick_once env s)) ((t_now env, tick_dt env s, tick_sees env g s) # trail)"
| watched: "watch_run g s trail \<Longrightarrow> distinct gpus \<Longrightarrow>
    watch_run g (s\<lparr>y_ctl := set_watched gpus (y_ctl s)\<rparr>) trail"
| other: "watch_run g s trail \<Longrightarrow> y_ctl s' = (y_ctl s)\<lparr>k_cfg := c\<rparr> \<Longrightarrow>
    watch_run g s' trail"

text \<open>A tick that found the GPU taken off the watched ones, leased or busy starts the idle time anew.\<close>

definition disturbed :: "obs \<Rightarrow> bool" where
  "disturbed o1 \<longleftrightarrow> o1 = Unwatched \<or> o1 = Held \<or> o1 = Busy"

text \<open>
  The time the ticks found the GPU quiet since then. A tick whose sample was an error or was not
  taken, that came to no decision on the GPU, or that found our own worker there, neither adds to
  it nor starts it anew.
\<close>

fun quiet_time :: "tick_log \<Rightarrow> real" where
  "quiet_time [] = 0"
| "quiet_time ((t, dt, o1) # trail) =
     (if disturbed o1 then 0 else if o1 = Quiet then quiet_time trail + dt else quiet_time trail)"

text \<open>The streak is never more than the quiet time, nor does it reach back before the first tick.\<close>

definition streak_ok :: "int \<Rightarrow> system \<Rightarrow> tick_log \<Rightarrow> bool" where
  "streak_ok g s trail \<longleftrightarrow>
     distinct (k_watched (y_ctl s)) \<and>
     (g \<notin> set (k_watched (y_ctl s)) \<longrightarrow> v_state (dev_view s g) = None) \<and>
     0 \<le> view_streak (dev_view s g) \<and> view_streak (dev_view s g) \<le> quiet_time trail \<and>
     (case k_last_tick_at (y_ctl s) of
        None \<Rightarrow> trail = [] \<and> view_streak (dev_view s g) = 0
      | Some t \<Rightarrow> trail \<noteq> [] \<and> view_streak (dev_view s g) \<le> t - fst (last trail) \<and>
          (\<forall>(u, dt, o1) \<in> set trail. u \<le> t \<and>
             (disturbed o1 \<longrightarrow> view_streak (dev_view s g) \<le> t - u)))"

lemma tick_ctl:
  "k_watched (y_ctl (snd (tick_once env s))) = k_watched (y_ctl s)"
  "k_last_tick_at (y_ctl (snd (tick_once env s))) = Some (t_now env)"
proof -
  have "tick_shared (snd (tick_once env s)) = tick_shared (swept env s)"
    by (cases "sweep_failed env s") (simp_all add: tick_once_cases devices.loop_shared)
  then show "k_watched (y_ctl (snd (tick_once env s))) = k_watched (y_ctl s)"
    "k_last_tick_at (y_ctl (snd (tick_once env s))) = Some (t_now env)"
    by (simp_all add: tick_shared_def)
qed

lemma tick_streak:
  assumes "streak_ok g s trail" "0 \<le> tick_dt env s"
  defines "v \<equiv> dev_view (snd (tick_once env s)) g"
  shows "0 \<le> view_streak v \<and> view_streak v \<le> view_streak (dev_view s g) + (if tick_sees env g s = Quiet then tick_dt env s else 0) \<and>
    (disturbed (tick_sees env g s) \<longrightarrow> view_streak v = 0)"
proof (cases "g \<in> set (k_watched (y_ctl s))")
  case False
  then have "v = dev_view s g" by (simp add: v_def tick_unwatched)
  moreover have "tick_sees env g s = Unwatched" using False by (simp add: tick_sees_def)
  ultimately show ?thesis using False assms(1) by (simp add: streak_ok_def view_streak_def)
next
  case True
  have d: "distinct (k_watched (y_ctl s))" and pos: "0 \<le> view_streak (dev_view s g)"
    using assms(1) by (simp_all add: streak_ok_def)
  from d True show ?thesis
  proof (cases rule: tick_at [where env = env])
    case aborted
    with assms(2) pos show ?thesis by (simp add: v_def disturbed_def)
  next
    case (reached i s')
    have "0 \<le> view_streak (dev_view s' g)" using pos reached(3) by simp
    from step_streak [OF assms(2) this, of env i] reached(3,5,6) True show ?thesis
      by (auto simp: v_def disturbed_def seen_by_def observe_def split: if_splits sum.splits)
  qed
qed

lemma watch_run_ok: "watch_run g s trail \<Longrightarrow> streak_ok g s trail"
proof (induction rule: watch_run.induct)
  case (init s cfg)
  then show ?case
    by (simp add: streak_ok_def controller_init_def dev_view_def view_streak_def)
next
  case (tick s trail env)
  let ?v = "dev_view (snd (tick_once env s)) g"
  note st = tick_streak [OF tick.IH tick.hyps(2)]
  have grow: "view_streak ?v \<le> view_streak (dev_view s g) + tick_dt env s"
    using st tick.hyps(2) by (simp split: if_splits)
  have quiet: "view_streak ?v \<le> quiet_time ((t_now env, tick_dt env s, tick_sees env g s) # trail)"
    using st tick.IH by (auto simp: streak_ok_def split: if_splits)
  have keep: "g \<notin> set (k_watched (y_ctl s)) \<Longrightarrow> v_state ?v = None"
    using tick.IH by (simp add: tick_unwatched streak_ok_def)
  show ?case
  proof (cases "k_last_tick_at (y_ctl s)")
    case None
    with tick.IH st grow quiet keep show ?thesis
      by (auto simp: streak_ok_def tick_ctl tick_dt_def)
  next
    case (Some t)
    then have le: "t \<le> t_now env" and dt: "tick_dt env s = t_now env - t"
      using tick.hyps(2) by (simp_all add: tick_dt_def)
    with tick.IH st grow quiet keep Some show ?thesis
      by (fastforce simp: streak_ok_def tick_ctl)
  qed
next
  case (watched s trail gpus)
  have v: "view_streak (dev_view (s\<lparr>y_ctl := set_watched gpus (y_ctl s)\<rparr>) g) \<in>
      {0, view_streak (dev_view s g)}"
    by (auto simp: dev_view_def view_streak_def set_watched_states new_device_def split: option.splits)
  have last: "k_last_tick_at (set_watched gpus (y_ctl s)) = k_last_tick_at (y_ctl s)"
    "k_watched (set_watched gpus (y_ctl s)) = gpus"
    by (simp_all add: set_watched_def)
  have first: "t - fst (last trail) \<ge> 0"
    if "k_last_tick_at (y_ctl s) = Some t" for t
    using watched.IH that by (auto simp: streak_ok_def)
  show ?case
    using watched v last first
    by (auto simp: streak_ok_def set_watched_states dev_view_def split: option.splits)
next
  case (other s trail s' c)
  then have "k_states (y_ctl s') = k_states (y_ctl s)" "k_watched (y_ctl s') = k_watched (y_ctl s)"
    "k_last_tick_at (y_ctl s') = k_last_tick_at (y_ctl s)"
    by simp_all
  moreover from this have "view_streak (dev_view s' g) = view_streak (dev_view s g)"
    "v_state (dev_view s' g) = v_state (dev_view s g)"
    by (simp_all add: dev_view_def view_streak_def)
  ultimately show ?case using other.IH by (simp add: streak_ok_def split: option.splits)
qed

text \<open>C9. A worker is started only after \<open>idle_debounce_s\<close> of quiet. Consider any run on a monotonic
  clock in which the watched GPUs are always distinct, and a positive finite \<open>idle_debounce_s\<close>. If a
  tick starts a worker on GPU \<open>g\<close>, that tick saw it quiet and not leased, and workloads are configured; the ticks that found
  the GPU quiet, this one included, add up to at least \<open>idle_debounce_s\<close> since the last tick that
  found it unwatched, leased or busy; and every such tick, as well as the first tick of all, lies
  \<open>idle_debounce_s\<close> back. A tick in between whose sample was an error, or that could not sample the
  GPU or decide on it, or that found a worker of ours on it, does not count and does not start the
  quiet time anew.\<close>

theorem spawn_after_debounce:
  assumes "watch_run g s trail" "0 \<le> tick_dt env s"
    and "map_of (p_procs (y_pool (snd (tick_once env s)))) g \<noteq> map_of (p_procs (y_pool s)) g"
    and "num_of (idle_debounce_s (thresholds (k_cfg (y_ctl s)))) = Some (Fin d)" "0 < d"
  shows "tick_sees env g s = Quiet \<and> truthy (workloads (worker (k_cfg (y_ctl s)))) \<and>
    d \<le> quiet_time ((t_now env, tick_dt env s, Quiet) # trail) \<and>
    trail \<noteq> [] \<and> fst (last trail) + d \<le> t_now env \<and>
    (\<forall>(t, dt, o1) \<in> set trail. disturbed o1 \<longrightarrow> t + d \<le> t_now env)"
proof -
  have ok: "streak_ok g s trail" using assms(1) by (rule watch_run_ok)
  have new: "v_proc (dev_view (snd (tick_once env s)) g) \<noteq> v_proc (dev_view s g)"
    using assms(3) by (simp add: dev_view_def)
  have "distinct (k_watched (y_ctl s))" using ok by (simp add: streak_ok_def)
  moreover have "g \<in> set (k_watched (y_ctl s))" using new tick_unwatched by metis
  ultimately show ?thesis
  proof (cases rule: tick_at [where env = env])
    case aborted
    with new show ?thesis by simp
  next
    case (reached i s')
    have cfg: "k_cfg (y_ctl s') = k_cfg (y_ctl s)"
      using reached(4) by (simp add: tick_shared_def)
    have start: "d \<le> streak \<and> truthy (workloads (worker (k_cfg (y_ctl s))))"
      if "may_start (k_cfg (y_ctl s)) streak = Inr True" for streak
      using that assms(4) by (simp add: may_start_def r_and_def py_cmp_num split: if_splits)
    have "seen_by env i g s' = Quiet"
      "may_start (k_cfg (y_ctl s)) (view_streak (dev_view s g) + tick_dt env s) = Inr True"
      using step_spawn [of env "tick_dt env s" i g s'] new reached(3,6) cfg start [of 0] assms(5)
      by auto
    moreover from this have "d \<le> view_streak (dev_view s g) + tick_dt env s"
      "truthy (workloads (worker (k_cfg (y_ctl s))))"
      using start by blast+
    moreover from this assms(5) have "\<exists>t. k_last_tick_at (y_ctl s) = Some t"
      using ok by (cases "k_last_tick_at (y_ctl s)") (auto simp: streak_ok_def tick_dt_def)
    ultimately show ?thesis
      using ok reached(5) by (fastforce simp: streak_ok_def tick_dt_def disturbed_def)
  qed
qed

lemmas tick_simps = tick_once_def sweep_and_record_def sweep_expired_def expired_keys_def
  start_tick_def tick_step_def apply_sample_def has_error_def covers_def put_state_def
  pid_for_def pool_init_def device_of_def new_device_def is_quiet_def may_start_def r_and_def
  py_cmp_def mem_used_pct_def tick_dt_def Let_def

lemma small_tick:
  "tick_once (idle_env 0) small_system =
     (None, small_system\<lparr>y_ctl := (y_ctl small_system)
        \<lparr>k_last_tick_at := Some 0,
         k_states := [(7, \<lparr>d_gpu = 7, d_idle_streak_s = 0,
           d_last_sample = Some \<lparr>s_gpu = 7, s_util_pct = 0, s_mem_used_mb = 0, s_mem_total_mb = 100,
             s_compute_pids = [], s_error = None\<rparr>,
           d_last_decision = ''waiting_idle''\<rparr>)]\<rparr>\<rparr>)"
  by (simp add: small_simps tick_simps ThresholdsCfg_def kwarg_def)

lemma small_spawn:
  "map_of (p_procs (y_pool (snd (tick_once (idle_env 31) (snd (tick_once (idle_env 0) small_system)))))) 7
   = Some 0"
  unfolding small_tick
  by (simp add: small_simps tick_simps ThresholdsCfg_def kwarg_def spawn_worker_def spawn_def
      WorkerCfg_def build_argv_def join_strs_def auto_record_def)

theorem spawn_after_debounce_witness:
  "tick_sees (idle_env 31) 7 (snd (tick_once (idle_env 0) small_system)) = Quiet \<and>
   30 \<le> quiet_time [(31, 31, Quiet), (0, 0, Quiet)]"
proof -
  have sees: "tick_sees (idle_env 0) 7 small_system = Quiet"
    by (simp add: tick_sees_def seen_by_def observe_def sweep_failed_def swept_def small_simps
        tick_simps ThresholdsCfg_def kwarg_def)
  have "watch_run 7 (small_system\<lparr>y_ctl := controller_init default_config\<rparr>) []"
    by (rule watch_run.init) simp
  from watch_run.watched [OF this, of "[7]"] have "watch_run 7 small_system []"
    by (simp add: small_system_def)
  from watch_run.tick [OF this, of "idle_env 0"]
  have run: "watch_run 7 (snd (tick_once (idle_env 0) small_system)) [(0, 0, Quiet)]"
    using sees by (simp add: tick_dt_def small_simps)
  have dt: "tick_dt (idle_env 31) (snd (tick_once (idle_env 0) small_system)) = 31"
    unfolding small_tick by (simp add: tick_dt_def) (simp add: idle_env_def)
  have cfg: "num_of (idle_debounce_s (thresholds
      (k_cfg (y_ctl (snd (tick_once (idle_env 0) small_system)))))) = Some (Fin 30)"
    by (simp add: small_tick) (simp add: small_simps ThresholdsCfg_def kwarg_def)
  have new: "map_of (p_procs (y_pool (snd (tick_once (idle_env 31) (snd (tick_once (idle_env 0) small_system)))))) 7
      \<noteq> map_of (p_procs (y_pool (snd (tick_once (idle_env 0) small_system)))) 7"
    unfolding small_spawn by (simp add: small_tick) (simp add: small_simps pool_init_def)
  have now: "t_now (idle_env 31) = 31" by (simp add: idle_env_def)
  from spawn_after_debounce [OF run _ new cfg] show ?thesis by (simp add: dt now disturbed_def)
qed

section \<open>When a tick fails\<close>

text \<open>A worker the pool has a process for is one it has a record of (part of \<open>pool_ok\<close>).\<close>

definition view_ok :: "device_view \<Rightarrow> bool" where
  "view_ok v \<longleftrightarrow> (v_proc v = None \<longleftrightarrow> v_meta v = None)"

lemma join_strs_ok:
  assumes "all_elems (\<lambda>x. x = PStr ''mem'' \<or> x = PStr ''util'') v"
  shows "\<exists>r. join_strs sep v = Inr r"
proof -
  obtain xs where xs: "py_iter v = Inr xs" "\<forall>x \<in> set xs. x = PStr ''mem'' \<or> x = PStr ''util''"
    using assms by (auto simp: all_elems_def split: sum.splits)
  have "rmap (\<lambda>x. case x of PStr s \<Rightarrow> Inr s | _ \<Rightarrow> Inl TypeError) xs =
      Inr (map (\<lambda>x. case x of PStr s \<Rightarrow> s | _ \<Rightarrow> []) xs)"
    using xs(2) by (intro rmap_Inr_all) auto
  with xs(1) show ?thesis by (simp add: join_strs_def)
qed

lemma build_argv_ok:
  "all_elems (\<lambda>x. x = PStr ''mem'' \<or> x = PStr ''util'') (workloads cfg) \<Longrightarrow>
   \<exists>argv. build_argv F exe cfg g = Inr argv"
  using join_strs_ok [of "workloads cfg" "'',''"] by (auto simp: build_argv_def Let_def)

lemma spawn_result:
  assumes "all_elems (\<lambda>x. x = PStr ''mem'' \<or> x = PStr ''util'') (workloads (p_cfg p))"
    and "map_of (p_procs p) g = None \<longleftrightarrow> map_of (p_meta p) g = None"
  shows "fst (spawn F exe launch now g p) = Inl e \<Longrightarrow>
      e = OSError \<and> (\<exists>argv. launch argv = None)"
    and "(map_of (p_procs (snd (spawn F exe launch now g p))) g = None \<longleftrightarrow>
       map_of (p_meta (snd (spawn F exe launch now g p))) g = None)"
proof -
  obtain argv where "build_argv F exe (p_cfg p) g = Inr argv"
    using build_argv_ok [OF assms(1)] by blast
  with assms(2) show
    "fst (spawn F exe launch now g p) = Inl e \<Longrightarrow> e = OSError \<and> (\<exists>argv. launch argv = None)"
    by (auto simp: spawn_def Let_def map_of_eq_None_iff split: option.splits if_splits)
  show "(map_of (p_procs (snd (spawn F exe launch now g p))) g = None \<longleftrightarrow>
       map_of (p_meta (snd (spawn F exe launch now g p))) g = None)"
    using assms(2) by (rule_tac spawn_cases [of F exe launch now g p]) auto
qed

definition policy_cfg_ok :: "config \<Rightarrow> worker_cfg \<Rightarrow> bool" where
  "policy_cfg_ok c w \<longleftrightarrow> config_ok c \<and> w = worker c"

lemma policy_numbers:
  assumes "config_ok c"
  shows "\<exists>b. is_quiet c sample = Inr b" "\<exists>b. may_start c streak = Inr b"
    "all_elems (\<lambda>x. x = PStr ''mem'' \<or> x = PStr ''util'') (workloads (worker c))"
  using assms
  by (auto simp: config_ok_def Let_def num_sat_def is_quiet_def may_start_def r_and_def py_cmp_def
      split: option.splits)

text \<open>One body under a validated configuration: the only failure is that of starting a process.\<close>

lemma step_ok:
  assumes cfg: "policy_cfg_ok (k_cfg (y_ctl s)) (p_cfg (y_pool s))" and v: "view_ok (dev_view s g)"
  shows "fst (tick_step env dt i g s) = Some e \<Longrightarrow>
      e = OSError \<and> (\<exists>argv. hs_launch (t_host env) argv = None)"
    and "view_ok (dev_view (snd (tick_step env dt i g s)) g)"
proof -
  have w: "all_elems (\<lambda>x. x = PStr ''mem'' \<or> x = PStr ''util'') (workloads (p_cfg (y_pool s)))"
    using cfg policy_numbers(3) by (simp add: policy_cfg_ok_def)
  have m: "map_of (p_procs (y_pool s)) g = None \<longleftrightarrow> map_of (p_meta (y_pool s)) g = None"
    using v by (simp add: view_ok_def dev_view_def)
  have spawn: "fst (spawn_worker env g st s') = Some e \<Longrightarrow>
      e = OSError \<and> (\<exists>argv. hs_launch (t_host env) argv = None)"
    "view_ok (dev_view (snd (spawn_worker env g st s')) g)" if "y_pool s' = y_pool s" for st s'
    using spawn_result [OF w m] that
    by (auto simp: spawn_worker_cases view_ok_def dev_view_def put_state_def auto_record_def
        split: sum.splits)
  obtain quiet start where num: "\<And>sample. is_quiet (k_cfg (y_ctl s)) sample = Inr (quiet sample)"
      "\<And>streak. may_start (k_cfg (y_ctl s)) streak = Inr (start streak)"
    using cfg policy_numbers(1,2) unfolding policy_cfg_ok_def by metis
  show "fst (tick_step env dt i g s) = Some e \<Longrightarrow>
      e = OSError \<and> (\<exists>argv. hs_launch (t_host env) argv = None)"
    by (auto simp: tick_step_def apply_sample_def num Let_def split: sum.splits if_splits
        dest!: spawn(1) [rotated])
  show "view_ok (dev_view (snd (tick_step env dt i g s)) g)"
    using v spawn(2)
    by (auto simp: tick_step_def apply_sample_def num Let_def view_ok_def split: sum.splits)
qed

lemma sweep_error:
  "fst (sweep_and_record io now s) = Some e \<Longrightarrow> e = OSError \<and> \<not> io"
  by (auto simp: sweep_and_record_def sweep_expired_def persist_cases Let_def
      split: prod.splits sum.splits if_splits)

lemma pool_ok_view: "pool_ok (y_pool s) \<Longrightarrow> view_ok (dev_view s g)"
  by (auto simp: pool_ok_def view_ok_def dev_view_def)

lemma tick_fails_lemma:
  assumes "config_ok (k_cfg (y_ctl s))" "p_cfg (y_pool s) = worker (k_cfg (y_ctl s))"
    and "pool_ok (y_pool s)" "fst (tick_once env s) = Some e"
  shows "e = OSError \<and> (\<not> t_io env \<or> (\<exists>argv. hs_launch (t_host env) argv = None))"
proof (cases "sweep_failed env s")
  case True
  then show ?thesis
    using assms(4) sweep_error [of "t_io env" "t_wall env" "start_tick env s" e]
    by (auto simp: sweep_failed_def tick_once_def split: prod.splits option.splits)
next
  case False
  let ?C = "\<lambda>c. policy_cfg_ok (fst (snd c)) (snd (snd (snd (snd c))))"
  let ?E = "\<lambda>e. e = OSError \<and> (\<exists>argv. hs_launch (t_host env) argv = None)"
  have C: "?C (tick_shared (swept env s))"
    using assms(1,2) by (simp add: tick_shared_def policy_cfg_ok_def)
  have P: "\<forall>y. view_ok (dev_view (swept env s) y)"
    using pool_ok_view [OF assms(3)] by simp
  have cfg: "policy_cfg_ok (k_cfg (y_ctl s')) (p_cfg (y_pool s'))" if "?C (tick_shared s')" for s'
    using that by (simp add: tick_shared_def)
  have "?E e"
  proof (rule devices.loop_errors [where C = ?C and P = view_ok and E = ?E, OF _ _ C P])
    show "fst (for_each (tick_step env (tick_dt env s)) 0 (k_watched (y_ctl s)) (swept env s)) = Some e"
      using assms(4) False by (simp add: tick_once_cases)
  qed (use cfg step_ok in blast)+
  then show ?thesis by blast
qed

text \<open>C30. Under a validated configuration a tick fails only when the operating system does: the
  exception is OSError, and the state file could not be written or a process not started. In
  particular no comparison of a sample with a threshold raises.\<close>

theorem tick_fails_only_os:
  assumes "config_ok (k_cfg (y_ctl s))" "p_cfg (y_pool s) = worker (k_cfg (y_ctl s))"
    and "pool_ok (y_pool s)" "fst (tick_once env s) = Some e"
  shows "e = OSError \<and> (\<not> t_io env \<or> (\<exists>argv. hs_launch (t_host env) argv = None))"
  using assms by (rule tick_fails_lemma)

theorem tick_fails_only_os_witness:
  "fst (tick_once ((idle_env 90)\<lparr>t_io := False\<rparr>) leased_system) = Some OSError"
proof -
  have "\<exists>e. fst (tick_once ((idle_env 90)\<lparr>t_io := False\<rparr>) leased_system) = Some e"
    by (simp add: small_simps tick_simps persist_def)
  then obtain e where "fst (tick_once ((idle_env 90)\<lparr>t_io := False\<rparr>) leased_system) = Some e" ..
  moreover have "pool_ok (y_pool leased_system)" "config_ok (k_cfg (y_ctl leased_system))"
    "p_cfg (y_pool leased_system) = worker (k_cfg (y_ctl leased_system))"
    using pool_ok_init default_config_ok
    by (simp_all add: leased_system_def small_system_def set_watched_def controller_init_def
        pool_init_def)
  ultimately show ?thesis using tick_fails_only_os by blast
qed

section \<open>Pausing\<close>

lemma stop_fold:
  fixes s :: system
  defines "f \<equiv> \<lambda>g s. if pid_for (y_pool s) g \<noteq> None then ctl_schedule_stop g s else s"
  shows "y_ctl (fold f gs s) = y_ctl s \<and> y_leases (fold f gs s) = y_leases s \<and>
    y_hist (fold f gs s) = y_hist s \<and> p_meta (y_pool (fold f gs s)) = p_meta (y_pool s) \<and>
    p_procs (y_pool (fold f gs s)) = p_procs (y_pool s) \<and>
    set (p_tasks (y_pool (fold f gs s))) =
      set (p_tasks (y_pool s)) \<union> StopTask ` {g \<in> set gs. pid_for (y_pool s) g \<noteq> None}"
proof (induction gs arbitrary: s)
  case (Cons g gs)
  have "pid_for (y_pool (f g s)) h = pid_for (y_pool s) h" for h
    by (simp add: f_def ctl_schedule_stop_def schedule_stop_def pid_for_def)
  with Cons.IH [of "f g s"] show ?case
    by (auto simp: f_def ctl_schedule_stop_def schedule_stop_def)
qed simp

lemma acquire_Inr:
  assumes "acquire io uid user gs d now s = (Inr ls, s')"
  shows "ls = map (new_lease uid user d now (ls_leases s)) gs"
    and "g \<in> set gs \<Longrightarrow> lease_get s' g = Some (new_lease uid user d now (ls_leases s) g)"
  using assms grant_loop_result [of uid user d now gs "ls_leases s"]
    grant_loop_lookup [of uid user d now gs "ls_leases s" g]
  by (auto simp: acquire_def Let_def case_prod_beta persist_cases lease_get_def
      split: sum.splits if_splits)

lemma acquire_Inl:
  "acquire io uid user gs d now s = (Inl e, s') \<Longrightarrow> s' = s \<or> (e = OSError \<and> \<not> io)"
  by (auto simp: acquire_def Let_def case_prod_beta persist_cases split: sum.splits if_splits)

text \<open>Pausing either succeeds for every GPU asked for or changes nothing: on success each GPU is
  watched, is leased to the caller, in the order asked for, and a stop of its worker is under way
  if it has one; on failure no worker is touched, and the leases are as they were unless the
  failure is that of writing the state file.\<close>

theorem pause_outcome:
  "case pause_gpus io now uid user gpus d s of
     (Inr leases, s') \<Rightarrow>
       map l_gpu leases = gpus \<and>
       (\<forall>g \<in> set gpus. g \<in> set (k_watched (y_ctl s)) \<and> lease_holder (y_leases s') g = Some uid \<and>
          (pid_for (y_pool s) g \<noteq> None \<longrightarrow> StopTask g \<in> set (p_tasks (y_pool s')))) \<and>
       running_gpus (y_pool s') = running_gpus (y_pool s)
   | (Inl e, s') \<Rightarrow>
       y_ctl s' = y_ctl s \<and> y_pool s' = y_pool s \<and> y_hist s' = y_hist s \<and>
       (y_leases s' = y_leases s \<or> e = OSError \<and> \<not> io)"
proof (cases "filter (\<lambda>g. g \<notin> set (k_watched (y_ctl s))) gpus = []")
  case False
  then show ?thesis by (simp add: pause_gpus_def Let_def)
next
  case True
  then have w: "\<forall>g \<in> set gpus. g \<in> set (k_watched (y_ctl s))" by (simp add: filter_empty_conv)
  obtain r ls where acq: "acquire io uid user gpus d now (y_leases s) = (r, ls)" by fastforce
  show ?thesis
  proof (cases r)
    case (Inl e)
    with acq True acquire_Inl [of io uid user gpus d now "y_leases s" e ls] show ?thesis
      by (auto simp: pause_gpus_def Let_def)
  next
    case (Inr leases)
    then have acq': "acquire io uid user gpus d now (y_leases s) = (Inr leases, ls)"
      using acq by simp
    let ?s' = "fold (\<lambda>g s. if pid_for (y_pool s) g \<noteq> None then ctl_schedule_stop g s else s)
      gpus (s\<lparr>y_leases := ls\<rparr>)"
    have "pause_gpus io now uid user gpus d s = (Inr leases, ?s')"
      using True acq' by (simp add: pause_gpus_def)
    moreover have "map l_gpu leases = gpus"
      using acquire_Inr(1) [OF acq'] by (simp add: comp_def)
    moreover have "lease_holder (y_leases ?s') g = Some uid" if "g \<in> set gpus" for g
      using acquire_Inr(2) [OF acq' that] stop_fold [of gpus "s\<lparr>y_leases := ls\<rparr>"]
      by (simp add: lease_holder_def)
    ultimately show ?thesis
      using w stop_fold [of gpus "s\<lparr>y_leases := ls\<rparr>"] by (auto simp: running_gpus_def)
  qed
qed

theorem pause_outcome_witness:
  "lease_holder (y_leases (snd (pause_gpus True 0 1001 ''alice'' [7] 60 small_system))) 7 = Some 1001"
proof -
  have "\<exists>ls. fst (pause_gpus True 0 1001 ''alice'' [7] 60 small_system) = Inr ls"
    by (simp add: pause_gpus_def small_simps acquire_def persist_def Let_def)
  with pause_outcome [where io = True and now = 0 and uid = 1001 and user = "''alice''" and
      gpus = "[7]" and d = 60 and s = small_system] show ?thesis
    by (auto split: prod.splits)
qed

end
