(* ===== verification/Protocol.thy ===== *)
theory Protocol
  imports PyText "HOL-Library.Word"
begin

text \<open>
  \<open>src/src/ocp/ipc/protocol.py\<close>: frames (a big-endian 32-bit length and a body of 1 to 2^20
  bytes) and the request and response objects. A byte is an \<open>8 word\<close>. The two directions of
  JSON text in UTF-8 are a \<open>codec\<close>, an argument here; \<open>Json\<close> has the one the program uses. A stream that is being read is the bytes that will arrive before its end.

  The lemmas: the header's round trip at every width, frames read back exactly, objects survive
  the round trip through their dictionaries, and what a decoder rejects.
\<close>

type_synonym byte = "8 word"

record codec =
  cd_dumps :: "pyval \<Rightarrow> byte list res"
  cd_loads :: "byte list \<Rightarrow> pyval res"

definition PROTOCOL_VERSION :: int where
  "PROTOCOL_VERSION = 1"

definition MAX_BODY_BYTES :: nat where
  "MAX_BODY_BYTES = 2 ^ 20"

section \<open>Frames\<close>

text \<open>\<open>struct.pack(">I", n)\<close> and its inverse on a 32-bit word.\<close>

definition pack_I :: "32 word \<Rightarrow> byte list" where
  "pack_I w = [ucast (drop_bit 24 w), ucast (drop_bit 16 w), ucast (drop_bit 8 w), ucast w]"

fun unpack_I :: "byte list \<Rightarrow> 32 word" where
  "unpack_I [a, b, c, d] =
     or (push_bit 24 (ucast a)) (or (push_bit 16 (ucast b)) (or (push_bit 8 (ucast c)) (ucast d)))"
| "unpack_I _ = 0"

definition readexactly :: "nat \<Rightarrow> byte list \<Rightarrow> byte list res \<times> byte list" where
  "readexactly n str =
     (if length str < n then (Inl IncompleteReadError, []) else (Inr (take n str), drop n str))"

definition read_frame :: "byte list \<Rightarrow> byte list res \<times> byte list" where
  "read_frame str =
     (case readexactly 4 str of
        (Inl e, rest) \<Rightarrow> (Inl e, rest)
      | (Inr header, rest) \<Rightarrow>
          let n = unat (unpack_I header) in
          if n = 0 \<or> MAX_BODY_BYTES < n
          then (Inl (ProtocolError [Lit ''frame length out of range: '', Val (PInt (int n))]), rest)
          else readexactly n rest)"

definition frame :: "byte list \<Rightarrow> byte list" where
  "frame body = pack_I (word_of_nat (length body)) @ body"

text \<open>What is written to the connection; \<open>alive\<close> says whether the peer is still there.\<close>

definition write_frame :: "bool \<Rightarrow> byte list \<Rightarrow> byte list res" where
  "write_frame alive body =
     (if MAX_BODY_BYTES < length body
      then Inl (ProtocolError [Lit ''body too large: '', Val (PInt (int (length body)))])
      else if alive then Inr (frame body) else Inl ConnectionLost)"

lemma length_pack_I [simp]: "length (pack_I w) = 4"
  by (simp add: pack_I_def)

lemma unpack_pack: "unpack_I (pack_I w) = w"
proof (rule bit_word_eqI)
  fix n :: nat
  assume "n < LENGTH(32)"
  then have "n < 8 \<or> 8 \<le> n \<and> n < 16 \<or> 16 \<le> n \<and> n < 24 \<or> 24 \<le> n \<and> n < 32" by auto
  then show "bit (unpack_I (pack_I w)) n = bit w n"
    by (auto simp: pack_I_def bit_simps)
qed

lemma read_header: "MAX_BODY_BYTES < 2 ^ 32"
  by (simp add: MAX_BODY_BYTES_def)

lemma frame_length:
  "length body \<le> MAX_BODY_BYTES \<Longrightarrow> unat (word_of_nat (length body) :: 32 word) = length body"
  using read_header by (simp add: unsigned_of_nat take_bit_nat_eq_self)

lemma readexactly_append: "length a = n \<Longrightarrow> readexactly n (a @ b) = (Inr a, b)"
  by (simp add: readexactly_def)

lemma frame_roundtrip_lemma:
  "body \<noteq> [] \<Longrightarrow> length body \<le> MAX_BODY_BYTES \<Longrightarrow> read_frame (frame body @ rest) = (Inr body, rest)"
  by (simp add: read_frame_def frame_def readexactly_append [of "pack_I _"] unpack_pack
      frame_length readexactly_append Let_def)

lemma read_empty_frame:
  "read_frame (frame [] @ rest) =
     (Inl (ProtocolError [Lit ''frame length out of range: '', Val (PInt 0)]), rest)"
  by (simp add: read_frame_def frame_def readexactly_append [of "pack_I _"] unpack_pack Let_def)

text \<open>What \<open>write_frame\<close> puts on a connection, \<open>read_frame\<close> takes off it: the same body, with
  whatever follows left unread. An empty body and one of more than 2^20 bytes are the only ones
  refused, the first by the reader, the second by the writer.\<close>

theorem frame_roundtrip:
  "(case write_frame True body of
      Inl e \<Rightarrow> MAX_BODY_BYTES < length body
    | Inr out \<Rightarrow>
        read_frame (out @ rest) =
          (if body = [] then (Inl (ProtocolError [Lit ''frame length out of range: '', Val (PInt 0)]), rest)
           else (Inr body, rest)))"
  using frame_roundtrip_lemma [of body rest] read_empty_frame [of rest]
  by (auto simp: write_frame_def)

lemma pack_unpack: "length h = 4 \<Longrightarrow> pack_I (unpack_I h) = h"
proof -
  assume "length h = 4"
  then obtain a b c d where h: "h = [a, b, c, d]"
    by (auto simp: length_Suc_conv eval_nat_numeral)
  have "ucast (drop_bit 24 (unpack_I h)) = a"
    by (rule bit_word_eqI) (auto simp: h bit_simps dest: bit_imp_le_length)
  moreover have "ucast (drop_bit 16 (unpack_I h)) = b"
    by (rule bit_word_eqI) (auto simp: h bit_simps dest: bit_imp_le_length)
  moreover have "ucast (drop_bit 8 (unpack_I h)) = c"
    by (rule bit_word_eqI) (auto simp: h bit_simps dest: bit_imp_le_length)
  moreover have "ucast (unpack_I h) = d"
    by (rule bit_word_eqI) (auto simp: h bit_simps dest: bit_imp_le_length)
  ultimately show ?thesis by (simp add: pack_I_def h)
qed

lemma read_frame_sound:
  assumes "read_frame str = (Inr body, rest)"
  shows "str = frame body @ rest \<and> body \<noteq> [] \<and> length body \<le> MAX_BODY_BYTES"
proof -
  let ?n = "unat (unpack_I (take 4 str))"
  have four: "\<not> length str < 4" "readexactly ?n (drop 4 str) = (Inr body, rest)" "?n \<noteq> 0"
    "?n \<le> MAX_BODY_BYTES"
    using assms
    by (auto simp: read_frame_def readexactly_def [of 4] Let_def split: if_splits)
  then have body: "body = take ?n (drop 4 str)" "rest = drop ?n (drop 4 str)"
    "length body = ?n"
    by (auto simp: readexactly_def split: if_splits)
  have "pack_I (word_of_nat ?n) = take 4 str"
    using four(1) by (simp add: pack_unpack)
  with body four show ?thesis by (auto simp: frame_def simp flip: drop_drop)
qed

section \<open>Requests and responses\<close>

definition encode :: "codec \<Rightarrow> pyval \<Rightarrow> byte list res" where
  "encode C obj = cd_dumps C obj"

definition decode :: "codec \<Rightarrow> byte list \<Rightarrow> pyval res" where
  "decode C body =
     (case cd_loads C body of
        Inr v \<Rightarrow> Inr v
      | Inl e \<Rightarrow>
          if e = UnicodeDecodeError \<or> e = JSONDecodeError
          then Inl (ProtocolError [Lit ''invalid JSON: '', Exc e]) else Inl e)"

record request =
  rq_cmd :: string
  rq_args :: "(string \<times> pyval) list"
  rq_id :: string
  rq_v :: int

definition request_to_dict :: "request \<Rightarrow> pyval" where
  "request_to_dict r =
     PDict [(''v'', PInt (rq_v r)), (''id'', PStr (rq_id r)), (''cmd'', PStr (rq_cmd r)),
            (''args'', PDict (rq_args r))]"

definition request_to_bytes :: "codec \<Rightarrow> request \<Rightarrow> byte list res" where
  "request_to_bytes C r = encode C (request_to_dict r)"

text \<open>\<open>uuid\<close> is the identifier \<open>uuid4\<close> would make up.\<close>

definition request_from_dict :: "formatter \<Rightarrow> string \<Rightarrow> pyval \<Rightarrow> request res" where
  "request_from_dict F uuid d =
     (case d of
        PDict kvs \<Rightarrow>
          (case map_of kvs ''cmd'' of
             None \<Rightarrow> Inl (ProtocolError [Lit ''request missing cmd''])
           | Some cmd \<Rightarrow>
               rbind (py_int (dict_get d ''v'' (PInt PROTOCOL_VERSION))) (\<lambda>v.
               if v \<noteq> PROTOCOL_VERSION
               then Inl (ProtocolError [Lit ''unsupported protocol version: '', Val (PInt v)])
               else
                 (case or_empty (dict_get d ''args'' PNone) of
                    PDict args \<Rightarrow>
                      let i = dict_get d ''id'' PNone in
                      Inr \<lparr>rq_cmd = py_str F cmd, rq_args = args,
                           rq_id = (if truthy i then py_str F i else uuid), rq_v = v\<rparr>
                  | _ \<Rightarrow> Inl (ProtocolError [Lit ''request.args must be an object'']))))
      | _ \<Rightarrow> Inl (ProtocolError [Lit ''request missing cmd'']))"

definition request_from_bytes :: "formatter \<Rightarrow> codec \<Rightarrow> string \<Rightarrow> byte list \<Rightarrow> request res" where
  "request_from_bytes F C uuid body = rbind (decode C body) (request_from_dict F uuid)"

record response =
  rs_id :: string
  rs_ok :: bool
  rs_data :: pyval
  rs_error :: pyval
  rs_v :: int

definition success :: "string \<Rightarrow> pyval \<Rightarrow> response" where
  "success req_id data =
     \<lparr>rs_id = req_id, rs_ok = True, rs_data = or_empty data, rs_error = PNone,
      rs_v = PROTOCOL_VERSION\<rparr>"

definition failure :: "formatter \<Rightarrow> string \<Rightarrow> string \<Rightarrow> message \<Rightarrow> pyval \<Rightarrow> response" where
  "failure F req_id errcode msg data =
     (let err = [(''code'', PStr errcode), (''msg'', PStr (render F msg))];
          err = (if truthy data then err @ [(''data'', data)] else err)
      in \<lparr>rs_id = req_id, rs_ok = False, rs_data = PNone, rs_error = PDict err,
          rs_v = PROTOCOL_VERSION\<rparr>)"

definition response_to_dict :: "response \<Rightarrow> pyval" where
  "response_to_dict r =
     PDict [(''v'', PInt (rs_v r)), (''id'', PStr (rs_id r)), (''ok'', PBool (rs_ok r)),
       (if rs_ok r then (''data'', or_empty (rs_data r)) else (''error'', or_empty (rs_error r)))]"

definition response_to_bytes :: "codec \<Rightarrow> response \<Rightarrow> byte list res" where
  "response_to_bytes C r = encode C (response_to_dict r)"

definition response_from_dict :: "formatter \<Rightarrow> pyval \<Rightarrow> response res" where
  "response_from_dict F d =
     (case d of
        PDict kvs \<Rightarrow>
          (case map_of kvs ''ok'' of
             None \<Rightarrow> Inl (ProtocolError [Lit ''response missing ok''])
           | Some okv \<Rightarrow>
               rbind (py_int (dict_get d ''v'' (PInt PROTOCOL_VERSION))) (\<lambda>v.
               Inr \<lparr>rs_id = py_str F (dict_get d ''id'' (PStr [])), rs_ok = truthy okv,
                    rs_data = dict_get d ''data'' PNone, rs_error = dict_get d ''error'' PNone,
                    rs_v = v\<rparr>))
      | _ \<Rightarrow> Inl (ProtocolError [Lit ''response missing ok'']))"

definition response_from_bytes :: "formatter \<Rightarrow> codec \<Rightarrow> byte list \<Rightarrow> response res" where
  "response_from_bytes F C body = rbind (decode C body) (response_from_dict F)"

text \<open>The responses the two constructors make.\<close>

definition built :: "response \<Rightarrow> bool" where
  "built r \<longleftrightarrow> rs_v r = PROTOCOL_VERSION \<and>
     (if rs_ok r then rs_data r \<noteq> PNone \<and> or_empty (rs_data r) = rs_data r \<and> rs_error r = PNone
      else (\<exists>kvs. kvs \<noteq> [] \<and> rs_error r = PDict kvs) \<and> rs_data r = PNone)"

lemma success_built [simp]: "built (success i d)"
  by (cases d) (auto simp: built_def success_def or_empty_def)

lemma failure_built [simp]: "built (failure F i c m d)"
  by (simp add: built_def failure_def Let_def)

lemma response_ids [simp]:
  "rs_id (success i d) = i" "rs_id (failure F i c m d) = i"
  "rs_ok (success i d)" "\<not> rs_ok (failure F i c m d)"
  by (simp_all add: success_def failure_def Let_def)

lemma request_dict_roundtrip:
  "rq_v r = PROTOCOL_VERSION \<Longrightarrow> rq_id r \<noteq> [] \<Longrightarrow>
   request_from_dict F uuid (request_to_dict r) = Inr r"
  by (simp add: request_from_dict_def request_to_dict_def dict_get_def or_empty_def py_str_def)

lemma response_dict_roundtrip: "built r \<Longrightarrow> response_from_dict F (response_to_dict r) = Inr r"
  by (auto simp: response_from_dict_def response_to_dict_def dict_get_def built_def py_str_def
      or_empty_def split: if_splits)

text \<open>Requests and responses survive the wire: whenever the JSON codec gives back the dictionary it
  was given, the daemon reads the very request the client sent, and the client the very response
  the daemon built with \<open>success\<close> or \<open>failure\<close>.\<close>

lemma message_roundtrip:
  assumes "rq_v r = PROTOCOL_VERSION" "rq_id r \<noteq> []" "built s"
    and "request_to_bytes C r = Inr b" "cd_loads C b = Inr (request_to_dict r)"
    and "response_to_bytes C s = Inr c" "cd_loads C c = Inr (response_to_dict s)"
  shows "request_from_bytes F C uuid b = Inr r \<and> response_from_bytes F C c = Inr s"
  using assms request_dict_roundtrip response_dict_roundtrip
  by (simp add: request_from_bytes_def response_from_bytes_def decode_def)

end
