(* ===== verification/Ipc.thy ===== *)
theory Ipc
  imports Protocol Auth
begin

text \<open>
  \<open>src/src/ocp/ipc/client.py\<close> and \<open>src/src/ocp/ipc/server.py\<close>: one call of the client, and
  what the server does with one connection. The client's socket is the list of what its
  \<open>recv\<close> calls will find: pieces of the reply, however the kernel cuts it, or a timeout; its end
  is the end of the stream. The server's handler is a parameter; \<open>request_handler\<close> is the contract
  it has to keep, which the daemon's dispatcher does.
\<close>

section \<open>The client\<close>

datatype arrival = Chunk "byte list" | TimedOut

fun recv :: "nat \<Rightarrow> arrival list \<Rightarrow> byte list res \<times> arrival list" where
  "recv k [] = (Inr [], [])"
| "recv k (TimedOut # as) = (Inl (OtherExn ''TimeoutError''), as)"
| "recv k (Chunk c # as) =
     (if length c \<le> k then (Inr c, as) else (Inr (take k c), Chunk (drop k c) # as))"

function recv_loop :: "nat \<Rightarrow> byte list \<Rightarrow> arrival list \<Rightarrow> byte list res \<times> arrival list" where
  "recv_loop n buf as =
     (if length buf < n
      then (case recv (n - length buf) as of
              (Inl e, rest) \<Rightarrow> (Inl e, rest)
            | (Inr chunk, rest) \<Rightarrow>
                if chunk = []
                then (Inl (IPCClientError [Lit ''connection closed mid-frame'']), rest)
                else recv_loop n (buf @ chunk) rest)
      else (Inr buf, as))"
  by pat_completeness auto
termination
  by (relation "measure (\<lambda>(n, buf, as). n - length buf)") (auto intro!: diff_less_mono2)

declare recv_loop.simps [simp del]

definition recv_exact :: "nat \<Rightarrow> arrival list \<Rightarrow> byte list res \<times> arrival list" where
  "recv_exact n as = recv_loop n [] as"

text \<open>Connecting succeeds, fails because no daemon listens (no socket file, or refused), or fails
  otherwise.\<close>

datatype connection = Connected | NoDaemon exn | ConnectFails exn

definition call_dict :: "string \<Rightarrow> (string \<times> pyval) list \<Rightarrow> pyval" where
  "call_dict cmd args =
     PDict [(''v'', PInt PROTOCOL_VERSION), (''id'', PStr ''cli''), (''cmd'', PStr cmd),
            (''args'', PDict args)]"

definition call_reply :: "codec \<Rightarrow> arrival list \<Rightarrow> pyval res" where
  "call_reply C as =
     (case recv_exact 4 as of
        (Inl e, _) \<Rightarrow> Inl e
      | (Inr header, as1) \<Rightarrow>
          let n = unat (unpack_I header) in
          if n = 0 \<or> MAX_BODY_BYTES < n
          then Inl (IPCClientError [Lit ''bad response frame length: '', Val (PInt (int n))])
          else (case recv_exact n as1 of
                  (Inl e, _) \<Rightarrow> Inl e
                | (Inr body, _) \<Rightarrow>
                    (case cd_loads C body of
                       Inr v \<Rightarrow> Inr v
                     | Inl e \<Rightarrow>
                         if e = UnicodeDecodeError \<or> e = JSONDecodeError
                         then Inl (IPCClientError [Lit ''bad response JSON: '', Exc e])
                         else Inl e)))"

text \<open>The bytes sent and the result; \<open>sent\<close> is what \<open>sendall\<close> raises, if anything.\<close>

definition client_call ::
    "codec \<Rightarrow> connection \<Rightarrow> string \<Rightarrow> exn option \<Rightarrow> string \<Rightarrow> (string \<times> pyval) list \<Rightarrow>
     arrival list \<Rightarrow> byte list \<times> pyval res" where
  "client_call C conn sock_path sent cmd args as =
     (case conn of
        NoDaemon e \<Rightarrow>
          ([], Inl (DaemonDown [Lit (''daemon not reachable at '' @ sock_path @ '': ''), Exc e]))
      | ConnectFails e \<Rightarrow> ([], Inl e)
      | Connected \<Rightarrow>
          (case cd_dumps C (call_dict cmd args) of
             Inl e \<Rightarrow> ([], Inl e)
           | Inr body \<Rightarrow>
               if 2 ^ 32 \<le> length body then ([], Inl (OtherExn ''struct.error''))
               else (case sent of
                       Some e \<Rightarrow> ([], Inl e)
                     | None \<Rightarrow> (frame body, call_reply C as))))"

fun arrived :: "arrival list \<Rightarrow> byte list" where
  "arrived [] = []"
| "arrived (Chunk c # as) = c @ arrived as"
| "arrived (TimedOut # as) = arrived as"

definition plain_chunks :: "arrival list \<Rightarrow> bool" where
  "plain_chunks as \<longleftrightarrow> (\<forall>a \<in> set as. \<exists>c. a = Chunk c \<and> c \<noteq> [])"

lemma recv_plain:
  assumes "plain_chunks as" "0 < k"
  shows "\<exists>c rest. recv k as = (Inr c, rest) \<and> plain_chunks rest \<and> arrived as = c @ arrived rest \<and>
    length c \<le> k \<and> (c = [] \<longrightarrow> as = [])"
proof (cases as)
  case (Cons a as')
  then obtain c where a: "a = Chunk c" "c \<noteq> []" using assms(1) by (auto simp: plain_chunks_def)
  show ?thesis
  proof (cases "length c \<le> k")
    case True
    then show ?thesis using Cons a assms(1) by (auto simp: plain_chunks_def)
  next
    case False
    then have "recv k as = (Inr (take k c), Chunk (drop k c) # as')" "take k c \<noteq> []" "drop k c \<noteq> []"
      using Cons a assms(2) by auto
    then show ?thesis using Cons a assms(1) False by (auto simp: plain_chunks_def)
  qed
qed (simp add: plain_chunks_def)

lemma recv_loop_plain:
  "plain_chunks as \<Longrightarrow> length buf \<le> n \<Longrightarrow>
   (\<exists>rest. recv_loop n buf as =
      (if n \<le> length buf + length (arrived as)
       then Inr (buf @ take (n - length buf) (arrived as))
       else Inl (IPCClientError [Lit ''connection closed mid-frame'']), rest) \<and>
     plain_chunks rest \<and>
     (n \<le> length buf + length (arrived as) \<longrightarrow> arrived rest = drop (n - length buf) (arrived as)))"
proof (induction n buf as rule: recv_loop.induct)
  case (1 n buf as)
  show ?case
  proof (cases "length buf < n")
    case False
    then show ?thesis using 1(2,3) by (simp add: recv_loop.simps [of n buf as])
  next
    case True
    then obtain c rest where r: "recv (n - length buf) as = (Inr c, rest)" "plain_chunks rest"
        "arrived as = c @ arrived rest" "length c \<le> n - length buf" "c = [] \<longrightarrow> as = []"
      using recv_plain [OF 1(2), of "n - length buf"] by auto
    show ?thesis
    proof (cases "c = []")
      case True
      with r \<open>length buf < n\<close> show ?thesis
        by (auto simp: recv_loop.simps [of n buf "[]"] plain_chunks_def)
    next
      case False
      have loop: "recv_loop n buf as = recv_loop n (buf @ c) rest"
        using True r(1) False by (simp add: recv_loop.simps [of n buf as])
      have len: "length (buf @ c) \<le> n" using True r(4) by simp
      have sum: "length (buf @ c) + length (arrived rest) = length buf + length (arrived as)"
        using r(3) by simp
      have cut: "buf @ take (n - length buf) (arrived as) =
          (buf @ c) @ take (n - length (buf @ c)) (arrived rest)"
        "drop (n - length buf) (arrived as) = drop (n - length (buf @ c)) (arrived rest)"
        using r(3,4) by (simp_all add: diff_diff_add)
      show ?thesis
        using 1(1) [OF True r(1) [symmetric] refl False r(2) len] unfolding loop sum cut by simp
    qed
  qed
qed

text \<open>However the kernel cuts the reply into pieces, \<open>_recv_exact\<close> returns the first \<open>n\<close> bytes
  of the stream and leaves the rest, and fails, saying that the connection was closed, exactly
  when the stream ends before that.\<close>

lemma recv_exact_chunks:
  assumes "plain_chunks as"
  shows "\<exists>rest. recv_exact n as =
      (if n \<le> length (arrived as) then Inr (take n (arrived as))
       else Inl (IPCClientError [Lit ''connection closed mid-frame'']), rest) \<and>
    (n \<le> length (arrived as) \<longrightarrow> arrived rest = drop n (arrived as))"
  using recv_loop_plain [OF assms, of "[]" n] by (auto simp: recv_exact_def)

section \<open>The server\<close>

text \<open>What the peer of a connection is: no socket, credentials that cannot be read, or these.\<close>

datatype peer = NoSocket | NoCreds | Creds int int int

type_synonym 's handler = "caller \<Rightarrow> request \<Rightarrow> 's \<Rightarrow> response res \<times> 's"

definition is_protocol_error :: "exn \<Rightarrow> bool" where
  "is_protocol_error e \<longleftrightarrow> (case e of ProtocolError m \<Rightarrow> True | _ \<Rightarrow> False)"

text \<open>What is written to the connection, and the exception that leaves \<open>_on_client\<close>, if any.\<close>

definition send_response :: "codec \<Rightarrow> bool \<Rightarrow> response \<Rightarrow> byte list \<times> exn option" where
  "send_response C alive r =
     (case rbind (response_to_bytes C r) (write_frame alive) of
        Inr out \<Rightarrow> (out, None)
      | Inl e \<Rightarrow> ([], if e = ConnectionLost then None else Some e))"

definition on_client ::
    "formatter \<Rightarrow> codec \<Rightarrow> string \<Rightarrow> (int \<Rightarrow> string option) \<Rightarrow> 's handler \<Rightarrow> peer \<Rightarrow> byte list \<Rightarrow>
     bool \<Rightarrow> 's \<Rightarrow> (byte list \<times> exn option) \<times> 's" where
  "on_client F C uuid getpwuid handle peer input alive s =
     (case peer of
        NoSocket \<Rightarrow> (([], None), s)
      | NoCreds \<Rightarrow> (([], None), s)
      | Creds pid uid gid \<Rightarrow>
          let c = caller_from_creds getpwuid pid uid gid in
          (case fst (read_frame input) of
             Inl e \<Rightarrow>
               (([], if e = IncompleteReadError \<or> is_protocol_error e then None else Some e), s)
           | Inr body \<Rightarrow>
               (case request_from_bytes F C uuid body of
                  Inl e \<Rightarrow>
                    if is_protocol_error e
                    then (send_response C alive (failure F ''?'' ''E_BAD_REQUEST'' [Exc e] PNone), s)
                    else (([], Some e), s)
                | Inr req \<Rightarrow>
                    (case handle c req s of
                       (Inr r, s') \<Rightarrow> (send_response C alive r, s')
                     | (Inl e, s') \<Rightarrow>
                         (send_response C alive
                            (failure F (rq_id req) ''E_BAD_REQUEST''
                               [Lit ''server error: '', Exc e] PNone), s')))))"

text \<open>The server changes the daemon's state only by running the handler, at most once per
  connection, on the request that was decoded from one complete frame and with the caller the
  kernel's credentials name: nothing in the request can change who is asking.\<close>

theorem server_trusts_kernel:
  "snd (on_client F C uuid getpwuid handle peer input alive s) = s \<or>
   (\<exists>pid uid gid body rest req. peer = Creds pid uid gid \<and> input = frame body @ rest \<and>
      request_from_bytes F C uuid body = Inr req \<and>
      snd (on_client F C uuid getpwuid handle peer input alive s) =
        snd (handle (caller_from_creds getpwuid pid uid gid) req s))"
proof (cases peer)
  case (Creds pid uid gid)
  show ?thesis
  proof (cases "fst (read_frame input)")
    case (Inr body)
    then have "input = frame body @ snd (read_frame input)"
      using read_frame_sound [of input body "snd (read_frame input)"] by (simp add: prod_eq_iff)
    with Inr Creds show ?thesis
      by (cases "request_from_bytes F C uuid body")
        (auto simp: on_client_def Let_def split: prod.splits sum.splits)
  qed (simp add: on_client_def Creds)
qed (simp_all add: on_client_def)

section \<open>What a handler owes its server\<close>

locale request_handler =
  fixes handle :: "'s handler"
  assumes echo: "handle c req s = (Inr r, s') \<Longrightarrow> rs_id r = rq_id req"
    and wellbuilt: "handle c req s = (Inr r, s') \<Longrightarrow> built r"
begin

lemma reply:
  assumes "fst (on_client F C uuid getpwuid handle peer input alive s) = (out, err)" "out \<noteq> []"
  shows "\<exists>r body. response_to_bytes C r = Inr body \<and> out = frame body \<and>
    length body \<le> MAX_BODY_BYTES \<and> built r \<and> err = None \<and>
    (rs_id r = ''?'' \<or> (\<exists>b rest req. input = frame b @ rest \<and>
       request_from_bytes F C uuid b = Inr req \<and> rs_id r = rq_id req))"
proof -
  have send: "\<exists>body. response_to_bytes C r = Inr body \<and> out = frame body \<and>
      length body \<le> MAX_BODY_BYTES \<and> err = None"
    if "send_response C alive r = (out, err)" for r
    using that assms(2)
    by (auto simp: send_response_def write_frame_def split: sum.splits if_splits elim: rbind.elims)
  obtain pid uid gid where peer: "peer = Creds pid uid gid"
    using assms by (cases peer) (auto simp: on_client_def)
  obtain b where b: "fst (read_frame input) = Inr b"
    using assms by (cases "fst (read_frame input)") (auto simp: on_client_def peer)
  then have input: "input = frame b @ snd (read_frame input)"
    using read_frame_sound [of input b "snd (read_frame input)"] by (simp add: prod_eq_iff)
  show ?thesis
  proof (cases "request_from_bytes F C uuid b")
    case (Inl e)
    then have "send_response C alive (failure F ''?'' ''E_BAD_REQUEST'' [Exc e] PNone) = (out, err)"
      using assms b by (auto simp: on_client_def peer Let_def split: if_splits)
    from send [OF this] show ?thesis
      using failure_built response_ids(2) by metis
  next
    case (Inr req)
    obtain h s' where h: "handle (caller_from_creds getpwuid pid uid gid) req s = (h, s')"
      by fastforce
    show ?thesis
    proof (cases h)
      case (Inl e)
      then have "send_response C alive (failure F (rq_id req) ''E_BAD_REQUEST''
          [Lit ''server error: '', Exc e] PNone) = (out, err)"
        using assms b Inr h by (simp add: on_client_def peer Let_def)
      from send [OF this] show ?thesis
        using Inr input failure_built response_ids(2) by metis
    next
      case r: (Inr r)
      then have "send_response C alive r = (out, err)"
        using assms b Inr h by (simp add: on_client_def peer Let_def)
      with send h r echo wellbuilt Inr input show ?thesis by metis
    qed
  qed
qed

end

section \<open>A whole call\<close>

lemma frame_header: "take 4 (frame body @ rest) = pack_I (word_of_nat (length body))"
    "drop 4 (frame body @ rest) = body @ rest"
  by (simp_all add: frame_def)

lemma reply_read:
  assumes "plain_chunks as" "arrived as = frame body" "body \<noteq> []" "length body \<le> MAX_BODY_BYTES"
    and "cd_loads C body = Inr v"
  shows "call_reply C as = Inr v"
proof -
  have four: "4 \<le> length (arrived as)" by (simp add: assms(2) frame_def)
  obtain as1 where as1: "recv_exact 4 as = (Inr (pack_I (word_of_nat (length body))), as1)"
      "plain_chunks as1" "arrived as1 = body"
    using recv_loop_plain [OF assms(1), of "[]" 4] four frame_header [of body "[]"]
    by (auto simp: recv_exact_def assms(2))
  obtain as2 where "recv_exact (length body) as1 = (Inr body, as2)"
    using recv_loop_plain [OF as1(2), of "[]" "length body"] as1(3) by (auto simp: recv_exact_def)
  with as1(1) assms(3-5) show ?thesis
    by (simp add: call_reply_def unpack_pack frame_length Let_def)
qed

lemma call_lemma:
  assumes dumps: "cd_dumps C (call_dict cmd args) = Inr b" "b \<noteq> []" "length b \<le> MAX_BODY_BYTES"
    and loads: "cd_loads C b = Inr (call_dict cmd args)"
    and handled: "handle (caller_from_creds getpwuid pid uid gid)
      \<lparr>rq_cmd = cmd, rq_args = args, rq_id = ''cli'', rq_v = 1\<rparr> s = (Inr r, s')"
    and reply: "response_to_bytes C r = Inr c" "c \<noteq> []" "length c \<le> MAX_BODY_BYTES"
      "cd_loads C c = Inr (response_to_dict r)"
    and served: "on_client F C uuid getpwuid handle (Creds pid uid gid)
      (fst (client_call C Connected path None cmd args as)) True s = ((out, err), t)"
    and arrives: "plain_chunks as" "arrived as = out"
  shows "t = s' \<and> err = None \<and> snd (client_call C Connected path None cmd args as) =
    Inr (response_to_dict r)"
proof -
  have small: "\<not> 2 ^ 32 \<le> length b" using dumps(3) read_header by simp
  have sent: "client_call C Connected path None cmd args as = (frame b, call_reply C as)"
    using dumps(1) small by (simp add: client_call_def)
  have "read_frame (frame b @ []) = (Inr b, [])"
    using frame_roundtrip_lemma [OF dumps(2,3), of "[]"] .
  moreover have "request_from_bytes F C uuid b =
      Inr \<lparr>rq_cmd = cmd, rq_args = args, rq_id = ''cli'', rq_v = 1\<rparr>"
    using loads request_dict_roundtrip [of "\<lparr>rq_cmd = cmd, rq_args = args, rq_id = ''cli'', rq_v = 1\<rparr>"]
    by (simp add: request_from_bytes_def decode_def call_dict_def request_to_dict_def
        PROTOCOL_VERSION_def)
  ultimately have "out = frame c \<and> err = None \<and> t = s'"
    using served handled reply
    by (auto simp: on_client_def sent send_response_def write_frame_def Let_def)
  moreover from this have "call_reply C as = Inr (response_to_dict r)"
    using reply_read [OF arrives(1)] arrives(2) reply(2-4) by simp
  ultimately show ?thesis by (simp add: sent)
qed

text \<open>A call goes through from end to end: when the request and the reply encode to 1 to 2^20
  bytes that decode to what was encoded, the handler runs on exactly the client's command and
  arguments, and the client gets the dictionary of exactly the response the handler gave, however
  the reply is cut into pieces on the way.\<close>

theorem call_end_to_end:
  assumes dumps: "cd_dumps C (call_dict cmd args) = Inr b" "b \<noteq> []" "length b \<le> MAX_BODY_BYTES"
    and loads: "cd_loads C b = Inr (call_dict cmd args)"
    and handled: "handle (caller_from_creds getpwuid pid uid gid)
      \<lparr>rq_cmd = cmd, rq_args = args, rq_id = ''cli'', rq_v = 1\<rparr> s = (Inr r, s')"
    and reply: "response_to_bytes C r = Inr c" "c \<noteq> []" "length c \<le> MAX_BODY_BYTES"
      "cd_loads C c = Inr (response_to_dict r)"
    and served: "on_client F C uuid getpwuid handle (Creds pid uid gid)
      (fst (client_call C Connected path None cmd args as)) True s = ((out, err), t)"
    and arrives: "plain_chunks as" "arrived as = out"
  shows "t = s' \<and> err = None \<and> snd (client_call C Connected path None cmd args as) =
    Inr (response_to_dict r)"
  using assms by (rule call_lemma)

text \<open>A small codec and handler for examples.\<close>

definition tiny_codec :: "pyval \<Rightarrow> byte list \<Rightarrow> codec" where
  "tiny_codec rep out =
     \<lparr>cd_dumps = (\<lambda>v. Inr (if v = call_dict ''GET_STATUS'' [] then [1] else out)),
      cd_loads = (\<lambda>b. Inr (if b = [1] then call_dict ''GET_STATUS'' [] else rep))\<rparr>"

definition count_handler :: "nat handler" where
  "count_handler c req s = (Inr (success (rq_id req) (PDict [])), Suc s)"

lemmas tiny_simps = tiny_codec_def count_handler_def call_dict_def success_def response_to_dict_def
  response_to_bytes_def encode_def decode_def PROTOCOL_VERSION_def MAX_BODY_BYTES_def

lemma tiny_frames: "frame [1] = [0, 0, 0, 1, 1]" "frame [2] = [0, 0, 0, 1, 2]"
  by (simp_all add: frame_def pack_I_def)

lemma tiny_read: "fst (read_frame [0, 0, 0, 1, 1]) = Inr [1]"
  using frame_roundtrip_lemma [of "[1]" "[]"] by (simp add: tiny_frames MAX_BODY_BYTES_def)

lemma tiny_request:
  "request_from_bytes F (tiny_codec rep out) u [1] =
     Inr \<lparr>rq_cmd = ''GET_STATUS'', rq_args = [], rq_id = ''cli'', rq_v = 1\<rparr>"
  by (simp add: request_from_bytes_def request_from_dict_def dict_get_def or_empty_def py_str_def
      tiny_simps)

lemma tiny_send:
  "send_response (tiny_codec rep [2]) True (success i (PDict [])) = ([0, 0, 0, 1, 2], None)"
  by (simp add: send_response_def write_frame_def tiny_simps) (simp add: tiny_frames)

theorem call_end_to_end_witness:
  "snd (client_call (tiny_codec (response_to_dict (success ''cli'' (PDict []))) [2]) Connected ''/run/ocp/ocpd.sock''
      None ''GET_STATUS'' [] [Chunk [0, 0], Chunk [0, 1, 2]]) =
   Inr (response_to_dict (success ''cli'' (PDict [])))"
proof -
  let ?C = "tiny_codec (response_to_dict (success ''cli'' (PDict []))) [2]"
  let ?as = "[Chunk [0, 0], Chunk [0, 1, 2]]"
  have served: "on_client F ?C u gp count_handler (Creds 10 1001 100)
      (fst (client_call ?C Connected ''/run/ocp/ocpd.sock'' None ''GET_STATUS'' [] ?as)) True 0 =
      (([0, 0, 0, 1, 2], None), 1)" for F u gp
  proof -
    have sent: "fst (client_call ?C Connected ''/run/ocp/ocpd.sock'' None ''GET_STATUS'' [] ?as) = [0, 0, 0, 1, 1]"
      by (simp add: client_call_def tiny_codec_def tiny_frames)
    show ?thesis
      unfolding sent using tiny_read tiny_request [of F _ _ u] tiny_send
      by (simp add: on_client_def count_handler_def Let_def)
  qed
  show ?thesis
    by (rule call_end_to_end [where b = "[1]" and c = "[2]" and s = 0 and s' = 1 and
          F = F and uuid = u and getpwuid = gp and t = 1 and err = None and pid = 10 and uid = 1001
          and gid = 100, OF _ _ _ _ _ _ _ _ _ served, THEN conjunct2, THEN conjunct2])
      (simp_all add: tiny_simps plain_chunks_def)
qed

text \<open>A response that encodes to more than 2^20 bytes never reaches the client: ProtocolError
  leaves \<open>_on_client\<close> uncaught and nothing is written, although the handler has run.\<close>

theorem oversized_response_lost:
  assumes "fst (read_frame input) = Inr b" "request_from_bytes F C uuid b = Inr req"
    and "handle (caller_from_creds getpwuid pid uid gid) req s = (Inr r, s')"
    and "response_to_bytes C r = Inr c" "MAX_BODY_BYTES < length c"
  shows "\<exists>m. on_client F C uuid getpwuid handle (Creds pid uid gid) input alive s =
    (([], Some (ProtocolError m)), s')"
  using assms by (simp add: on_client_def send_response_def write_frame_def Let_def)

theorem oversized_response_lost_witness:
  "\<exists>m. on_client plain_fmt (tiny_codec PNone (replicate (2 ^ 20 + 1) 0)) [] (\<lambda>_. None) count_handler
      (Creds 10 1001 100) [0, 0, 0, 1, 1] True 0 = (([], Some (ProtocolError m)), 1)"
  by (rule oversized_response_lost [OF tiny_read tiny_request])
    (simp add: tiny_simps, simp add: tiny_simps, unfold length_replicate MAX_BODY_BYTES_def, simp)

end
