(* ===== verification/Daemon.thy ===== *)
theory Daemon
  imports Policy Ipc
begin

text \<open>
  \<open>src/src/ocp/daemon.py\<close>: the IPC commands on the daemon's state, their authorization, and the
  configuration reload. A command runs to its end without suspending, so it is one function from
  the daemon to a response (or the exception that leaves \<open>_dispatch\<close>) and the daemon after it.
  What surrounds a command is a \<open>serve_env\<close>: the wall clock, whether the state file can be
  written, what the configuration file holds and which devices NVML lists.
\<close>

record daemon =
  dm_cfg :: config
  dm_sys :: system
  dm_nvml_ok :: bool
  dm_started_at :: real
  dm_pid :: int

record serve_env =
  sv_fmt :: formatter
  sv_now :: real
  sv_io :: bool
  sv_socket :: string
  sv_cfg_path :: string
  sv_cfg_file :: cfg_file
  sv_enumerate :: "int list res"

definition any_cmds :: "string list" where
  "any_cmds = [''GET_STATUS'', ''HISTORY_GET'', ''CONFIG_LIST'']"

definition whitelist_cmds :: "string list" where
  "whitelist_cmds = [''PAUSE'', ''RESUME'']"

definition root_cmds :: "string list" where
  "root_cmds = [''CONFIG_RELOAD'']"

definition all_cmds :: "string list" where
  "all_cmds = any_cmds @ whitelist_cmds @ root_cmds"

definition daemon_init :: "config \<Rightarrow> int \<Rightarrow> real \<Rightarrow> state_file \<Rightarrow> hfile \<Rightarrow> daemon res" where
  "daemon_init cfg pid now state_disk history_disk =
     rbind (history_init history_disk (max_entries (history cfg))) (\<lambda>h.
       Inr \<lparr>dm_cfg = cfg,
            dm_sys = \<lparr>y_ctl = controller_init cfg,
              y_leases = \<lparr>ls_leases = [], ls_disk = state_disk\<rparr>,
              y_pool = pool_init (worker cfg), y_hist = h\<rparr>,
            dm_nvml_ok = False, dm_started_at = now, dm_pid = pid\<rparr>)"

definition dm_record ::
    "real \<Rightarrow> int \<Rightarrow> string \<Rightarrow> string \<Rightarrow> pyval \<Rightarrow> bool \<Rightarrow> pyval \<Rightarrow> pyval \<Rightarrow> daemon \<Rightarrow> daemon" where
  "dm_record now uid user cmd args ok error note d =
     d\<lparr>dm_sys := (dm_sys d)\<lparr>y_hist := record_entry now uid user cmd args ok error note
       (y_hist (dm_sys d))\<rparr>\<rparr>"

section \<open>Status\<close>

definition opt_val :: "('a \<Rightarrow> pyval) \<Rightarrow> pyval \<Rightarrow> 'a option \<Rightarrow> pyval" where
  "opt_val f dflt x = (case x of None \<Rightarrow> dflt | Some a \<Rightarrow> f a)"

definition worker_status :: "real \<Rightarrow> worker_proc option \<Rightarrow> pyval" where
  "worker_status now = opt_val (\<lambda>w.
     PDict [(''pid'', PInt (wp_pid w)), (''uptime_s'', PInt (trunc (now - wp_started_at w)))]) PNone"

definition lease_status :: "real \<Rightarrow> lease option \<Rightarrow> pyval res" where
  "lease_status now l =
     (case l of
        None \<Rightarrow> Inr PNone
      | Some l \<Rightarrow> rbind (remaining_s l now) (\<lambda>r.
          Inr (PDict [(''user'', PStr (l_user l)), (''uid'', PInt (l_uid l)),
                 (''remaining_s'', PInt r), (''expires_at'', PFloat (l_expires_at l))])))"

definition gpu_status :: "real \<Rightarrow> system \<Rightarrow> int \<times> device_state \<Rightarrow> pyval res" where
  "gpu_status now s x =
     (case x of (g, st) \<Rightarrow>
        let sample = d_last_sample st in
        rbind (lease_status now (lease_get (y_leases s) g)) (\<lambda>ls.
        Inr (PDict
          [(''gpu'', PInt g),
           (''util_pct'', opt_val (\<lambda>x. PInt (s_util_pct x)) PNone sample),
           (''mem_used_mb'', opt_val (\<lambda>x. PInt (s_mem_used_mb x)) PNone sample),
           (''mem_total_mb'', opt_val (\<lambda>x. PInt (s_mem_total_mb x)) PNone sample),
           (''compute_pids'', opt_val (\<lambda>x. PList (map PInt (s_compute_pids x))) (PList []) sample),
           (''monitor_error'', opt_val (\<lambda>x. opt_val PStr PNone (s_error x)) PNone sample),
           (''worker'', worker_status now (worker_get (y_pool s) g)),
           (''lease'', ls),
           (''decision'', PStr (d_last_decision st))])))"

definition handle_status :: "serve_env \<Rightarrow> daemon \<Rightarrow> pyval res" where
  "handle_status env d =
     (let s = dm_sys d; now = sv_now env in
      rbind (rmap (gpu_status now s) (sort_key fst (k_states (y_ctl s)))) (\<lambda>gpus.
      Inr (PDict
        [(''daemon'', PDict
           [(''pid'', PInt (dm_pid d)),
            (''uptime_s'', PInt (trunc (now - dm_started_at d))),
            (''socket'', PStr (sv_socket env)),
            (''nvml_ok'', PBool (dm_nvml_ok d))]),
         (''watched'', PList (map PInt (k_watched (y_ctl s)))),
         (''gpus'', PList gpus)])))"

section \<open>History\<close>

definition opt_res :: "bool \<Rightarrow> 'a res \<Rightarrow> 'a option res" where
  "opt_res given r = (if given then rbind r (\<lambda>x. Inr (Some x)) else Inr None)"

definition handle_history :: "serve_env \<Rightarrow> caller \<Rightarrow> request \<Rightarrow> daemon \<Rightarrow> pyval res" where
  "handle_history env c req d =
     (let args = PDict (rq_args req);
          n = dict_get args ''n'' PNone;
          since = dict_get args ''since_s'' PNone;
          user = dict_get args ''user'' PNone;
          uid = (if truthy (dict_get args ''mine'' PNone) then PInt (c_uid c)
                 else dict_get args ''uid'' PNone)
      in rbind (opt_res (truthy n) (py_int n)) (\<lambda>n.
         rbind (opt_res (truthy since) (py_float since)) (\<lambda>since.
         rbind (opt_res (uid \<noteq> PNone) (py_int uid)) (\<lambda>uid.
         Inr (PDict [(''entries'', PList (map entry_to_dict
           (query (sv_now env) n since
              (if truthy user then Some (py_str (sv_fmt env) user) else None) uid
              (y_hist (dm_sys d)))))])))))"

section \<open>Configuration reload\<close>

definition as_int :: "pyval \<Rightarrow> int res" where
  "as_int v = (case v of PInt i \<Rightarrow> Inr i | _ \<Rightarrow> Inl TypeError)"

text \<open>
  The watched devices: the configured ones, or those NVML lists. A validated \<open>indices\<close> holds
  integers only, so the error of \<open>as_int\<close> does not occur on one (\<open>resolve_watched_ok\<close>).
\<close>

definition resolve_watched :: "serve_env \<Rightarrow> daemon \<Rightarrow> int list res" where
  "resolve_watched env d =
     (let ind = indices (gpu (dm_cfg d)) in
      if truthy ind then rbind (py_iter ind) (rmap as_int)
      else if dm_nvml_ok d then sv_enumerate env else Inr [])"

text \<open>Python's \<open>==\<close> on the values a section can hold.\<close>

function py_equal :: "pyval \<Rightarrow> pyval \<Rightarrow> bool" where
  "py_equal a b =
     (case (a, b) of
        (PList xs, PList ys) \<Rightarrow>
          length xs = length ys \<and> (\<forall>p \<in> set (zip xs ys). py_equal (fst p) (snd p))
      | (PDict xs, PDict ys) \<Rightarrow>
          length xs = length ys \<and>
          (\<forall>p \<in> set xs. case map_of ys (fst p) of None \<Rightarrow> False | Some v \<Rightarrow> py_equal (snd p) v)
      | _ \<Rightarrow> py_eq a b)"
  by pat_completeness auto

lemma size_in_list: "(x, y) \<in> set (zip xs ys) \<Longrightarrow> size x < Suc (size_list size xs)"
  by (induction xs ys rule: list_induct2') auto

lemma size_in_dict: "(k, v) \<in> set xs \<Longrightarrow> size v < Suc (size_list (size_prod (\<lambda>_. 0) size) xs)"
  by (induction xs) auto

termination py_equal
  by (relation "measure (\<lambda>(a, b). size a)") (auto simp: size_in_list size_in_dict)

definition diff_summary :: "config \<Rightarrow> config \<Rightarrow> string" where
  "diff_summary old new =
     (let same = (\<lambda>name. case (map_of (config_to_dict old) name, map_of (config_to_dict new) name) of
            (Some a, Some b) \<Rightarrow> py_equal a b | _ \<Rightarrow> True);
          changed = filter (\<lambda>name. \<not> same name) known_sections
      in ''changed sections: '' @ (if changed = [] then ''none'' else join '', '' changed))"

definition actor_uid :: "caller option \<Rightarrow> int" where
  "actor_uid actor = (case actor of None \<Rightarrow> 0 | Some c \<Rightarrow> c_uid c)"

definition actor_user :: "caller option \<Rightarrow> string" where
  "actor_user actor = (case actor of None \<Rightarrow> ''(auto)'' | Some c \<Rightarrow> c_user c)"

definition swap_config :: "config \<Rightarrow> daemon \<Rightarrow> daemon" where
  "swap_config cfg d =
     (let s = dm_sys d in
      d\<lparr>dm_cfg := cfg,
        dm_sys := s\<lparr>y_ctl := replace_config cfg (y_ctl s),
                    y_pool := replace_worker_config (worker cfg) (y_pool s)\<rparr>\<rparr>)"

definition apply_new_config ::
    "serve_env \<Rightarrow> config \<Rightarrow> caller option \<Rightarrow> daemon \<Rightarrow> exn option \<times> daemon" where
  "apply_new_config env cfg actor d =
     (let d1 = swap_config cfg d; s1 = dm_sys d1;
          (err, h) = set_max_entries (max_entries (history cfg)) (y_hist s1);
          d2 = d1\<lparr>dm_sys := s1\<lparr>y_hist := h\<rparr>\<rparr>
      in case err of
           Some e \<Rightarrow> (Some e, d2)
         | None \<Rightarrow>
             (case resolve_watched env d2 of
                Inl e \<Rightarrow> (Some e, d2)
              | Inr gpus \<Rightarrow>
                  (None, dm_record (sv_now env) (actor_uid actor) (actor_user actor) ''config_reload''
                     PNone True PNone (PStr (diff_summary (dm_cfg d) cfg))
                     (d2\<lparr>dm_sys := (dm_sys d2)\<lparr>y_ctl := set_watched gpus (y_ctl (dm_sys d2))\<rparr>\<rparr>))))"

definition is_config_error :: "exn \<Rightarrow> bool" where
  "is_config_error e \<longleftrightarrow> (case e of ConfigError m \<Rightarrow> True | _ \<Rightarrow> False)"

definition record_bad_config :: "serve_env \<Rightarrow> caller option \<Rightarrow> exn \<Rightarrow> daemon \<Rightarrow> daemon" where
  "record_bad_config env actor e =
     dm_record (sv_now env) (actor_uid actor) (actor_user actor) ''config_reload'' PNone False
       (PStr ''E_BAD_CONFIG'') (PStr (fmt_exn (sv_fmt env) e))"

definition handle_config_reload ::
    "serve_env \<Rightarrow> caller \<Rightarrow> request \<Rightarrow> daemon \<Rightarrow> response res \<times> daemon" where
  "handle_config_reload env c req d =
     (case load_config (sv_cfg_path env) (sv_cfg_file env) of
        Inl e \<Rightarrow>
          if is_config_error e
          then (Inr (failure (sv_fmt env) (rq_id req) ''E_BAD_CONFIG'' [Exc e] PNone),
                record_bad_config env (Some c) e d)
          else (Inl e, d)
      | Inr cfg \<Rightarrow>
          (case apply_new_config env cfg (Some c) d of
             (Some e, d') \<Rightarrow> (Inl e, d')
           | (None, d') \<Rightarrow>
               (Inr (success (rq_id req) (PDict [(''config'', PDict (config_to_dict cfg))])), d')))"

text \<open>The reload on SIGHUP, a task of its own; an exception ends the task.\<close>

definition reload_config :: "serve_env \<Rightarrow> caller option \<Rightarrow> daemon \<Rightarrow> exn option \<times> daemon" where
  "reload_config env actor d =
     (case load_config (sv_cfg_path env) (sv_cfg_file env) of
        Inl e \<Rightarrow> if is_config_error e then (None, record_bad_config env actor e d) else (Some e, d)
      | Inr cfg \<Rightarrow> apply_new_config env cfg actor d)"

section \<open>Pause and resume\<close>

fun plain_ints :: "pyval list \<Rightarrow> int list option" where
  "plain_ints [] = Some []"
| "plain_ints (PInt i # xs) = map_option ((#) i) (plain_ints xs)"
| "plain_ints _ = None"

text \<open>A non-empty list of integers, none of them a bool.\<close>

definition gpu_list :: "pyval \<Rightarrow> int list option" where
  "gpu_list v = (case v of PList xs \<Rightarrow> if xs = [] then None else plain_ints xs | _ \<Rightarrow> None)"

definition ints :: "int list \<Rightarrow> pyval" where
  "ints is = PList (map PInt is)"

definition conflict_dict :: "conflict \<Rightarrow> pyval" where
  "conflict_dict c =
     PDict [(''gpu'', PInt (cf_gpu c)), (''holder'', PStr (cf_holder c)),
            (''remaining_s'', PInt (cf_remaining c))]"

definition lease_reply :: "real \<Rightarrow> lease \<Rightarrow> pyval res" where
  "lease_reply now l =
     rbind (remaining_s l now) (\<lambda>r.
       Inr (PDict [(''user'', PStr (l_user l)), (''uid'', PInt (l_uid l)), (''gpu'', PInt (l_gpu l)),
              (''expires_at'', PFloat (l_expires_at l)), (''remaining_s'', PInt r)]))"

text \<open>\<open>strftime(..., localtime(t))\<close> raises on what is not a finite time.\<close>

definition clock_text :: "formatter \<Rightarrow> pyfloat \<Rightarrow> string res" where
  "clock_text F t =
     (case t of Fin r \<Rightarrow> Inr (fmt_clock F t) | NaN \<Rightarrow> Inl ValueError | _ \<Rightarrow> Inl OverflowError)"

text \<open>The checks of a pause request in their order: the refusal, or the GPUs and the duration.\<close>

definition check_pause ::
    "formatter \<Rightarrow> request \<Rightarrow> daemon \<Rightarrow> (response + int list \<times> int) res" where
  "check_pause F req d =
     (let args = PDict (rq_args req);
          duration = dict_get args ''duration_s'' PNone;
          watched = k_watched (y_ctl (dm_sys d));
          lo = min_duration_s (pause (dm_cfg d));
          hi = max_duration_s (pause (dm_cfg d));
          fail = failure F (rq_id req)
      in case gpu_list (dict_get args ''gpus'' PNone) of
           None \<Rightarrow> Inr (Inl (fail ''E_BAD_GPU_SET'' [Lit ''gpus must be a non-empty list of ints''] PNone))
         | Some gpus \<Rightarrow>
             if \<not> distinct gpus
             then Inr (Inl (fail ''E_BAD_GPU_SET'' [Lit ''duplicate gpu in request''] PNone))
             else
               let bad = filter (\<lambda>g. g \<notin> set watched) gpus in
               if bad \<noteq> []
               then Inr (Inl (fail ''E_BAD_GPU_SET''
                 [Lit ''gpus not in watched set: '', Val (ints bad)]
                 (PDict [(''watched'', ints (sort (remdups watched)))])))
               else if num_of duration = None \<or> py_le duration (PInt 0) = Inr True
               then Inr (Inl (fail ''E_BAD_DURATION'' [Lit ''duration_s must be > 0''] PNone))
               else
                 rbind (py_int duration) (\<lambda>dur.
                 rbind (py_lt (PInt dur) lo) (\<lambda>short.
                 if short
                 then Inr (Inl (fail ''E_PAUSE_TOO_SHORT''
                   [Lit ''duration < '', Val lo, Lit ''s''] (PDict [(''min_s'', lo)])))
                 else
                   rbind (py_lt hi (PInt dur)) (\<lambda>long.
                   if long
                   then Inr (Inl (fail ''E_PAUSE_TOO_LONG''
                     [Lit ''duration > '', Val hi, Lit ''s''] (PDict [(''max_s'', hi)])))
                   else Inr (Inr (gpus, dur))))))"

definition pause_args :: "int list \<Rightarrow> int \<Rightarrow> pyval" where
  "pause_args gpus dur = PDict [(''gpus'', ints gpus), (''duration_s'', PInt dur)]"

definition pause_held ::
    "serve_env \<Rightarrow> caller \<Rightarrow> request \<Rightarrow> int list \<Rightarrow> int \<Rightarrow> conflict list \<Rightarrow> daemon \<Rightarrow> response \<times> daemon" where
  "pause_held env c req gpus dur cs d =
     (failure (sv_fmt env) (rq_id req) ''E_PAUSE_HELD''
        [Lit (join ''; '' (map (\<lambda>x. ''gpu '' @ dec_int (cf_gpu x) @ '' reserved by '' @ cf_holder x @
           '' ('' @ dec_int (cf_remaining x) @ ''s left)'') cs))]
        (PDict [(''conflicts'', PList (map conflict_dict cs))]),
      dm_record (sv_now env) (c_uid c) (c_user c) ''pause'' (pause_args gpus dur) False
        (PStr ''E_PAUSE_HELD'')
        (PStr (join '', '' (map (\<lambda>x. ''gpu='' @ dec_int (cf_gpu x) @ '' held by '' @ cf_holder x) cs)))
        d)"

definition handle_pause ::
    "serve_env \<Rightarrow> caller \<Rightarrow> request \<Rightarrow> daemon \<Rightarrow> response res \<times> daemon" where
  "handle_pause env c req d =
     (case check_pause (sv_fmt env) req d of
        Inl e \<Rightarrow> (Inl e, d)
      | Inr (Inl resp) \<Rightarrow> (Inr resp, d)
      | Inr (Inr (gpus, dur)) \<Rightarrow>
          (case pause_gpus (sv_io env) (sv_now env) (c_uid c) (c_user c) gpus dur (dm_sys d) of
             (Inl e, s) \<Rightarrow>
               let d1 = d\<lparr>dm_sys := s\<rparr> in
               (case e of
                  PauseHeld cs \<Rightarrow>
                    let (r, d2) = pause_held env c req gpus dur cs d1 in (Inr r, d2)
                | _ \<Rightarrow> (Inl e, d1))
           | (Inr leases, s) \<Rightarrow>
               let d1 = d\<lparr>dm_sys := s\<rparr> in
               (case clock_text (sv_fmt env) (l_expires_at (hd leases)) of
                  Inl e \<Rightarrow> (Inl e, d1)
                | Inr clock \<Rightarrow>
                    let d2 = dm_record (sv_now env) (c_uid c) (c_user c) ''pause''
                      (pause_args gpus dur) True PNone (PStr (''expires at '' @ clock)) d1
                    in (rbind (rmap (lease_reply (sv_now env)) leases) (\<lambda>ls.
                          Inr (success (rq_id req) (PDict [(''leases'', PList ls)]))), d2))))"

definition error_dict :: "release_error \<Rightarrow> pyval" where
  "error_dict x =
     PDict ([(''gpu'', PInt (re_gpu x)), (''code'', PStr (re_code x))] @
            (case re_holder x of None \<Rightarrow> [] | Some u \<Rightarrow> [(''holder'', PStr u)]))"

definition record_resumes ::
    "real \<Rightarrow> caller \<Rightarrow> int list \<Rightarrow> release_error list \<Rightarrow> daemon \<Rightarrow> daemon" where
  "record_resumes now c released errors d =
     fold (\<lambda>x. dm_record now (c_uid c) (c_user c) ''resume'' (gpu_args (re_gpu x)) False
        (PStr (re_code x)) PNone) errors
       (fold (\<lambda>g. dm_record now (c_uid c) (c_user c) ''resume'' (gpu_args g) True PNone PNone)
          released d)"

definition handle_resume ::
    "serve_env \<Rightarrow> caller \<Rightarrow> request \<Rightarrow> daemon \<Rightarrow> response res \<times> daemon" where
  "handle_resume env c req d =
     (let fail = failure (sv_fmt env) (rq_id req) in
      case gpu_list (dict_get (PDict (rq_args req)) ''gpus'' PNone) of
        None \<Rightarrow> (Inr (fail ''E_BAD_GPU_SET'' [Lit ''gpus must be a non-empty list of ints''] PNone), d)
      | Some gpus \<Rightarrow>
          if \<not> distinct gpus
          then (Inr (fail ''E_BAD_GPU_SET'' [Lit ''duplicate gpu in request''] PNone), d)
          else
            (case resume_gpus (sv_io env) (c_uid c) gpus (is_root c) (dm_sys d) of
               (Inl e, s) \<Rightarrow> (Inl e, d\<lparr>dm_sys := s\<rparr>)
             | (Inr (released, errors), s) \<Rightarrow>
                 let d1 = record_resumes (sv_now env) c released errors (d\<lparr>dm_sys := s\<rparr>);
                     errs = PList (map error_dict errors)
                 in (Inr (if released \<noteq> []
                      then success (rq_id req) (PDict [(''released'', ints released), (''errors'', errs)])
                      else fail (if errors \<noteq> [] then re_code (hd errors) else ''E_NO_PAUSE'')
                             [Lit ''no GPUs released''] (PDict [(''errors'', errs)])), d1)))"

section \<open>Dispatch\<close>

definition format_allowed :: "formatter \<Rightarrow> pyval \<Rightarrow> string res" where
  "format_allowed F wl =
     (if truthy wl then rbind (py_iter wl) (\<lambda>es. Inr (join '', '' (map (py_str F) es)))
      else Inr ''(only root)'')"

definition refuse_unlisted :: "serve_env \<Rightarrow> request \<Rightarrow> daemon \<Rightarrow> response res" where
  "refuse_unlisted env req d =
     (let wl = whitelist (multiuser (dm_cfg d)) in
      rbind (format_allowed (sv_fmt env) wl) (\<lambda>allowed.
      rbind (py_iter wl) (\<lambda>es.
      Inr (failure (sv_fmt env) (rq_id req) ''E_NOT_WHITELISTED''
        [Lit ''you are not whitelisted; allowed: '', Lit allowed] (PDict [(''allowed'', PList es)])))))"

definition run_cmd :: "serve_env \<Rightarrow> caller \<Rightarrow> string \<Rightarrow> request \<Rightarrow> daemon \<Rightarrow> response res \<times> daemon" where
  "run_cmd env c cmd req d =
     (if cmd = ''GET_STATUS''
      then (rbind (handle_status env d) (\<lambda>v. Inr (success (rq_id req) v)), d)
      else if cmd = ''HISTORY_GET''
      then (rbind (handle_history env c req d) (\<lambda>v. Inr (success (rq_id req) v)), d)
      else if cmd = ''CONFIG_LIST''
      then (Inr (success (rq_id req) (PDict [(''config'', PDict (config_to_dict (dm_cfg d)))])), d)
      else if cmd = ''CONFIG_RELOAD'' then handle_config_reload env c req d
      else if cmd = ''PAUSE'' then handle_pause env c req d
      else if cmd = ''RESUME'' then handle_resume env c req d
      else (Inr (failure (sv_fmt env) (rq_id req) ''E_BAD_REQUEST''
             [Lit ''unhandled cmd: '', Lit cmd] PNone), d))"

definition dispatch :: "serve_env \<Rightarrow> caller \<Rightarrow> request \<Rightarrow> daemon \<Rightarrow> response res \<times> daemon" where
  "dispatch env c req d =
     (let cmd = upper (rq_cmd req); fail = failure (sv_fmt env) (rq_id req) in
      if cmd \<notin> set all_cmds
      then (Inr (fail ''E_BAD_REQUEST'' [Lit ''unknown cmd: '', Lit (rq_cmd req)] PNone), d)
      else if cmd \<in> set root_cmds \<and> \<not> is_root c
      then (Inr (fail ''E_NOT_ROOT'' [Lit (lower cmd), Lit '' requires root''] PNone), d)
      else
        (case (if cmd \<in> set whitelist_cmds
               then is_whitelisted c (whitelist (multiuser (dm_cfg d))) else Inr True) of
           Inl e \<Rightarrow> (Inl e, d)
         | Inr False \<Rightarrow> (refuse_unlisted env req d, d)
         | Inr True \<Rightarrow>
             (case run_cmd env c cmd req d of
                (Inr r, d') \<Rightarrow> (Inr r, d')
              | (Inl e, d') \<Rightarrow>
                  (Inr (fail ''E_BAD_REQUEST'' [Lit ''internal error: '', Exc e] PNone), d'))))"

section \<open>Background tasks\<close>

text \<open>
  One round of \<open>_lease_expiry_loop\<close>: how long it sleeps, and the sweep after it. The minimum is
  taken as Python's \<open>min\<close> does, keeping the first of what does not compare less.
\<close>

definition py_min :: "pyfloat \<Rightarrow> pyfloat \<Rightarrow> pyfloat" where
  "py_min a b = (if b < a then b else a)"

definition expiry_sleep :: "real \<Rightarrow> lease_store \<Rightarrow> pyfloat" where
  "expiry_sleep now ls =
     (case map l_expires_at (lease_all ls) of
        [] \<Rightarrow> Fin 30
      | t # ts \<Rightarrow> py_min (fmax (Fin 0) (fsub (foldl py_min t ts) now)) (Fin 30))"

definition expiry_round :: "bool \<Rightarrow> real \<Rightarrow> daemon \<Rightarrow> exn option \<times> daemon" where
  "expiry_round io now d =
     (case sweep_and_record io now (dm_sys d) of (e, s) \<Rightarrow> (e, d\<lparr>dm_sys := s\<rparr>))"

definition daemon_tick :: "tick_env \<Rightarrow> daemon \<Rightarrow> daemon" where
  "daemon_tick env d = d\<lparr>dm_sys := snd (tick_once env (dm_sys d))\<rparr>"

definition on_worker_exit :: "real \<Rightarrow> int \<Rightarrow> int \<Rightarrow> daemon \<Rightarrow> daemon" where
  "on_worker_exit now g rc =
     dm_record now 0 ''(auto)'' ''worker_crashed'' (PDict [(''gpu'', PInt g), (''rc'', PInt rc)]) False
       (PStr (''unexpected exit code '' @ dec_int rc)) PNone"

text \<open>An activation of one of the pool's tasks, with the callback when a worker has died.\<close>

definition daemon_task :: "real \<Rightarrow> bool \<Rightarrow> task \<Rightarrow> daemon \<Rightarrow> daemon" where
  "daemon_task now timeout t d =
     (let (p, exited) = activate timeout t (y_pool (dm_sys d));
          d1 = d\<lparr>dm_sys := (dm_sys d)\<lparr>y_pool := p\<rparr>\<rparr>
      in case exited of None \<Rightarrow> d1 | Some (g, rc) \<Rightarrow> on_worker_exit now g rc d1)"

text \<open>Startup, after the monitor was opened (\<open>nvml_ok\<close>): what \<open>run\<close> does before it serves.\<close>

definition startup :: "serve_env \<Rightarrow> bool \<Rightarrow> daemon \<Rightarrow> exn option \<times> daemon" where
  "startup env nvml_ok d =
     (let d0 = d\<lparr>dm_nvml_ok := nvml_ok\<rparr> in
      case resolve_watched env d0 of
        Inl e \<Rightarrow> (Some e, d0)
      | Inr gpus \<Rightarrow>
          let s1 = (dm_sys d0)\<lparr>y_ctl := set_watched gpus (y_ctl (dm_sys d0))\<rparr> in
          (case load_history (sv_fmt env) (y_hist s1) of
             (Some e, h) \<Rightarrow> (Some e, d0\<lparr>dm_sys := s1\<lparr>y_hist := h\<rparr>\<rparr>)
           | (None, h) \<Rightarrow>
               (case load_leases (sv_fmt env) (sv_now env) (y_leases s1) of
                  (Inl e, ls) \<Rightarrow> (Some e, d0\<lparr>dm_sys := s1\<lparr>y_hist := h, y_leases := ls\<rparr>\<rparr>)
                | (Inr restored, ls) \<Rightarrow>
                    (None, dm_record (sv_now env) 0 ''(auto)'' ''daemon_started''
                       (PDict [(''pid'', PInt (dm_pid d)), (''watched'', ints gpus),
                               (''restored_leases'', PInt (int (length restored)))]) True PNone PNone
                       (d0\<lparr>dm_sys := s1\<lparr>y_hist := h, y_leases := ls\<rparr>\<rparr>)))))"

end
