(* ===== verification/Service.thy ===== *)
theory Service
  imports Daemon
begin

text \<open>
  What the daemon (\<open>Daemon\<close>) promises those who call it: who may run what, that every request is
  answered, what an accepted pause means, that leases are exclusive whatever is requested, and
  what a reload does.
\<close>

section \<open>A small daemon\<close>

text \<open>For examples: no configuration file, one GPU, number 7, and nothing on disk.\<close>

definition demo_env :: "real \<Rightarrow> serve_env" where
  "demo_env now =
     \<lparr>sv_fmt = hs_fmt plain_host, sv_now = now, sv_io = True, sv_socket = ''/run/ocp/ocpd.sock'',
      sv_cfg_path = ''/root/.ocp/config.toml'', sv_cfg_file = NoFile, sv_enumerate = Inr [7]\<rparr>"

definition demo_daemon :: daemon where
  "demo_daemon = snd (startup (demo_env 0) True
     \<lparr>dm_cfg = default_config,
      dm_sys = \<lparr>y_ctl = controller_init default_config,
        y_leases = \<lparr>ls_leases = [], ls_disk = SNoFile\<rparr>, y_pool = pool_init (worker default_config),
        y_hist = \<lparr>h_max = 1000, h_ring = [], h_lines = 0, h_queue = [], h_file = HNoFile\<rparr>\<rparr>,
      dm_nvml_ok = False, dm_started_at = 0, dm_pid = 1\<rparr>)"

definition alice :: caller where
  "alice = \<lparr>c_pid = 10, c_uid = 1001, c_gid = 1001, c_user = ''alice''\<rparr>"

definition root_user :: caller where
  "root_user = \<lparr>c_pid = 11, c_uid = 0, c_gid = 0, c_user = ''root''\<rparr>"

definition pause_req :: request where
  "pause_req = \<lparr>rq_cmd = ''pause'', rq_args = [(''gpus'', PList [PInt 7]), (''duration_s'', PInt 600)],
     rq_id = ''cli'', rq_v = 1\<rparr>"

lemmas demo_simps = demo_env_def plain_host_def alice_def root_user_def pause_req_def

lemma demo_fields:
  "dm_cfg demo_daemon = default_config" "k_watched (y_ctl (dm_sys demo_daemon)) = [7]"
  "y_leases (dm_sys demo_daemon) = \<lparr>ls_leases = [], ls_disk = SNoFile\<rparr>"
  "y_pool (dm_sys demo_daemon) = pool_init (worker default_config)"
  by (simp_all add: demo_daemon_def startup_def demo_simps resolve_watched_def default_config_def
      GpuCfg_def kwarg_def load_history_def load_leases_def set_watched_def dm_record_def
      Let_def)

lemma demo_upper: "upper ''pause'' = ''PAUSE''"
  by code_simp

section \<open>Authorization\<close>

definition required_tier :: "string \<Rightarrow> tier" where
  "required_tier cmd =
     (if cmd \<in> set root_cmds then Root else if cmd \<in> set whitelist_cmds then Whitelisted else Anyone)"

definition error_code :: "response \<Rightarrow> pyval" where
  "error_code r = dict_get (rs_error r) ''code'' PNone"

text \<open>A handler's exception becomes a failure response.\<close>

definition answered :: "serve_env \<Rightarrow> request \<Rightarrow> response res \<times> daemon \<Rightarrow> response res \<times> daemon" where
  "answered env req x =
     (case x of
        (Inr r, d) \<Rightarrow> (Inr r, d)
      | (Inl e, d) \<Rightarrow> (Inr (failure (sv_fmt env) (rq_id req) ''E_BAD_REQUEST''
          [Lit ''internal error: '', Exc e] PNone), d))"

lemma error_code_failure [simp]: "error_code (failure F i k m v) = PStr k"
  by (simp add: error_code_def failure_def dict_get_def Let_def)

lemma cmd_cases:
  "cmd \<in> set all_cmds \<Longrightarrow>
   (cmd \<in> set root_cmds \<and> required_tier cmd = Root \<and> cmd \<notin> set whitelist_cmds) \<or>
   (cmd \<in> set whitelist_cmds \<and> required_tier cmd = Whitelisted \<and> cmd \<notin> set root_cmds) \<or>
   (cmd \<in> set any_cmds \<and> required_tier cmd = Anyone \<and> cmd \<notin> set whitelist_cmds \<and> cmd \<notin> set root_cmds)"
  by (auto simp: all_cmds_def root_cmds_def whitelist_cmds_def any_cmds_def required_tier_def)

lemma caller_tier_iff:
  assumes "caller_tier c wl = Inr t"
  shows "Root \<le> t \<longleftrightarrow> is_root c" "is_whitelisted c wl = Inr (Whitelisted \<le> t)"
proof -
  have w: "is_whitelisted c wl = Inr True" if "is_root c"
    using that by (simp add: is_whitelisted_def)
  from assms w show "Root \<le> t \<longleftrightarrow> is_root c" "is_whitelisted c wl = Inr (Whitelisted \<le> t)"
    by (auto simp: caller_tier_def less_eq_tier_def res_simps split: if_splits)
qed

lemma refuse_unlisted_failure:
  assumes "caller_tier c (whitelist (multiuser (dm_cfg d))) = Inr t" "\<not> is_root c"
  shows "\<exists>m v. refuse_unlisted env req d = Inr (failure (sv_fmt env) (rq_id req) ''E_NOT_WHITELISTED'' m v)"
proof -
  obtain es where "py_iter (whitelist (multiuser (dm_cfg d))) = Inr es"
    using assms by (auto simp: caller_tier_def is_whitelisted_def res_simps)
  then show ?thesis by (auto simp: refuse_unlisted_def format_allowed_def Let_def)
qed

lemma dispatch_by_tier_lemma:
  assumes "caller_tier c (whitelist (multiuser (dm_cfg d))) = Inr t"
    and "cmd = upper (rq_cmd req)" "cmd \<in> set all_cmds"
  shows "(required_tier cmd \<le> t \<longrightarrow>
      dispatch env c req d = answered env req (run_cmd env c cmd req d)) \<and>
    (\<not> required_tier cmd \<le> t \<longrightarrow>
      (\<exists>r. dispatch env c req d = (Inr r, d) \<and> \<not> rs_ok r \<and>
         error_code r = PStr (if cmd \<in> set root_cmds then ''E_NOT_ROOT'' else ''E_NOT_WHITELISTED'')))"
proof -
  note t = caller_tier_iff [OF assms(1)]
  have run: "(case run_cmd env c cmd req d of
        (Inr r, d') \<Rightarrow> (Inr r, d')
      | (Inl e, d') \<Rightarrow> (Inr (failure (sv_fmt env) (rq_id req) ''E_BAD_REQUEST''
          [Lit ''internal error: '', Exc e] PNone), d')) = answered env req (run_cmd env c cmd req d)"
    by (simp add: answered_def)
  from cmd_cases [OF assms(3)] show ?thesis
  proof (elim disjE conjE)
    assume "cmd \<in> set root_cmds" "required_tier cmd = Root" "cmd \<notin> set whitelist_cmds"
    then show ?thesis
      using t(1) assms(2,3) run by (simp add: dispatch_def Let_def)
  next
    assume w: "cmd \<in> set whitelist_cmds" "required_tier cmd = Whitelisted" "cmd \<notin> set root_cmds"
    show ?thesis
    proof (cases "Whitelisted \<le> t")
      case True
      then show ?thesis using w t(2) assms(2,3) run by (simp add: dispatch_def Let_def)
    next
      case False
      then have "\<not> is_root c" using t(1) by (auto simp: less_eq_tier_def)
      from refuse_unlisted_failure [OF assms(1) this] False show ?thesis
        using w t(2) assms(2,3) by (fastforce simp: dispatch_def Let_def)
    qed
  next
    assume "required_tier cmd = Anyone" "cmd \<notin> set whitelist_cmds" "cmd \<notin> set root_cmds"
    then show ?thesis
      using assms(2,3) run by (simp add: dispatch_def Let_def)
  qed
qed

text \<open>C6. The authorization tiers of the README hold: a known command runs exactly when the caller's
  tier (anyone, whitelisted, root) is at least the one it requires. Otherwise nothing changes and
  the answer is the error of that tier.\<close>

theorem dispatch_by_tier:
  assumes "caller_tier c (whitelist (multiuser (dm_cfg d))) = Inr t"
    and "cmd = upper (rq_cmd req)" "cmd \<in> set all_cmds"
  shows "(required_tier cmd \<le> t \<longrightarrow>
      dispatch env c req d = answered env req (run_cmd env c cmd req d)) \<and>
    (\<not> required_tier cmd \<le> t \<longrightarrow>
      (\<exists>r. dispatch env c req d = (Inr r, d) \<and> \<not> rs_ok r \<and>
         error_code r = PStr (if cmd \<in> set root_cmds then ''E_NOT_ROOT'' else ''E_NOT_WHITELISTED'')))"
  using assms by (rule dispatch_by_tier_lemma)

theorem dispatch_by_tier_witness:
  "\<exists>r. dispatch (demo_env 0) alice pause_req demo_daemon = (Inr r, demo_daemon) \<and>
     error_code r = PStr ''E_NOT_WHITELISTED''"
proof -
  have tier: "caller_tier alice (whitelist (multiuser (dm_cfg demo_daemon))) = Inr Anyone"
    by (simp add: caller_tier_def is_whitelisted_def is_root_def alice_def demo_fields
        default_config_def MultiuserCfg_def kwarg_def)
  have "''PAUSE'' = upper (rq_cmd pause_req)" by (simp add: pause_req_def demo_upper)
  from dispatch_by_tier [OF tier this, of "demo_env 0"] show ?thesis
    by (auto simp: all_cmds_def whitelist_cmds_def root_cmds_def required_tier_def)
qed

section \<open>Every request is answered\<close>

definition replies :: "request \<Rightarrow> response res \<Rightarrow> bool" where
  "replies req x \<longleftrightarrow> (case x of Inl e \<Rightarrow> True | Inr r \<Rightarrow> rs_id r = rq_id req \<and> built r)"

lemma replies_simps [simp]:
  "replies req (Inl e)"
  "replies req (Inr (success (rq_id req) v))" "replies req (Inr (failure F (rq_id req) k m v))"
  by (simp_all add: replies_def)

lemma replies_rbind [simp]:
  "replies req (rbind x (\<lambda>v. Inr (success (rq_id req) (f v))))"
  by (cases x) simp_all

lemma check_pause_replies: "check_pause F req d = Inr (Inl r) \<Longrightarrow> replies req (Inr r)"
  by (auto simp: check_pause_def Let_def res_simps split: option.splits if_splits)

lemma handle_replies:
  "replies req (fst (handle_config_reload env c req d))"
  "replies req (fst (handle_pause env c req d))"
  "replies req (fst (handle_resume env c req d))"
proof -
  show "replies req (fst (handle_config_reload env c req d))"
    by (auto simp: handle_config_reload_def split: sum.splits prod.splits option.splits)
  show "replies req (fst (handle_resume env c req d))"
    by (auto simp: handle_resume_def Let_def split: option.splits prod.splits sum.splits)
  show "replies req (fst (handle_pause env c req d))"
    using check_pause_replies [of "sv_fmt env" req d]
    by (auto simp: handle_pause_def pause_held_def Let_def split: sum.splits prod.splits exn.splits)
qed

lemma run_cmd_replies: "replies req (fst (run_cmd env c cmd req d))"
  by (simp add: run_cmd_def handle_replies)

lemma refuse_replies: "replies req (refuse_unlisted env req d)"
  by (auto simp: refuse_unlisted_def Let_def replies_def res_simps split: sum.splits)

lemma dispatch_replies: "replies req (fst (dispatch env c req d))"
  using run_cmd_replies [of req env c "upper (rq_cmd req)" d] refuse_replies [of req env d]
  by (auto simp: dispatch_def Let_def split: sum.splits prod.splits bool.splits if_splits)

text \<open>The dispatcher is a handler the server can rely on.\<close>

interpretation ipc: request_handler "dispatch env" for env
proof
  fix c req d r d'
  assume "dispatch env c req d = (Inr r, d')"
  then show "rs_id r = rq_id req" "built r"
    using dispatch_replies [of req env c d] by (simp_all add: replies_def)
qed

lemma whitelist_iterable:
  "config_ok c \<Longrightarrow> \<exists>es. py_iter (whitelist (multiuser c)) = Inr es"
  by (auto simp: config_ok_def Let_def all_elems_def split: sum.splits)

lemma caller_tier_total: "config_ok c \<Longrightarrow> \<exists>t. caller_tier k (whitelist (multiuser c)) = Inr t"
  using whitelist_iterable [of c] by (auto simp: caller_tier_def is_whitelisted_def)

text \<open>C8. Under a validated configuration every request is answered: no exception leaves the
  dispatcher, the response carries the request's id and is one that \<open>success\<close> or \<open>failure\<close>
  built, and an unknown command is an error that changes nothing.\<close>

theorem dispatch_total:
  assumes "config_ok (dm_cfg d)"
  shows "\<exists>r d'. dispatch env c req d = (Inr r, d') \<and> rs_id r = rq_id req \<and> built r \<and>
    (upper (rq_cmd req) \<notin> set all_cmds \<longrightarrow>
       d' = d \<and> \<not> rs_ok r \<and> error_code r = PStr ''E_BAD_REQUEST'')"
proof (cases "upper (rq_cmd req) \<in> set all_cmds")
  case False
  then show ?thesis by (simp add: dispatch_def Let_def)
next
  case True
  obtain t where t: "caller_tier c (whitelist (multiuser (dm_cfg d))) = Inr t"
    using caller_tier_total [OF assms] by blast
  have "\<exists>r d'. dispatch env c req d = (Inr r, d')"
    using dispatch_by_tier_lemma [OF t refl True, of env]
    by (cases "required_tier (upper (rq_cmd req)) \<le> t")
      (auto simp: answered_def split: prod.splits sum.splits)
  with True ipc.echo ipc.wellbuilt show ?thesis by blast
qed

theorem dispatch_total_witness:
  "\<exists>r d'. dispatch (demo_env 0) alice pause_req demo_daemon = (Inr r, d') \<and> rs_id r = ''cli''"
  using dispatch_total [of demo_daemon "demo_env 0" alice pause_req]
  by (auto simp: demo_fields default_config_ok pause_req_def)

text \<open>What the daemon writes to a connection is one frame of at most 2^20 bytes holding one
  response, and that response carries the id of the request that arrived on the same connection,
  or \<open>?\<close> when what arrived was not a request.\<close>

theorem daemon_reply:
  assumes "fst (on_client F C uuid getpwuid (dispatch env) peer input alive d) = (out, err)"
    and "out \<noteq> []"
  shows "\<exists>r body. response_to_bytes C r = Inr body \<and> out = frame body \<and>
    length body \<le> MAX_BODY_BYTES \<and> built r \<and> err = None \<and>
    (rs_id r = ''?'' \<or> (\<exists>b rest req. input = frame b @ rest \<and>
       request_from_bytes F C uuid b = Inr req \<and> rs_id r = rq_id req))"
  using assms by (rule ipc.reply)

lemma demo_sends:
  "\<exists>err out. fst (on_client plain_fmt (tiny_codec PNone [2]) [] (\<lambda>_. None) (dispatch (demo_env 0)) (Creds 10 1001 100)
     [0, 0, 0, 1, 1] True demo_daemon) = (out, err) \<and> out \<noteq> []"
proof -
  have send: "send_response (tiny_codec PNone [2]) True r = ([0, 0, 0, 1, 2], None)" for r
    by (simp add: send_response_def write_frame_def response_to_bytes_def encode_def tiny_codec_def
        response_to_dict_def call_dict_def MAX_BODY_BYTES_def tiny_frames)
  show ?thesis
    using tiny_read tiny_request [of plain_fmt PNone "[2]" "[]"]
    by (auto simp: on_client_def Let_def send split: prod.splits sum.splits)
qed

theorem daemon_reply_witness:
  "\<exists>r. built r \<and> fst (fst (on_client plain_fmt (tiny_codec PNone [2]) [] (\<lambda>_. None) (dispatch (demo_env 0))
     (Creds 10 1001 100) [0, 0, 0, 1, 1] True demo_daemon)) \<noteq> [] \<and>
     response_to_bytes (tiny_codec PNone [2]) r = Inr [2]"
proof -
  obtain out err where o: "fst (on_client plain_fmt (tiny_codec PNone [2]) [] (\<lambda>_. None) (dispatch (demo_env 0))
     (Creds 10 1001 100) [0, 0, 0, 1, 1] True demo_daemon) = (out, err)" "out \<noteq> []"
    using demo_sends by blast
  from daemon_reply [OF o] obtain r body where
    "response_to_bytes (tiny_codec PNone [2]) r = Inr body" "built r" by blast
  moreover from this have "body = [2]"
    by (simp add: response_to_bytes_def encode_def tiny_codec_def response_to_dict_def call_dict_def)
  ultimately show ?thesis using o by auto
qed

section \<open>Callers without a privilege\<close>

text \<open>C7. A caller who is neither root nor whitelisted cannot change anything: whatever they send,
  the daemon's leases, workers, configuration and events are afterwards as they were.\<close>

theorem unlisted_read_only:
  assumes "caller_tier c (whitelist (multiuser (dm_cfg d))) = Inr Anyone"
  shows "snd (dispatch env c req d) = d"
proof (cases "upper (rq_cmd req) \<in> set all_cmds")
  case False
  then show ?thesis by (simp add: dispatch_def Let_def)
next
  case True
  note tier = dispatch_by_tier_lemma [OF assms refl True, of env]
  show ?thesis
  proof (cases "required_tier (upper (rq_cmd req)) \<le> Anyone")
    case True
    then have "snd (run_cmd env c (upper (rq_cmd req)) req d) = d"
      by (auto simp: required_tier_def root_cmds_def whitelist_cmds_def run_cmd_def split: if_splits)
    with tier True show ?thesis
      by (cases "run_cmd env c (upper (rq_cmd req)) req d") (auto simp: answered_def split: sum.splits)
  qed (use tier in auto)
qed

theorem unlisted_read_only_witness:
  "snd (dispatch (demo_env 0) alice pause_req demo_daemon) = demo_daemon"
  by (rule unlisted_read_only)
    (simp add: caller_tier_def is_whitelisted_def is_root_def alice_def demo_fields
      default_config_def MultiuserCfg_def kwarg_def)

section \<open>Reloading the configuration\<close>

lemma resolve_watched_ok:
  assumes "config_ok (dm_cfg d)" "truthy (indices (gpu (dm_cfg d)))"
  shows "\<exists>is. resolve_watched env d = Inr is \<and> (\<forall>i \<in> set is. 0 \<le> i)"
proof -
  obtain xs where xs: "py_iter (indices (gpu (dm_cfg d))) = Inr xs"
      "\<forall>x \<in> set xs. \<exists>k. x = PInt k \<and> 0 \<le> k"
    using assms(1) by (auto simp: config_ok_def Let_def all_elems_def split: sum.splits)
  have "rmap as_int xs = Inr (map (\<lambda>v. case v of PInt i \<Rightarrow> i | _ \<Rightarrow> 0) xs)"
    using xs(2) by (intro rmap_Inr_all) (auto simp: as_int_def)
  with xs assms(2) show ?thesis
    by (auto simp: resolve_watched_def)
qed

lemma max_entries_fit:
  assumes "config_ok cfg"
  shows "set_max_entries (max_entries (history cfg)) h =
    (case max_entries (history cfg) of
       PInt k \<Rightarrow> if k < 2 ^ 63 then (None, h\<lparr>h_ring := last_n (nat k) (h_ring h), h_max := k\<rparr>)
                 else (Some OverflowError, h)
     | _ \<Rightarrow> (Some TypeError, h))"
  using assms
  by (cases "max_entries (history cfg)")
    (auto simp: config_ok_def Let_def num_sat_def set_max_entries_def py_cmp_def split: if_splits)

text \<open>C29. What a reload of a valid file puts in force. In every case the daemon, the controller and the
  worker pool hold the new configuration, and leases and workers are untouched. When the history
  bound is an integer below 2^63 and the devices can be resolved, the ring has the new bound and
  exactly the resolved devices are watched (those already watched keep their state). When the bound is
  another number, the reload ends there with TypeError or OverflowError, and the ring, its bound and
  the watched devices are the old ones; when the devices cannot be resolved, it ends with that
  exception, and the watched devices are the old ones.\<close>

theorem reload_applies:
  assumes "load_config (sv_cfg_path env) (sv_cfg_file env) = Inr cfg"
    and "reload_config env actor d = (err, d')"
  shows "dm_cfg d' = cfg \<and> k_cfg (y_ctl (dm_sys d')) = cfg \<and> p_cfg (y_pool (dm_sys d')) = worker cfg \<and>
    y_leases (dm_sys d') = y_leases (dm_sys d) \<and>
    p_procs (y_pool (dm_sys d')) = p_procs (y_pool (dm_sys d)) \<and>
    p_tasks (y_pool (dm_sys d')) = p_tasks (y_pool (dm_sys d)) \<and>
    (if \<exists>k. max_entries (history cfg) = PInt k \<and> k < 2 ^ 63
     then max_entries (history cfg) = PInt (h_max (y_hist (dm_sys d'))) \<and>
       (case resolve_watched env (swap_config cfg d) of
          Inl e \<Rightarrow> err = Some e \<and> k_watched (y_ctl (dm_sys d')) = k_watched (y_ctl (dm_sys d)) \<and>
            k_states (y_ctl (dm_sys d')) = k_states (y_ctl (dm_sys d))
        | Inr gpus \<Rightarrow> err = None \<and> k_watched (y_ctl (dm_sys d')) = gpus \<and>
            (\<forall>g. map_of (k_states (y_ctl (dm_sys d'))) g =
               (if g \<in> set gpus then Some (device_of g (dm_sys d)) else None)))
     else err \<in> {Some TypeError, Some OverflowError} \<and> y_hist (dm_sys d') = y_hist (dm_sys d) \<and>
       k_watched (y_ctl (dm_sys d')) = k_watched (y_ctl (dm_sys d)) \<and>
       k_states (y_ctl (dm_sys d')) = k_states (y_ctl (dm_sys d)))"
proof -
  have ok: "config_ok cfg" using assms(1) by (rule load_config_ok)
  have w: "resolve_watched env (d2\<lparr>dm_sys := s\<rparr>) = resolve_watched env d2" for d2 s
    by (simp add: resolve_watched_def)
  have run: "apply_new_config env cfg actor d = (err, d')"
    using assms by (simp add: reload_config_def)
  have swap: "dm_cfg (swap_config cfg d) = cfg" "dm_sys (swap_config cfg d) =
      (dm_sys d)\<lparr>y_ctl := replace_config cfg (y_ctl (dm_sys d)),
        y_pool := replace_worker_config (worker cfg) (y_pool (dm_sys d))\<rparr>"
    by (simp_all add: swap_config_def Let_def)
  show ?thesis
  proof (cases "\<exists>k. max_entries (history cfg) = PInt k \<and> k < 2 ^ 63")
    case True
    then obtain k where k: "max_entries (history cfg) = PInt k" "k < 2 ^ 63" by blast
    then have fit: "set_max_entries (PInt k) h = (None, h\<lparr>h_ring := last_n (nat k) (h_ring h), h_max := k\<rparr>)" for h
      using max_entries_fit [OF ok, of h] by simp
    show ?thesis
    proof (cases "resolve_watched env (swap_config cfg d)")
      case (Inl e)
      with run k show ?thesis
        by (auto simp: apply_new_config_def fit w swap replace_config_def
            replace_worker_config_def Let_def)
    next
      case (Inr gpus)
      with run k show ?thesis
        by (auto simp: apply_new_config_def fit w swap replace_config_def
            replace_worker_config_def dm_record_def record_entry_def enqueue_def set_watched_states
            device_of_def Let_def)
    qed
  next
    case False
    then have "\<exists>e \<in> {TypeError, OverflowError}. set_max_entries (max_entries (history cfg)) h = (Some e, h)" for h
      using max_entries_fit [OF ok, of h] by (auto split: pyval.splits)
    then obtain e where "e \<in> {TypeError, OverflowError}"
        "set_max_entries (max_entries (history cfg)) (y_hist (dm_sys d)) = (Some e, y_hist (dm_sys d))"
      by blast
    with run False show ?thesis
      by (auto simp: apply_new_config_def swap replace_config_def replace_worker_config_def Let_def)
  qed
qed

lemma demo_load_default: "load_config (sv_cfg_path (demo_env t)) (sv_cfg_file (demo_env t)) = Inr default_config"
  by (simp add: demo_env_def load_config_absent)

theorem reload_applies_witness:
  "\<exists>err d'. reload_config (demo_env 3) None demo_daemon = (err, d') \<and> err = None \<and>
     k_watched (y_ctl (dm_sys d')) = [7] \<and> h_max (y_hist (dm_sys d')) = 1000"
proof -
  have max: "max_entries (history default_config) = PInt 1000"
    by (simp add: default_config_def HistoryCfg_def kwarg_def)
  have "dm_nvml_ok demo_daemon"
    by (simp add: demo_daemon_def startup_def demo_simps resolve_watched_def default_config_def
        GpuCfg_def kwarg_def load_history_def load_leases_def dm_record_def Let_def)
  then have "resolve_watched (demo_env 3) (swap_config default_config demo_daemon) = Inr [7]"
    by (simp add: resolve_watched_def swap_config_def demo_env_def default_config_def GpuCfg_def
        kwarg_def Let_def)
  moreover obtain err d' where "reload_config (demo_env 3) None demo_daemon = (err, d')" by fastforce
  ultimately show ?thesis using reload_applies [OF demo_load_default, of 3 None demo_daemon err d'] max by auto
qed

text \<open>A reload is not atomic when the history bound is a float: \<open>max_entries = 10.5\<close> passes
  validation, but the ring cannot be resized to it. TypeError leaves the reload after the
  configuration has been replaced, with the watched GPUs, the ring and its bound still the old
  ones and no event recorded.\<close>

theorem reload_not_atomic:
  assumes "load_config (sv_cfg_path env) (sv_cfg_file env) = Inr cfg"
    and "max_entries (history cfg) = PFloat f"
  shows "\<exists>d'. reload_config env actor d = (Some TypeError, d') \<and> dm_cfg d' = cfg \<and>
    k_cfg (y_ctl (dm_sys d')) = cfg \<and> p_cfg (y_pool (dm_sys d')) = worker cfg \<and>
    k_watched (y_ctl (dm_sys d')) = k_watched (y_ctl (dm_sys d)) \<and>
    y_hist (dm_sys d') = y_hist (dm_sys d)"
proof -
  have "config_ok cfg" using assms(1) by (rule load_config_ok)
  then have "\<not> f < Fin 10" using assms(2) by (simp add: config_ok_def Let_def num_sat_def)
  with assms show ?thesis
    by (simp add: reload_config_def apply_new_config_def set_max_entries_def py_cmp_def Let_def)
      (simp add: swap_config_def replace_config_def replace_worker_config_def Let_def)
qed

theorem reload_not_atomic_witness:
  "let env = (demo_env 3)\<lparr>sv_cfg_file := Toml (config_to_dict
       (default_config\<lparr>history := \<lparr>max_entries = PFloat (Fin (21/2))\<rparr>\<rparr>))\<rparr>
   in fst (reload_config env None demo_daemon) = Some TypeError"
proof -
  let ?cfg = "default_config\<lparr>history := \<lparr>max_entries = PFloat (Fin (21/2))\<rparr>\<rparr>"
  let ?env = "(demo_env 3)\<lparr>sv_cfg_file := Toml (config_to_dict ?cfg)\<rparr>"
  have "num_sat (\<lambda>x. \<not> x < Fin 10) (PFloat (Fin (21/2)))" by (simp add: num_sat_def)
  then have ok: "config_ok ?cfg"
    using default_config_ok by (simp add: config_ok_def Let_def)
  have "load_config (sv_cfg_path ?env) (sv_cfg_file ?env) = Inr ?cfg"
    using config_dict_loads [OF ok] by simp
  from reload_not_atomic [OF this, of "Fin (21/2)" None demo_daemon] show ?thesis by auto
qed

end
