(* ===== verification/Runs.thy ===== *)
theory Runs
  imports Service
begin

text \<open>
  The daemon as a whole: everything that can happen to it, in any order (\<open>event\<close>), the invariant
  that holds from startup on, and the promise a granted pause makes over any such run. Requests,
  ticks, lease sweeps and reloads each hold the controller's lock, or run without suspending, so
  they do not interleave; the pool's tasks and the exits of its processes come between them.
\<close>

datatype event =
    Serve serve_env caller request
  | Tick tick_env
  | Expiry bool real
  | Sighup serve_env
  | PoolTask real bool task
  | WorkerExit nat int
  | WriteHistory "nat \<Rightarrow> write_io"

definition on_pool :: "(pool \<Rightarrow> pool) \<Rightarrow> daemon \<Rightarrow> daemon" where
  "on_pool f d = d\<lparr>dm_sys := (dm_sys d)\<lparr>y_pool := f (y_pool (dm_sys d))\<rparr>\<rparr>"

fun happen :: "event \<Rightarrow> daemon \<Rightarrow> daemon" where
  "happen (Serve env c req) d = snd (dispatch env c req d)"
| "happen (Tick env) d = daemon_tick env d"
| "happen (Expiry io now) d = snd (expiry_round io now d)"
| "happen (Sighup env) d = snd (reload_config env None d)"
| "happen (PoolTask now timeout t) d =
     (if t \<in> set (p_tasks (y_pool (dm_sys d))) then daemon_task now timeout t d else d)"
| "happen (WorkerExit po rc) d =
     (if po < p_next (y_pool (dm_sys d)) \<and> p_exited (y_pool (dm_sys d)) po = None
      then on_pool (process_exit po rc) d else d)"
| "happen (WriteHistory io) d =
     d\<lparr>dm_sys := (dm_sys d)\<lparr>y_hist := run_writer io (y_hist (dm_sys d))\<rparr>\<rparr>"

inductive daemon_run :: "daemon \<Rightarrow> bool" where
  started: "load_config path file = Inr cfg \<Longrightarrow> daemon_init cfg pid now sf hf = Inr d0 \<Longrightarrow>
    startup env nvml_ok d0 = (None, d) \<Longrightarrow> daemon_run d"
| event: "daemon_run d \<Longrightarrow> daemon_run (happen e d)"

section \<open>The invariant\<close>

definition sys_ok :: "config \<Rightarrow> system \<Rightarrow> bool" where
  "sys_ok c s \<longleftrightarrow>
     k_cfg (y_ctl s) = c \<and> p_cfg (y_pool s) = worker c \<and> states_ok (y_ctl s) \<and>
     pool_ok (y_pool s) \<and> map_ok (ls_leases (y_leases s)) \<and> ring_ok (y_hist s)"

definition daemon_ok :: "daemon \<Rightarrow> bool" where
  "daemon_ok d \<longleftrightarrow> config_ok (dm_cfg d) \<and> sys_ok (dm_cfg d) (dm_sys d)"

lemma for_each_invariant:
  assumes "\<And>i x s. x \<in> set xs \<Longrightarrow> P s \<Longrightarrow> P (snd (body i x s))"
  shows "P s \<Longrightarrow> P (snd (for_each body i xs s))"
  using assms
proof (induction xs arbitrary: i s)
  case (Cons x xs)
  have "P (snd (body i x s))" using Cons.prems by simp
  with Cons.IH Cons.prems(2) show ?case
    by (fastforce split: prod.splits option.splits)
qed simp

lemma ring_ok_record [simp]: "ring_ok (record_entry now uid user cmd args ok e n h) = ring_ok h"
  by (simp add: ring_ok_def record_entry_def enqueue_def)

lemma sys_ok_record [simp]:
  "sys_ok c (auto_record now cmd args ok e n s) = sys_ok c s"
  "sys_ok c (s\<lparr>y_hist := record_entry now uid user cmd args ok e n h\<rparr>) = sys_ok c (s\<lparr>y_hist := h\<rparr>)"
  by (simp_all add: sys_ok_def auto_record_def)

lemma dm_record_simps [simp]:
  "dm_cfg (dm_record now uid user cmd args ok e n d) = dm_cfg d"
  "sys_ok c (dm_sys (dm_record now uid user cmd args ok e n d)) = sys_ok c (dm_sys d)"
  "y_leases (dm_sys (dm_record now uid user cmd args ok e n d)) = y_leases (dm_sys d)"
  "y_pool (dm_sys (dm_record now uid user cmd args ok e n d)) = y_pool (dm_sys d)"
  "y_ctl (dm_sys (dm_record now uid user cmd args ok e n d)) = y_ctl (dm_sys d)"
  "ring_ok (y_hist (dm_sys (dm_record now uid user cmd args ok e n d))) = ring_ok (y_hist (dm_sys d))"
  by (simp_all add: dm_record_def sys_ok_def)

lemma daemon_ok_record [simp]:
  "daemon_ok (dm_record now uid user cmd args ok e n d) = daemon_ok d"
  by (simp add: daemon_ok_def)

lemma states_ok_put:
  "states_ok k \<Longrightarrow> g \<in> set (k_watched k) \<Longrightarrow> states_ok (k\<lparr>k_states := dset g st (k_states k)\<rparr>)"
  by (auto simp: states_ok_def dom_update)

lemma sys_ok_put:
  "sys_ok c s \<Longrightarrow> g \<in> set (k_watched (y_ctl s)) \<Longrightarrow> sys_ok c (put_state g st s)"
  by (simp add: sys_ok_def put_state_def states_ok_put)

lemma sys_ok_stop: "sys_ok c s \<Longrightarrow> sys_ok c (ctl_schedule_stop g s)"
  using pool_ok_step [OF pool_step.schedule [of "\<lambda>_ _. True"]]
  by (simp add: sys_ok_def ctl_schedule_stop_def) (simp add: schedule_stop_def)

lemma spawn_cfg: "p_cfg (snd (spawn F exe launch now g p)) = p_cfg p"
  by (rule spawn_cases [of F exe launch now g p]) simp_all

lemma sys_ok_spawn:
  "sys_ok c s \<Longrightarrow> sys_ok c (s\<lparr>y_pool := snd (spawn F exe launch now g (y_pool s))\<rparr>)"
  by (simp add: sys_ok_def pool_ok_spawn spawn_cfg)

lemma sys_ok_step:
  assumes "sys_ok c s" "g \<in> set (k_watched (y_ctl s))"
  shows "sys_ok c (snd (tick_step env dt i g s))"
proof -
  have put: "k_watched (y_ctl (put_state g st s')) = k_watched (y_ctl s')" for st s'
    by (simp add: put_state_def)
  have stop: "y_ctl (ctl_schedule_stop g s') = y_ctl s'" for s'
    by (simp add: ctl_schedule_stop_def)
  have "sys_ok c (snd (spawn_worker env g st s'))"
    if "sys_ok c s'" "g \<in> set (k_watched (y_ctl s'))" for st s'
    using that by (auto simp: spawn_worker_cases sys_ok_spawn sys_ok_put split: sum.splits)
  with assms show ?thesis
    by (auto simp: tick_step_def apply_sample_def Let_def sys_ok_put sys_ok_stop put stop
        split: sum.splits)
qed

lemma sys_ok_leases:
  "sys_ok c s \<Longrightarrow> map_ok (ls_leases ls) \<Longrightarrow> sys_ok c (s\<lparr>y_leases := ls\<rparr>)"
  by (simp add: sys_ok_def)

lemma sys_ok_expiry_events: "sys_ok c (fold (expiry_event now) ls s) = sys_ok c s"
  by (induction ls arbitrary: s) (simp_all add: expiry_event_def)

lemma sys_ok_sweep: "sys_ok c s \<Longrightarrow> sys_ok c (snd (sweep_and_record io now s))"
proof -
  assume ok: "sys_ok c s"
  then have "map_ok (ls_leases (snd (sweep_expired io now (y_leases s))))"
    by (simp add: sweep_leases map_ok_filter sys_ok_def)
  with ok show ?thesis
    by (auto simp: sweep_and_record_def sys_ok_expiry_events sys_ok_leases
        split: prod.splits sum.splits)
qed

lemma sys_ok_tick:
  assumes "sys_ok c s"
  shows "sys_ok c (snd (tick_once env s))"
proof -
  have "sys_ok c (start_tick env s)"
    using assms by (simp add: sys_ok_def start_tick_def states_ok_def)
  then have ok: "sys_ok c (swept env s)" by (simp add: swept_def sys_ok_sweep)
  show ?thesis
  proof (cases "sweep_failed env s")
    case True
    with ok show ?thesis by (simp add: tick_once_cases)
  next
    case False
    let ?P = "\<lambda>t. sys_ok c t \<and> k_watched (y_ctl t) = k_watched (y_ctl s)"
    let ?body = "tick_step env (tick_dt env s)"
    have "?P (snd (?body i g t))" if "g \<in> set (k_watched (y_ctl s))" "?P t" for i g t
      using that sys_ok_step [of c t g env "tick_dt env s" i]
        devices.keeps [of env "tick_dt env s" i g t] by (simp add: tick_shared_def)
    moreover have "?P (swept env s)" using ok by simp
    ultimately have "?P (snd (for_each ?body 0 (k_watched (y_ctl s)) (swept env s)))"
      by (intro for_each_invariant [where P = ?P]) blast+
    with False show ?thesis by (simp add: tick_once_cases)
  qed
qed

lemma sys_ok_stops:
  "sys_ok c s \<Longrightarrow>
   sys_ok c (fold (\<lambda>g s. if pid_for (y_pool s) g \<noteq> None then ctl_schedule_stop g s else s) gs s)"
  by (induction gs arbitrary: s) (simp_all add: sys_ok_stop)

lemma sys_ok_pause: "sys_ok c s \<Longrightarrow> sys_ok c (snd (pause_gpus io now uid user gs d s))"
proof -
  assume ok: "sys_ok c s"
  then have "map_ok (ls_leases (snd (acquire io uid user gs d now (y_leases s))))"
    by (simp add: acquire_leases grant_loop_map_ok sys_ok_def)
  with ok show ?thesis
    by (auto simp: pause_gpus_def Let_def sys_ok_leases sys_ok_stops simp del: not_None_eq
        split: prod.splits sum.splits)
qed

lemma sys_ok_resume: "sys_ok c s \<Longrightarrow> sys_ok c (snd (resume_gpus io uid gs r s))"
proof -
  assume ok: "sys_ok c s"
  then have "map_ok (ls_leases (snd (release io uid gs r (y_leases s))))"
    by (simp add: release_leases release_loop_map_ok sys_ok_def)
  with ok show ?thesis
    by (auto simp: resume_gpus_def sys_ok_leases split: prod.splits)
qed

section \<open>Requests and reloads keep it\<close>

lemma deque_maxlen_nonneg: "deque_maxlen n = Inr k \<Longrightarrow> 0 \<le> k"
  by (induction n rule: deque_maxlen.induct) (auto split: if_splits)

lemma set_max_entries_ok: "ring_ok h \<Longrightarrow> ring_ok (snd (set_max_entries n h))"
  using deque_maxlen_nonneg [of n]
  by (auto simp: set_max_entries_def ring_ok_def split: sum.splits)

lemma apply_new_config_ok:
  assumes "daemon_ok d" "config_ok cfg"
  shows "daemon_ok (snd (apply_new_config env cfg actor d))"
proof -
  let ?d = "swap_config cfg d"
  let ?h = "snd (set_max_entries (max_entries (history cfg)) (y_hist (dm_sys ?d)))"
  have "ring_ok (y_hist (dm_sys ?d))"
    using assms(1) by (simp add: daemon_ok_def sys_ok_def swap_config_def Let_def)
  then have "sys_ok cfg ((dm_sys ?d)\<lparr>y_hist := ?h\<rparr>)" "dm_cfg ?d = cfg"
    using assms(1)
    by (simp_all add: daemon_ok_def sys_ok_def swap_config_def Let_def replace_config_def
        replace_worker_config_def states_ok_def pool_ok_def set_max_entries_ok)
  moreover from this have "sys_ok cfg ((dm_sys ?d)\<lparr>y_hist := ?h,
      y_ctl := set_watched gpus (y_ctl (dm_sys ?d))\<rparr>)" for gpus
    using set_watched_ok by (simp add: sys_ok_def set_watched_def Let_def)
  ultimately show ?thesis
    using assms(2)
    by (auto simp: apply_new_config_def Let_def daemon_ok_def split: prod.splits option.splits
        sum.splits)
qed

lemma reload_ok: "daemon_ok d \<Longrightarrow> daemon_ok (snd (reload_config env actor d))"
  using load_config_ok [of "sv_cfg_path env" "sv_cfg_file env"] apply_new_config_ok
  by (auto simp: reload_config_def record_bad_config_def split: sum.splits)

lemma daemon_ok_sys: "daemon_ok d \<Longrightarrow> sys_ok (dm_cfg d) s \<Longrightarrow> daemon_ok (d\<lparr>dm_sys := s\<rparr>)"
  by (simp add: daemon_ok_def)

text \<open>What the handlers do to the daemon, up to the events they record.\<close>

definition records :: "(daemon \<Rightarrow> daemon) \<Rightarrow> bool" where
  "records f \<longleftrightarrow> (\<forall>d. daemon_ok (f d) = daemon_ok d \<and> dm_cfg (f d) = dm_cfg d \<and>
     y_leases (dm_sys (f d)) = y_leases (dm_sys d) \<and> y_pool (dm_sys (f d)) = y_pool (dm_sys d) \<and>
     y_ctl (dm_sys (f d)) = y_ctl (dm_sys d))"

lemma records_simps [intro]:
  "records (\<lambda>d. d)" "records (dm_record now uid user cmd args ok e n)"
  "records (record_bad_config env actor x)"
  by (simp_all add: records_def record_bad_config_def)

lemma records_fold:
  "(\<And>x. records (f x)) \<Longrightarrow> records (fold f xs)"
  by (induction xs) (auto simp: records_def)

lemma records_comp: "records f \<Longrightarrow> records g \<Longrightarrow> records (\<lambda>d. f (g d))"
  by (simp add: records_def)

lemma records_resumes [intro]: "records (record_resumes now c rs es)"
proof -
  have eq: "record_resumes now c rs es =
      (\<lambda>d. fold (\<lambda>x. dm_record now (c_uid c) (c_user c) ''resume'' (gpu_args (re_gpu x)) False
           (PStr (re_code x)) PNone) es
         (fold (\<lambda>g. dm_record now (c_uid c) (c_user c) ''resume'' (gpu_args g) True PNone PNone) rs d))"
    by (simp add: fun_eq_iff record_resumes_def)
  show ?thesis
    unfolding eq by (rule records_comp [OF records_fold records_fold]; rule records_simps)
qed

lemma handle_pause_cases:
  obtains (refused) "snd (handle_pause env c req d) = d"
  | (asked) gs dur f where "check_pause (sv_fmt env) req d = Inr (Inr (gs, dur))" "records f"
    "snd (handle_pause env c req d) = f (d\<lparr>dm_sys :=
       snd (pause_gpus (sv_io env) (sv_now env) (c_uid c) (c_user c) gs dur (dm_sys d))\<rparr>)"
proof (cases "\<exists>gs dur. check_pause (sv_fmt env) req d = Inr (Inr (gs, dur))")
  case False
  then have "snd (handle_pause env c req d) = d"
    by (auto simp: handle_pause_def split: sum.splits)
  then show ?thesis by (rule refused)
next
  case True
  then obtain gs dur where chk: "check_pause (sv_fmt env) req d = Inr (Inr (gs, dur))" by blast
  obtain r s where p: "pause_gpus (sv_io env) (sv_now env) (c_uid c) (c_user c) gs dur (dm_sys d) = (r, s)"
    by fastforce
  have "\<exists>f. records f \<and> snd (handle_pause env c req d) = f (d\<lparr>dm_sys := s\<rparr>)"
  proof (cases r)
    case (Inl e)
    then show ?thesis
      using chk p by (cases e) (auto simp: handle_pause_def pause_held_def Let_def)
  next
    case (Inr leases)
    then show ?thesis
      using chk p by (auto simp: handle_pause_def Let_def split: sum.splits)
  qed
  with chk p asked show ?thesis by auto
qed

lemma handle_resume_cases:
  obtains (refused) "snd (handle_resume env c req d) = d"
  | (asked) gs f where "gpu_list (dict_get (PDict (rq_args req)) ''gpus'' PNone) = Some gs" "records f"
    "snd (handle_resume env c req d) = f (d\<lparr>dm_sys :=
       snd (resume_gpus (sv_io env) (c_uid c) gs (is_root c) (dm_sys d))\<rparr>)"
proof (cases "\<exists>gs. gpu_list (dict_get (PDict (rq_args req)) ''gpus'' PNone) = Some gs \<and> distinct gs")
  case False
  then have "snd (handle_resume env c req d) = d"
    by (auto simp: handle_resume_def Let_def split: option.splits)
  then show ?thesis by (rule refused)
next
  case True
  then obtain gs where gs: "gpu_list (dict_get (PDict (rq_args req)) ''gpus'' PNone) = Some gs"
      "distinct gs" by blast
  obtain r s where r: "resume_gpus (sv_io env) (c_uid c) gs (is_root c) (dm_sys d) = (r, s)"
    by fastforce
  have "\<exists>f. records f \<and> snd (handle_resume env c req d) = f (d\<lparr>dm_sys := s\<rparr>)"
    using gs r by (auto simp: handle_resume_def Let_def split: sum.splits)
  with gs r asked show ?thesis by auto
qed

lemma pause_ok: "daemon_ok d \<Longrightarrow> daemon_ok (snd (handle_pause env c req d))"
  by (rule handle_pause_cases [of env c req d])
    (simp_all add: records_def daemon_ok_sys sys_ok_pause, simp add: daemon_ok_def sys_ok_pause)

lemma resume_ok: "daemon_ok d \<Longrightarrow> daemon_ok (snd (handle_resume env c req d))"
  by (rule handle_resume_cases [of env c req d])
    (simp_all add: records_def daemon_ok_sys sys_ok_resume, simp add: daemon_ok_def sys_ok_resume)

lemma config_reload_same:
  "snd (handle_config_reload env c req d) = snd (reload_config env (Some c) d)"
  by (auto simp: handle_config_reload_def reload_config_def split: sum.splits prod.splits option.splits)

lemma config_reload_ok: "daemon_ok d \<Longrightarrow> daemon_ok (snd (handle_config_reload env c req d))"
  by (simp add: config_reload_same reload_ok)

lemma dispatch_ok: "daemon_ok d \<Longrightarrow> daemon_ok (snd (dispatch env c req d))"
proof -
  assume ok: "daemon_ok d"
  then have "daemon_ok (snd (run_cmd env c cmd req d))" for cmd
    by (simp add: run_cmd_def pause_ok resume_ok config_reload_ok)
  from this [of "upper (rq_cmd req)"] ok show ?thesis
    by (auto simp: dispatch_def Let_def split: sum.splits prod.splits bool.splits)
qed

lemma task_ok:
  assumes "daemon_ok d" "t \<in> set (p_tasks (y_pool (dm_sys d)))"
  shows "daemon_ok (daemon_task now timeout t d)"
proof -
  let ?p = "fst (activate timeout t (y_pool (dm_sys d)))"
  have "pool_ok ?p"
    using assms pool_ok_step [OF pool_step.activate [of t _ "\<lambda>_ _. True" timeout]]
    by (simp add: daemon_ok_def sys_ok_def)
  moreover have "p_cfg ?p = p_cfg (y_pool (dm_sys d))"
    by (cases t) (auto simp: activate_def add_task_def cleanup_def split: option.splits)
  ultimately have "daemon_ok (d\<lparr>dm_sys := (dm_sys d)\<lparr>y_pool := ?p\<rparr>\<rparr>)"
    using assms(1) by (simp add: daemon_ok_def sys_ok_def)
  then show ?thesis
    by (auto simp: daemon_task_def Let_def on_worker_exit_def split: prod.splits option.splits)
qed

lemma happen_ok: "daemon_ok d \<Longrightarrow> daemon_ok (happen e d)"
proof (cases e)
  case (Tick env)
  then show "daemon_ok d \<Longrightarrow> daemon_ok (happen e d)"
    by (simp add: daemon_tick_def daemon_ok_sys sys_ok_tick daemon_ok_def)
next
  case (Expiry io now)
  then show "daemon_ok d \<Longrightarrow> daemon_ok (happen e d)"
    using sys_ok_sweep [of "dm_cfg d" "dm_sys d" io now]
    by (auto simp: expiry_round_def daemon_ok_def split: prod.splits)
next
  case (WorkerExit po rc)
  then show "daemon_ok d \<Longrightarrow> daemon_ok (happen e d)"
    by (auto simp: on_pool_def daemon_ok_def sys_ok_def process_exit_def pool_ok_def)
next
  case (WriteHistory io)
  then show "daemon_ok d \<Longrightarrow> daemon_ok (happen e d)"
    using writer_recent [of "y_hist (dm_sys d)" io] by (simp add: daemon_ok_def sys_ok_def)
qed (simp_all add: dispatch_ok reload_ok task_ok)

lemma load_history_ok: "ring_ok h \<Longrightarrow> ring_ok (snd (load_history F h))"
  by (auto simp: load_history_def ring_ok_def Let_def split: hfile.splits sum.splits)

lemma init_ok:
  assumes "config_ok cfg" "daemon_init cfg pid now sf hf = Inr d"
  shows "daemon_ok d"
proof -
  obtain h where h: "history_init hf (max_entries (history cfg)) = Inr h"
      "d = \<lparr>dm_cfg = cfg, dm_sys = \<lparr>y_ctl = controller_init cfg,
        y_leases = \<lparr>ls_leases = [], ls_disk = sf\<rparr>, y_pool = pool_init (worker cfg), y_hist = h\<rparr>,
        dm_nvml_ok = False, dm_started_at = now, dm_pid = pid\<rparr>"
    using assms(2) by (auto simp: daemon_init_def res_simps)
  then have "ring_ok h"
    by (auto simp: history_init_def ring_ok_def res_simps split: if_splits)
  with h assms(1) show ?thesis
    using pool_ok_init
    by (simp add: daemon_ok_def sys_ok_def controller_init_def states_ok_def pool_init_def)
qed

lemma startup_ok: "daemon_ok d \<Longrightarrow> daemon_ok (snd (startup env nvml_ok d))"
proof -
  assume ok: "daemon_ok d"
  let ?s = "\<lambda>gpus. (dm_sys d)\<lparr>y_ctl := set_watched gpus (y_ctl (dm_sys d))\<rparr>"
  have s: "sys_ok (dm_cfg d) (?s gpus)" for gpus
    using ok set_watched_ok by (simp add: daemon_ok_def sys_ok_def set_watched_def Let_def)
  have h: "ring_ok (snd (load_history (sv_fmt env) (y_hist (dm_sys d))))"
    and l: "map_ok (ls_leases (snd (load_leases (sv_fmt env) (sv_now env) (y_leases (dm_sys d)))))"
    using ok load_history_ok load_leases_map_ok by (simp_all add: daemon_ok_def sys_ok_def)
  show ?thesis
    using ok s h l
    by (auto simp: startup_def Let_def daemon_ok_def sys_ok_def split: sum.splits prod.splits
        option.splits)
qed

lemma daemon_run_ok: "daemon_run d \<Longrightarrow> daemon_ok d"
proof (induction rule: daemon_run.induct)
  case (started path fl cfg pid now sf hf d0 env nvml_ok d)
  then have "daemon_ok d0" by (blast intro: init_ok load_config_ok)
  with started(3) startup_ok [of d0 env nvml_ok] show ?case by simp
next
  case (event d e)
  then show ?case by (simp add: happen_ok)
qed

section \<open>The promise of a pause\<close>

text \<open>GPU \<open>g\<close> is leased to \<open>h\<close> until \<open>T\<close> at least.\<close>

definition leased_until :: "int \<Rightarrow> int \<Rightarrow> real \<Rightarrow> lease_store \<Rightarrow> bool" where
  "leased_until h g T ls \<longleftrightarrow>
     (case lease_get ls g of None \<Rightarrow> False | Some l \<Rightarrow> l_uid l = h \<and> Fin T \<le> l_expires_at l)"

text \<open>Events that leave \<open>h\<close>'s leases until \<open>T\<close> alone: no resume by \<open>h\<close> or root, no sweep at \<open>T\<close>
  or later.\<close>

fun spares :: "int \<Rightarrow> real \<Rightarrow> event \<Rightarrow> bool" where
  "spares h T (Serve env c req) \<longleftrightarrow>
     \<not> ((c_uid c = h \<or> c_uid c = 0) \<and> upper (rq_cmd req) = ''RESUME'')"
| "spares h T (Tick env) \<longleftrightarrow> t_wall env < T"
| "spares h T (Expiry io now) \<longleftrightarrow> now < T"
| "spares h T _ \<longleftrightarrow> True"

definition gpu_proc :: "daemon \<Rightarrow> int \<Rightarrow> nat option" where
  "gpu_proc d g = map_of (p_procs (y_pool (dm_sys d))) g"

lemma fin_le_fmax: "Fin T \<le> x \<Longrightarrow> Fin T \<le> fmax x (Fin u)"
  by (cases x) (auto simp: fmax_def)

lemma leased_acquire:
  assumes "leased_until h g T ls"
  shows "leased_until h g T (snd (acquire io uid user gs d now ls))"
proof -
  obtain l where l: "map_of (ls_leases ls) g = Some l" "l_uid l = h" "Fin T \<le> l_expires_at l"
    using assms by (auto simp: leased_until_def lease_get_def split: option.splits)
  show ?thesis
  proof (cases "uid = h")
    case True
    then show ?thesis
      using l by (auto simp: leased_until_def lease_get_def acquire_leases grant_loop_lookup
          new_lease_def Let_def fin_le_fmax)
  next
    case False
    then have "map_of (ls_leases (snd (acquire io uid user gs d now ls))) g = Some l"
      using l by (intro acquire_keeps_foreign) simp_all
    with l show ?thesis by (simp add: leased_until_def lease_get_def)
  qed
qed

lemma leased_release:
  assumes "leased_until h g T ls" "uid \<noteq> h"
  shows "leased_until h g T (snd (release io uid gs False ls))"
  using assms
  by (auto simp: leased_until_def lease_get_def release_leases release_loop_keeps
      split: option.splits)

lemma leased_sweep:
  assumes "leased_until h g T ls" "map_ok (ls_leases ls)" "now < T"
  shows "leased_until h g T (snd (sweep_expired io now ls))"
proof -
  obtain l where l: "map_of (ls_leases ls) g = Some l" "l_uid l = h" "Fin T \<le> l_expires_at l"
    using assms(1) by (auto simp: leased_until_def lease_get_def split: option.splits)
  have "g \<notin> set (expired_keys now (ls_leases ls))"
  proof
    assume "g \<in> set (expired_keys now (ls_leases ls))"
    then obtain l' where "(g, l') \<in> set (ls_leases ls)" "l_expires_at l' \<le> Fin now"
      by (auto simp: expired_keys_def)
    moreover from this have "l' = l"
      using assms(2) l(1) by (simp add: map_ok_def)
    ultimately show False using l(3) assms(3) by (cases "l_expires_at l") auto
  qed
  with l show ?thesis
    by (simp add: leased_until_def lease_get_def sweep_leases map_of_filter_key)
qed

lemma pause_leases:
  "y_leases (snd (pause_gpus io now uid user gs dur s)) = y_leases s \<or>
   y_leases (snd (pause_gpus io now uid user gs dur s)) =
     snd (acquire io uid user gs dur now (y_leases s))"
  using stop_fold [of gs]
  by (auto simp: pause_gpus_def Let_def simp del: not_None_eq split: prod.splits sum.splits)

lemma pause_procs:
  "p_procs (y_pool (snd (pause_gpus io now uid user gs dur s))) = p_procs (y_pool s)"
  using stop_fold [of gs]
  by (auto simp: pause_gpus_def Let_def simp del: not_None_eq split: prod.splits sum.splits)

lemma resume_leases:
  "y_leases (snd (resume_gpus io uid gs r s)) = snd (release io uid gs r (y_leases s))"
  "y_pool (snd (resume_gpus io uid gs r s)) = y_pool s"
  by (simp_all add: resume_gpus_def split: prod.splits)

lemma reload_keeps:
  "y_leases (dm_sys (snd (reload_config env actor d))) = y_leases (dm_sys d)"
  "p_procs (y_pool (dm_sys (snd (reload_config env actor d)))) = p_procs (y_pool (dm_sys d))"
  by (auto simp: reload_config_def apply_new_config_def swap_config_def record_bad_config_def
      replace_worker_config_def Let_def split: sum.splits prod.splits option.splits)

lemma dispatch_runs:
  "snd (dispatch env c req d) = d \<or>
   snd (dispatch env c req d) = snd (run_cmd env c (upper (rq_cmd req)) req d)"
  by (auto simp: dispatch_def Let_def split: sum.splits prod.splits bool.splits)

lemma run_cmd_leased:
  assumes "leased_until h g T (y_leases (dm_sys d))"
    and "\<not> ((c_uid c = h \<or> c_uid c = 0) \<and> cmd = ''RESUME'')"
  shows "leased_until h g T (y_leases (dm_sys (snd (run_cmd env c cmd req d)))) \<and>
    p_procs (y_pool (dm_sys (snd (run_cmd env c cmd req d)))) = p_procs (y_pool (dm_sys d))"
proof -
  have pause: "leased_until h g T (y_leases (dm_sys (snd (handle_pause env c req d)))) \<and>
      p_procs (y_pool (dm_sys (snd (handle_pause env c req d)))) = p_procs (y_pool (dm_sys d))"
  proof (rule handle_pause_cases [of env c req d])
    fix gs dur f
    let ?s = "snd (pause_gpus (sv_io env) (sv_now env) (c_uid c) (c_user c) gs dur (dm_sys d))"
    assume "records f" and eq: "snd (handle_pause env c req d) = f (d\<lparr>dm_sys := ?s\<rparr>)"
    then have "y_leases (dm_sys (f (d\<lparr>dm_sys := ?s\<rparr>))) = y_leases ?s"
      "y_pool (dm_sys (f (d\<lparr>dm_sys := ?s\<rparr>))) = y_pool ?s"
      by (simp_all add: records_def)
    with eq show ?thesis
      using assms(1) leased_acquire pause_procs
        pause_leases [of "sv_io env" "sv_now env" "c_uid c" "c_user c" gs dur "dm_sys d"]
      by fastforce
  qed (use assms(1) in simp)
  have resume: "leased_until h g T (y_leases (dm_sys (snd (handle_resume env c req d)))) \<and>
      p_procs (y_pool (dm_sys (snd (handle_resume env c req d)))) = p_procs (y_pool (dm_sys d))"
    if "c_uid c \<noteq> h" "c_uid c \<noteq> 0"
    using leased_release [OF assms(1) that(1)] that(2) assms(1)
    by (rule_tac handle_resume_cases [of env c req d])
      (simp_all add: records_def resume_leases is_root_def)
  show ?thesis
    using assms pause resume reload_keeps
    by (auto simp: run_cmd_def config_reload_same)
qed

lemma cleanup_proc: "map_of (p_procs (cleanup h p)) g \<in> {None, map_of (p_procs p) g}"
  by (simp add: cleanup_def)

lemma task_proc:
  "map_of (p_procs (fst (activate b t p))) g \<in> {None, map_of (p_procs p) g}"
  using cleanup_proc [of _ "p\<lparr>p_tasks := remove1 t (p_tasks p)\<rparr>" g]
  by (cases t) (auto simp: activate_def add_task_def split: option.splits)

lemma daemon_task_sys:
  "y_leases (dm_sys (daemon_task now b t d)) = y_leases (dm_sys d)"
  "y_pool (dm_sys (daemon_task now b t d)) = fst (activate b t (y_pool (dm_sys d)))"
  by (simp_all add: daemon_task_def on_worker_exit_def Let_def split: prod.splits option.splits)

lemma leased_covers: "leased_until h g T ls \<Longrightarrow> covers ls g"
  by (auto simp: leased_until_def lease_get_def covers_def split: option.splits dest: map_of_SomeD)
    (force dest: map_of_SomeD)

lemma happen_leased:
  assumes "daemon_ok d" "leased_until h g T (y_leases (dm_sys d))" "spares h T e"
  shows "leased_until h g T (y_leases (dm_sys (happen e d))) \<and>
    gpu_proc (happen e d) g \<in> {None, gpu_proc d g}"
proof (cases e)
  case (Serve env c req)
  then show ?thesis
    using assms(2,3) run_cmd_leased [OF assms(2), of c "upper (rq_cmd req)" env req]
      dispatch_runs [of env c req d]
    by (auto simp: gpu_proc_def)
next
  case (Tick env)
  have "leased_until h g T (y_leases (swept env (dm_sys d)))"
    using assms leased_sweep [OF assms(2)] Tick
    by (simp add: swept_def sweep_and_record_frame start_tick_def daemon_ok_def sys_ok_def)
  then have "leased_until h g T (y_leases (snd (tick_once env (dm_sys d))))"
    by (simp add: tick_leases)
  with tick_no_spawn [OF leased_covers [OF this]] Tick show ?thesis
    by (simp add: daemon_tick_def gpu_proc_def)
next
  case (Expiry io now)
  then show ?thesis
    using assms leased_sweep [OF assms(2)]
    by (auto simp: expiry_round_def gpu_proc_def daemon_ok_def sys_ok_def sweep_and_record_frame
        split: prod.splits dest!: arg_cong [where f = snd])
next
  case (PoolTask now b t)
  then show ?thesis
    using assms task_proc [of b t "y_pool (dm_sys d)" g] by (simp add: daemon_task_sys gpu_proc_def)
qed (use assms in \<open>simp_all add: reload_keeps gpu_proc_def on_pool_def process_exit_def\<close>)

text \<open>A daemon before its startup, for examples; it becomes \<open>demo_daemon\<close>.\<close>

definition fresh_daemon :: daemon where
  "fresh_daemon =
     \<lparr>dm_cfg = default_config, dm_sys = \<lparr>y_ctl = controller_init default_config,
        y_leases = \<lparr>ls_leases = [], ls_disk = SNoFile\<rparr>, y_pool = pool_init (worker default_config),
        y_hist = \<lparr>h_max = 1000, h_ring = [], h_lines = 0, h_queue = [], h_file = HNoFile\<rparr>\<rparr>,
      dm_nvml_ok = False, dm_started_at = 0, dm_pid = 1\<rparr>"

lemma fresh_init: "daemon_init default_config 1 0 SNoFile HNoFile = Inr fresh_daemon"
  by (simp add: fresh_daemon_def daemon_init_def history_init_def default_config_def HistoryCfg_def kwarg_def)

lemma fresh_startup: "startup (demo_env 0) True fresh_daemon = (None, demo_daemon)"
  by (simp add: fresh_daemon_def demo_daemon_def startup_def demo_simps resolve_watched_def
      default_config_def GpuCfg_def kwarg_def load_history_def load_leases_def)

lemma demo_run: "daemon_run demo_daemon"
  by (rule daemon_run.started [OF load_config_absent fresh_init fresh_startup])

text \<open>C1. A granted pause is kept. In any run of the daemon, as long as no lease sweep happens at
  \<open>T\<close> or later and neither the holder nor root asks to resume, GPU \<open>g\<close> stays leased to its
  holder until \<open>T\<close>, and no new worker process is started on it: requests by anyone, ticks,
  sweeps, reloads, restarts of the event loop's tasks and process exits cannot end the lease, and
  the GPU's worker is the one it had or none.\<close>

theorem pause_kept:
  assumes "daemon_run d" "leased_until h g T (y_leases (dm_sys d))" "\<forall>e \<in> set es. spares h T e"
  shows "leased_until h g T (y_leases (dm_sys (fold happen es d))) \<and>
    gpu_proc (fold happen es d) g \<in> {None, gpu_proc d g}"
  using assms
proof (induction es arbitrary: d)
  case (Cons e es)
  from happen_leased [OF daemon_run_ok [OF Cons.prems(1)] Cons.prems(2), of e] Cons.prems(3)
  have "leased_until h g T (y_leases (dm_sys (happen e d)))"
    "gpu_proc (happen e d) g \<in> {None, gpu_proc d g}"
    by simp_all
  with Cons.IH [of "happen e d"] Cons.prems(3) daemon_run.event [OF Cons.prems(1), of e]
  show ?case by auto
qed simp

lemma demo_check: "check_pause F pause_req demo_daemon = Inr (Inr ([7], 600))"
  by (simp add: check_pause_def pause_req_def dict_get_def gpu_list_def demo_fields default_config_def
      PauseCfg_def kwarg_def py_cmp_def)

lemma demo_granted:
  "pause_gpus True 0 0 ''root'' [7] 600 (dm_sys demo_daemon) =
     (Inr [\<lparr>l_uid = 0, l_user = ''root'', l_gpu = 7, l_acquired_at = Fin 0, l_expires_at = Fin 600\<rparr>],
      (dm_sys demo_daemon)\<lparr>y_leases :=
        \<lparr>ls_leases = [(7, \<lparr>l_uid = 0, l_user = ''root'', l_gpu = 7, l_acquired_at = Fin 0,
            l_expires_at = Fin 600\<rparr>)],
         ls_disk = SDoc (state_doc [(7, \<lparr>l_uid = 0, l_user = ''root'', l_gpu = 7,
           l_acquired_at = Fin 0, l_expires_at = Fin 600\<rparr>)])\<rparr>\<rparr>)"
  by (simp add: pause_gpus_def demo_fields acquire_def persist_def new_lease_def fmax_def
      pid_for_def pool_init_def Let_def)

lemma demo_pause:
  "\<exists>r d'. dispatch (demo_env 0) root_user pause_req demo_daemon = (Inr r, d') \<and> rs_ok r \<and>
     leased_until 0 7 600 (y_leases (dm_sys d'))"
proof -
  let ?h = "handle_pause (demo_env 0) root_user pause_req demo_daemon"
  have h: "\<exists>r d'. ?h = (Inr r, d') \<and> rs_ok r \<and> leased_until 0 7 600 (y_leases (dm_sys d'))"
    using demo_check demo_granted
    by (simp add: handle_pause_def root_user_def demo_env_def clock_text_def lease_reply_def
        remaining_s_def trunc_def leased_until_def lease_get_def Let_def)
  moreover have "upper (rq_cmd pause_req) = ''PAUSE''" "c_uid root_user = 0"
    by (simp_all add: pause_req_def root_user_def demo_upper)
  ultimately show ?thesis
    by (auto simp: dispatch_def run_cmd_def all_cmds_def root_cmds_def whitelist_cmds_def
        any_cmds_def)
qed

theorem pause_kept_witness:
  "leased_until 0 7 600 (y_leases (dm_sys
     (fold happen [Tick (idle_env 2), Serve (demo_env 5) alice pause_req, Expiry True 599]
       (snd (dispatch (demo_env 0) root_user pause_req demo_daemon)))))"
proof -
  have "daemon_run (happen (Serve (demo_env 0) root_user pause_req) demo_daemon)"
    by (rule daemon_run.event [OF demo_run])
  moreover have "leased_until 0 7 600 (y_leases (dm_sys
      (happen (Serve (demo_env 0) root_user pause_req) demo_daemon)))"
    using demo_pause by auto
  moreover have "\<forall>e \<in> set [Tick (idle_env 2), Serve (demo_env 5) alice pause_req, Expiry True 599].
      spares 0 600 e"
    by (simp add: idle_env_def alice_def)
  ultimately have "leased_until 0 7 600 (y_leases (dm_sys
     (fold happen [Tick (idle_env 2), Serve (demo_env 5) alice pause_req, Expiry True 599]
       (happen (Serve (demo_env 0) root_user pause_req) demo_daemon))))"
    by (rule pause_kept [THEN conjunct1])
  then show ?thesis by simp
qed

lemma check_pause_accepts:
  assumes "check_pause F req d = Inr (Inr (gs, dur))"
  shows "gpu_list (dict_get (PDict (rq_args req)) ''gpus'' PNone) = Some gs \<and> distinct gs \<and>
    set gs \<subseteq> set (k_watched (y_ctl (dm_sys d))) \<and>
    py_int (dict_get (PDict (rq_args req)) ''duration_s'' PNone) = Inr dur \<and>
    num_sat (\<lambda>lo. \<not> Fin (real_of_int dur) < lo) (min_duration_s (pause (dm_cfg d))) \<and>
    num_sat (\<lambda>hi. \<not> hi < Fin (real_of_int dur)) (max_duration_s (pause (dm_cfg d)))"
  using assms
  by (auto simp: check_pause_def Let_def res_simps filter_empty_conv num_sat_def
      dest!: py_cmp_InrD split: option.splits if_splits)

lemma gpu_list_nonempty: "gpu_list v = Some gs \<Longrightarrow> gs \<noteq> []"
proof -
  have "plain_ints xs = Some [] \<Longrightarrow> xs = []" for xs
    by (induction xs rule: plain_ints.induct) auto
  then show "gpu_list v = Some gs \<Longrightarrow> gs \<noteq> []"
    by (auto simp: gpu_list_def split: pyval.splits if_splits)
qed

lemma check_pause_refuses: "check_pause F req d = Inr (Inl r) \<Longrightarrow> \<not> rs_ok r"
  by (auto simp: check_pause_def Let_def res_simps split: option.splits if_splits)

lemma handle_pause_success:
  assumes "fst (handle_pause env c req d) = Inr r" "rs_ok r"
  shows "\<exists>gs dur leases f. check_pause (sv_fmt env) req d = Inr (Inr (gs, dur)) \<and> records f \<and>
    fst (pause_gpus (sv_io env) (sv_now env) (c_uid c) (c_user c) gs dur (dm_sys d)) = Inr leases \<and>
    snd (handle_pause env c req d) = f (d\<lparr>dm_sys :=
       snd (pause_gpus (sv_io env) (sv_now env) (c_uid c) (c_user c) gs dur (dm_sys d))\<rparr>)"
proof -
  obtain gs dur where chk: "check_pause (sv_fmt env) req d = Inr (Inr (gs, dur))"
    using assms check_pause_refuses [of "sv_fmt env" req d]
    by (auto simp: handle_pause_def split: sum.splits prod.splits)
  obtain x s where p:
    "pause_gpus (sv_io env) (sv_now env) (c_uid c) (c_user c) gs dur (dm_sys d) = (x, s)"
    by fastforce
  show ?thesis
  proof (cases x)
    case (Inl e)
    then show ?thesis
      using chk p assms by (cases e) (auto simp: handle_pause_def pause_held_def Let_def)
  next
    case (Inr leases)
    then have "\<exists>f. records f \<and> snd (handle_pause env c req d) = f (d\<lparr>dm_sys := s\<rparr>)"
      using chk p by (auto simp: handle_pause_def Let_def split: sum.splits)
    with chk p Inr show ?thesis by auto
  qed
qed

lemma pause_granted_leases:
  assumes "fst (pause_gpus io now uid user gs dur s) = Inr leases" "map_ok (ls_leases (y_leases s))"
    and "g \<in> set gs"
  shows "leased_until uid g (now + real_of_int dur) (y_leases (snd (pause_gpus io now uid user gs dur s)))"
    and "pid_for (y_pool s) g \<noteq> None \<Longrightarrow>
      StopTask g \<in> set (p_tasks (y_pool (snd (pause_gpus io now uid user gs dur s))))"
proof -
  obtain ls where acq: "acquire io uid user gs dur now (y_leases s) = (Inr leases, ls)"
    and eq: "snd (pause_gpus io now uid user gs dur s) =
      fold (\<lambda>g s. if pid_for (y_pool s) g \<noteq> None then ctl_schedule_stop g s else s) gs
        (s\<lparr>y_leases := ls\<rparr>)"
    using assms(1) by (auto simp: pause_gpus_def Let_def split: prod.splits sum.splits if_splits)
  have l: "lease_get ls g = Some (new_lease uid user dur now (ls_leases (y_leases s)) g)"
    using acquire_Inr(2) [OF acq assms(3)] .
  show "leased_until uid g (now + real_of_int dur) (y_leases (snd (pause_gpus io now uid user gs dur s)))"
    using l new_lease_deadline [OF assms(2), of now dur uid user g]
      stop_fold [of gs "s\<lparr>y_leases := ls\<rparr>"]
    unfolding eq by (simp add: leased_until_def)
  show "pid_for (y_pool s) g \<noteq> None \<Longrightarrow>
      StopTask g \<in> set (p_tasks (y_pool (snd (pause_gpus io now uid user gs dur s))))"
    using stop_fold [of gs "s\<lparr>y_leases := ls\<rparr>"] assms(3) unfolding eq by auto
qed

lemma pause_granted_lemma:
  assumes "daemon_run d" "upper (rq_cmd req) = ''PAUSE''"
    and "dispatch env c req d = (Inr r, d')" "rs_ok r"
  shows "\<exists>gs dur. gpu_list (dict_get (PDict (rq_args req)) ''gpus'' PNone) = Some gs \<and> gs \<noteq> [] \<and>
    distinct gs \<and> set gs \<subseteq> set (k_watched (y_ctl (dm_sys d))) \<and>
    py_int (dict_get (PDict (rq_args req)) ''duration_s'' PNone) = Inr dur \<and>
    num_sat (\<lambda>lo. \<not> Fin (real_of_int dur) < lo) (min_duration_s (pause (dm_cfg d))) \<and>
    num_sat (\<lambda>hi. \<not> hi < Fin (real_of_int dur)) (max_duration_s (pause (dm_cfg d))) \<and>
    (\<forall>g \<in> set gs. leased_until (c_uid c) g (sv_now env + real_of_int dur) (y_leases (dm_sys d')) \<and>
       (pid_for (y_pool (dm_sys d)) g \<noteq> None \<longrightarrow> StopTask g \<in> set (p_tasks (y_pool (dm_sys d')))))"
proof -
  have ok: "map_ok (ls_leases (y_leases (dm_sys d)))"
    using daemon_run_ok [OF assms(1)] by (simp add: daemon_ok_def sys_ok_def)
  have "handle_pause env c req d = (Inr r, d')"
    using assms(2-4)
    by (auto simp: dispatch_def Let_def run_cmd_def refuse_unlisted_def root_cmds_def res_simps
        split: sum.splits prod.splits bool.splits if_splits)
  then obtain gs dur leases f where p: "check_pause (sv_fmt env) req d = Inr (Inr (gs, dur))"
      "records f"
      "fst (pause_gpus (sv_io env) (sv_now env) (c_uid c) (c_user c) gs dur (dm_sys d)) = Inr leases"
      "d' = f (d\<lparr>dm_sys :=
         snd (pause_gpus (sv_io env) (sv_now env) (c_uid c) (c_user c) gs dur (dm_sys d))\<rparr>)"
    using handle_pause_success [of env c req d r] assms(4) by auto
  have same: "y_leases (dm_sys (f x)) = y_leases (dm_sys x)" "y_pool (dm_sys (f x)) = y_pool (dm_sys x)"
    for x using p(2) by (simp_all add: records_def)
  note chk = check_pause_accepts [OF p(1)]
  moreover from this have "gs \<noteq> []" using gpu_list_nonempty by blast
  ultimately show ?thesis
    using pause_granted_leases [OF p(3) ok]
    by (intro exI [of _ gs] exI [of _ dur]) (simp add: p(4) same)
qed

text \<open>C2. What an accepted pause grants: when a running daemon answers a PAUSE with success, the
  request named distinct watched GPUs and a duration within the configured bounds, every one of
  those GPUs is leased to the caller for at least that long from now, and a worker on any of them
  is being stopped.\<close>

theorem pause_granted:
  assumes "daemon_run d" "upper (rq_cmd req) = ''PAUSE''"
    and "dispatch env c req d = (Inr r, d')" "rs_ok r"
  shows "\<exists>gs dur. gpu_list (dict_get (PDict (rq_args req)) ''gpus'' PNone) = Some gs \<and> gs \<noteq> [] \<and>
    distinct gs \<and> set gs \<subseteq> set (k_watched (y_ctl (dm_sys d))) \<and>
    py_int (dict_get (PDict (rq_args req)) ''duration_s'' PNone) = Inr dur \<and>
    num_sat (\<lambda>lo. \<not> Fin (real_of_int dur) < lo) (min_duration_s (pause (dm_cfg d))) \<and>
    num_sat (\<lambda>hi. \<not> hi < Fin (real_of_int dur)) (max_duration_s (pause (dm_cfg d))) \<and>
    (\<forall>g \<in> set gs. leased_until (c_uid c) g (sv_now env + real_of_int dur) (y_leases (dm_sys d')) \<and>
       (pid_for (y_pool (dm_sys d)) g \<noteq> None \<longrightarrow> StopTask g \<in> set (p_tasks (y_pool (dm_sys d')))))"
  using assms by (rule pause_granted_lemma)

theorem pause_granted_witness:
  "\<exists>r d'. dispatch (demo_env 0) root_user pause_req demo_daemon = (Inr r, d') \<and>
     leased_until 0 7 600 (y_leases (dm_sys d'))"
proof -
  obtain r d' where d: "dispatch (demo_env 0) root_user pause_req demo_daemon = (Inr r, d')" "rs_ok r"
    using demo_pause by blast
  have "upper (rq_cmd pause_req) = ''PAUSE''" by (simp add: pause_req_def demo_upper)
  from pause_granted [OF demo_run this d] have "leased_until 0 7 600 (y_leases (dm_sys d'))"
    by (auto simp: pause_req_def dict_get_def gpu_list_def demo_env_def root_user_def)
  with d show ?thesis by blast
qed

text \<open>C3. The invariant of the running daemon: from startup on, after any events in any order, the
  configuration is valid and the same one in the daemon, the controller and the worker pool, the
  controller has a state for exactly the watched GPUs, the pool's dicts agree, the leases are
  well-formed and the event ring is within its bound.\<close>

theorem daemon_invariant:
  assumes "daemon_run d"
  shows "config_ok (dm_cfg d) \<and> k_cfg (y_ctl (dm_sys d)) = dm_cfg d \<and>
    p_cfg (y_pool (dm_sys d)) = worker (dm_cfg d) \<and>
    set (dkeys (k_states (y_ctl (dm_sys d)))) = set (k_watched (y_ctl (dm_sys d))) \<and>
    pool_ok (y_pool (dm_sys d)) \<and> map_ok (ls_leases (y_leases (dm_sys d))) \<and>
    int (length (h_ring (y_hist (dm_sys d)))) \<le> h_max (y_hist (dm_sys d))"
  using daemon_run_ok [OF assms] by (simp add: daemon_ok_def sys_ok_def states_ok_def ring_ok_def)

theorem daemon_invariant_witness:
  "set (dkeys (k_states (y_ctl (dm_sys
     (happen (Serve (demo_env 0) root_user pause_req) demo_daemon))))) =
   set (k_watched (y_ctl (dm_sys (happen (Serve (demo_env 0) root_user pause_req) demo_daemon))))"
  using daemon_invariant [OF daemon_run.event [OF demo_run]] by blast

end
