(* ===== verification/Paths.thy ===== *)
theory Paths
  imports PyText
begin

text \<open>
  \<open>src/src/ocp/paths.py\<close>: where the daemon, the command line and the workers find their files. A
  \<open>Path\<close> of the standard library is its root and its parts; blank and \<open>.\<close> parts disappear when a
  string is turned into one. The environment is an association list, and \<open>pw_dir\<close> is root's home
  directory, if the password database has one.
\<close>

section \<open>Paths of the standard library\<close>

record ppath =
  pp_root :: string
  pp_parts :: "string list"

definition path_of :: "string \<Rightarrow> ppath" where
  "path_of s =
     \<lparr>pp_root = (if take 2 s = ''//'' \<and> take 3 s \<noteq> ''///'' then ''//''
                 else if take 1 s = ''/'' then ''/'' else []),
      pp_parts = filter (\<lambda>p. p \<noteq> [] \<and> p \<noteq> ''.'') (split_on (CHR ''/'') s)\<rparr>"

definition path_str :: "ppath \<Rightarrow> string" where
  "path_str p =
     (if pp_root p = [] \<and> pp_parts p = [] then ''.'' else pp_root p @ join ''/'' (pp_parts p))"

definition path_join :: "ppath \<Rightarrow> string \<Rightarrow> ppath" where
  "path_join p s =
     (let q = path_of s in
      if pp_root q \<noteq> [] then q else p\<lparr>pp_parts := pp_parts p @ pp_parts q\<rparr>)"

definition path_parent :: "ppath \<Rightarrow> ppath" where
  "path_parent p = p\<lparr>pp_parts := butlast (pp_parts p)\<rparr>"

section \<open>The program's paths\<close>

type_synonym environ = "(string \<times> string) list"

definition env_path :: "environ \<Rightarrow> string \<Rightarrow> ppath \<Rightarrow> ppath" where
  "env_path environ var dflt =
     (case map_of environ var of None \<Rightarrow> dflt | Some s \<Rightarrow> if s = [] then dflt else path_of s)"

definition root_home :: "string option \<Rightarrow> ppath" where
  "root_home pw_dir = (case pw_dir of None \<Rightarrow> path_of ''/root'' | Some s \<Rightarrow> path_of s)"

definition run_dir :: "environ \<Rightarrow> ppath" where
  "run_dir environ = env_path environ ''OCP_RUN_DIR'' (path_of ''/run/ocp'')"

definition config_dir :: "environ \<Rightarrow> string option \<Rightarrow> ppath" where
  "config_dir environ pw_dir = env_path environ ''OCP_CONFIG_DIR'' (path_join (root_home pw_dir) ''.ocp'')"

definition log_dir :: "environ \<Rightarrow> ppath" where
  "log_dir environ = env_path environ ''OCP_LOG_DIR'' (path_of ''/var/log/ocp'')"

record paths =
  pa_socket :: ppath
  pa_pidfile :: ppath
  pa_state :: ppath
  pa_config :: ppath
  pa_history :: ppath

definition load_paths :: "environ \<Rightarrow> string option \<Rightarrow> paths" where
  "load_paths environ pw_dir =
     \<lparr>pa_socket = path_join (run_dir environ) ''ocpd.sock'',
      pa_pidfile = path_join (run_dir environ) ''ocpd.pid'',
      pa_state = path_join (run_dir environ) ''state.json'',
      pa_config = path_join (config_dir environ pw_dir) ''config.toml'',
      pa_history = path_join (log_dir environ) ''history.jsonl''\<rparr>"

section \<open>Lemmas\<close>

definition path_ok :: "ppath \<Rightarrow> bool" where
  "path_ok p \<longleftrightarrow> pp_root p \<in> {[], ''/'', ''//''} \<and>
     (\<forall>x \<in> set (pp_parts p). x \<noteq> [] \<and> x \<noteq> ''.'' \<and> CHR ''/'' \<notin> set x)"

lemma path_of_ok: "path_ok (path_of s)"
  using split_on_parts by (auto simp: path_ok_def path_of_def)

lemma path_ok_join: "path_ok p \<Longrightarrow> path_ok (path_join p s)"
  using path_of_ok [of s] by (auto simp: path_join_def path_ok_def Let_def)

lemma path_ok_parent: "path_ok p \<Longrightarrow> path_ok (path_parent p)"
  by (auto simp: path_ok_def path_parent_def dest: in_set_butlastD)

lemma split_root: "split_on (CHR ''/'') (CHR ''/'' # s) = [] # split_on (CHR ''/'') s"
  by simp

lemma join_first: "x \<noteq> [] \<Longrightarrow> \<exists>cs. join sep (x # xs) = hd x # cs"
  by (cases x; cases xs) auto

text \<open>A path prints as a string that is read as the same path.\<close>

lemma path_of_str_lemma:
  assumes "path_ok p"
  shows "path_of (path_str p) = p"
proof -
  obtain r ps where p: "p = \<lparr>pp_root = r, pp_parts = ps\<rparr>" by (cases p)
  have parts: "\<forall>x \<in> set ps. x \<noteq> [] \<and> x \<noteq> ''.'' \<and> CHR ''/'' \<notin> set x" and r: "r \<in> {[], ''/'', ''//''}"
    using assms by (auto simp: path_ok_def p)
  have keep: "filter (\<lambda>p. p \<noteq> [] \<and> p \<noteq> ''.'') ps = ps"
    using parts by (simp add: filter_id_conv)
  show ?thesis
  proof (cases ps)
    case Nil
    with r show ?thesis by (auto simp: p path_str_def path_of_def)
  next
    case (Cons x xs)
    then have "split_on (CHR ''/'') (join ''/'' ps) = ps"
      using parts by (intro split_on_join) auto
    moreover obtain cs where "join ''/'' ps = hd x # cs" "hd x \<noteq> CHR ''/''"
      using join_first [of x "''/''" xs] parts Cons by (metis hd_in_set list.set_intros(1))
    ultimately show ?thesis
      using r keep Cons by (auto simp: p path_str_def path_of_def)
  qed
qed

lemma path_str_nonempty:
  assumes "path_ok p"
  shows "path_str p \<noteq> []"
proof
  assume "path_str p = []"
  with path_of_str_lemma [OF assms] have "p = path_of []" by simp
  then have "path_str p = ''.''" by (simp add: path_of_def path_str_def)
  with \<open>path_str p = []\<close> show False by simp
qed

lemma split_on_name: "CHR ''/'' \<notin> set n \<Longrightarrow> split_on (CHR ''/'') n = [n]"
  by (rule split_on_no_sep)

lemma load_paths_names:
  "pp_parts (pa_config (load_paths environ pw)) = pp_parts (config_dir environ pw) @ [''config.toml'']"
  "pp_root (pa_config (load_paths environ pw)) = pp_root (config_dir environ pw)"
  by (simp_all add: load_paths_def path_join_def path_of_def Let_def)

end
