(* ===== verification/Argparse.thy ===== *)
theory Argparse
  imports PyText "HOL-Library.Sublist"
begin

text \<open>
  The part of the standard library's \<open>argparse\<close> that \<open>ocpd\<close> and \<open>ocp-worker\<close> use, as it is in
  Python 3.11: long options with one argument or none, unambiguous prefixes, \<open>--name=value\<close>,
  \<open>-h\<close>, required options and exclusive pairs; no positional arguments. A namespace is a record of
  the parser's own, and the action of an option updates it.

  Every string is first classified on its own; then the options take their arguments from left to
  right. What matters of an error or of \<open>--help\<close> is that the process exits, with 2 or 0.
\<close>

datatype 'n action = Help | StoreTrue "'n \<Rightarrow> 'n" | Store "string \<Rightarrow> 'n \<Rightarrow> 'n res"

record 'n parser =
  ap_options :: "(string \<times> 'n action) list"
  ap_required :: "string list"
  ap_exclusive :: "(string \<times> string) list"

datatype token = Value string | Option string "string option" | Unknown | Separator | Ambiguous

datatype 'n parsed = Namespace 'n | Exit int

definition help_options :: "(string \<times> 'n action) list" where
  "help_options = [(''-h'', Help), (''--help'', Help)]"

section \<open>Classification\<close>

text \<open>The pattern \<open>-\d+\<close> or \<open>-\d*.\d+\<close>, with the newline that \<open>$\<close> lets pass.\<close>

definition negative_number :: "string \<Rightarrow> bool" where
  "negative_number s =
     (let b = (if s \<noteq> [] \<and> last s = CHR 0x0A then butlast s else s);
          ip = takeWhile is_digit (tl b); r = dropWhile is_digit (tl b)
      in b \<noteq> [] \<and> hd b = CHR ''-'' \<and>
         (if r = [] then ip \<noteq> []
          else hd r = CHR ''.'' \<and> tl r \<noteq> [] \<and> (\<forall>c \<in> set (tl r). is_digit c)))"

definition split_eq :: "string \<Rightarrow> string \<times> string option" where
  "split_eq s =
     (let p = takeWhile (\<lambda>c. c \<noteq> CHR ''='') s
      in (p, if CHR ''='' \<in> set s then Some (drop (Suc (length p)) s) else None))"

definition option_tuples :: "string list \<Rightarrow> string \<Rightarrow> (string \<times> string option) list" where
  "option_tuples names s =
     (if take 2 s = ''--''
      then map (\<lambda>n. (n, snd (split_eq s))) (filter (prefix (fst (split_eq s))) names)
      else concat (map (\<lambda>n.
        if n = take 2 s then [(n, Some (drop 2 s))]
        else if prefix s n then [(n, None)] else []) names))"

definition classify :: "string list \<Rightarrow> string \<Rightarrow> token" where
  "classify names s =
     (if s = [] \<or> hd s \<noteq> CHR ''-'' then Value s
      else if s \<in> set names then Option s None
      else if length s = 1 then Value s
      else if CHR ''='' \<in> set s \<and> fst (split_eq s) \<in> set names
      then Option (fst (split_eq s)) (snd (split_eq s))
      else (case option_tuples names s of
              [] \<Rightarrow> if negative_number s \<or> CHR '' '' \<in> set s then Value s else Unknown
            | [(n, x)] \<Rightarrow> Option n x
            | _ \<Rightarrow> Ambiguous))"

fun tokens :: "string list \<Rightarrow> string list \<Rightarrow> token list" where
  "tokens names [] = []"
| "tokens names (s # ss) =
     (if s = ''--'' then Separator # map Value ss else classify names s # tokens names ss)"

section \<open>Actions\<close>

definition clash :: "'n parser \<Rightarrow> string list \<Rightarrow> string \<Rightarrow> bool" where
  "clash P seen n \<longleftrightarrow>
     (\<exists>(a, b) \<in> set (ap_exclusive P). n = a \<and> b \<in> set seen \<or> n = b \<and> a \<in> set seen)"

text \<open>
  \<open>seen\<close> are the options met so far, \<open>extra\<close> whether a string was left over. An argument glued to
  \<open>-h\<close> is a cluster of one-letter options.
\<close>

fun consume :: "'n parser \<Rightarrow> token list \<Rightarrow> string list \<Rightarrow> bool \<Rightarrow> 'n \<Rightarrow> 'n parsed" where
  "consume P [] seen extra ns =
     (if extra \<or> \<not> set (ap_required P) \<subseteq> set seen then Exit 2 else Namespace ns)"
| "consume P (Option n x # ts) seen extra ns =
     (case map_of (ap_options P) n of
        None \<Rightarrow> Exit 2
      | Some Help \<Rightarrow>
          (case x of
             None \<Rightarrow> Exit 0
           | Some v \<Rightarrow>
               if n = ''-h'' \<and> v \<noteq> [] \<and> (\<forall>c \<in> set v. c = CHR ''h'') then Exit 0 else Exit 2)
      | Some (StoreTrue f) \<Rightarrow>
          if x = None then consume P ts (n # seen) extra (f ns) else Exit 2
      | Some (Store f) \<Rightarrow>
          (case x of
             Some v \<Rightarrow>
               (case f v ns of
                  Inl e \<Rightarrow> Exit 2
                | Inr ns' \<Rightarrow> if clash P seen n then Exit 2 else consume P ts (n # seen) extra ns')
           | None \<Rightarrow>
               (case ts of
                  Value v # ts' \<Rightarrow>
                    (case f v ns of
                       Inl e \<Rightarrow> Exit 2
                     | Inr ns' \<Rightarrow>
                         if clash P seen n then Exit 2 else consume P ts' (n # seen) extra ns')
                | _ \<Rightarrow> Exit 2)))"
| "consume P (Ambiguous # ts) seen extra ns = Exit 2"
| "consume P (_ # ts) seen extra ns = consume P ts seen True ns"

definition parse_args :: "'n parser \<Rightarrow> 'n \<Rightarrow> string list \<Rightarrow> 'n parsed" where
  "parse_args P ns argv =
     (let ts = tokens (dkeys (ap_options P)) argv
      in if Ambiguous \<in> set ts then Exit 2 else consume P ts [] False ns)"

section \<open>Lemmas\<close>

text \<open>A string that does not start with a dash, or that is a negative number, is an argument.\<close>

definition argument_like :: "string \<Rightarrow> bool" where
  "argument_like s \<longleftrightarrow> s = [] \<or> hd s \<noteq> CHR ''-''"

lemma classify_argument [simp]: "argument_like s \<Longrightarrow> classify names s = Value s"
  by (auto simp: argument_like_def classify_def)

lemma argument_not_separator: "argument_like s \<Longrightarrow> s \<noteq> ''--''"
  by (auto simp: argument_like_def)

lemma tokens_argument [simp]: "argument_like s \<Longrightarrow> tokens names (s # ss) = Value s # tokens names ss"
  by (auto simp: argument_not_separator)

lemma argument_dec [simp]: "argument_like (dec n)"
  using dec_digits [of n] dec_nonempty [of n]
  by (cases "dec n") (auto simp: argument_like_def is_digit_def code_def)

lemma takeWhile_digits: "\<forall>c \<in> set ds. P c \<Longrightarrow> takeWhile P ds = ds \<and> dropWhile P ds = []"
  by (induction ds) auto

lemma negative_dec: "negative_number (CHR ''-'' # dec n)"
proof -
  have "\<forall>c \<in> set (dec n). is_digit c" by (rule dec_digits)
  moreover from this have "is_digit (last (dec n))"
    using last_in_set [OF dec_nonempty [of n]] by blast
  then have "last (dec n) \<noteq> CHR 0x0A" by (auto simp: is_digit_def code_def)
  ultimately show ?thesis
    by (simp add: negative_number_def Let_def takeWhile_digits)
qed

text \<open>Every name of the option table starts with two dashes or is \<open>-h\<close>.\<close>

definition long_names :: "string list \<Rightarrow> bool" where
  "long_names names \<longleftrightarrow> (\<forall>n \<in> set names. n = ''-h'' \<or> take 2 n = ''--'')"

lemma dec_no_eq: "CHR ''='' \<notin> set (dec n)"
  using dec_digits [of n] by (auto simp: is_digit_def code_def)

lemma classify_negative:
  assumes "long_names names"
  shows "classify names (CHR ''-'' # dec n) = Value (CHR ''-'' # dec n)"
proof -
  obtain d ds where d: "dec n = d # ds" by (cases "dec n") auto
  then have digit: "is_digit d" using dec_digits [of n] by auto
  then have dh: "d \<noteq> CHR ''-''" "d \<noteq> CHR ''h''" by (auto simp: is_digit_def code_def)
  have no: "k \<noteq> CHR ''-'' # d # t" if "k \<in> set names" for k t
    using assms that dh by (auto simp: long_names_def)
  have "option_tuples names (CHR ''-'' # dec n) = []"
    using no dh by (auto simp: option_tuples_def d prefix_def)
  moreover have "CHR ''-'' # dec n \<notin> set names" using no d by auto
  ultimately show ?thesis
    using dec_no_eq negative_dec by (simp add: classify_def d [symmetric])
qed

lemma tokens_dec_int:
  assumes "long_names names"
  shows "tokens names (dec_int i # ss) = Value (dec_int i) # tokens names ss"
proof (cases "i < 0")
  case True
  have "CHR ''-'' # dec n \<noteq> ''--''" for n
    using dec_digits [of n] by (auto simp: is_digit_def code_def)
  with True show ?thesis using classify_negative [OF assms] by (simp add: dec_int_def)
next
  case False
  then show ?thesis by (simp only: dec_int_def if_False tokens_argument [OF argument_dec])
qed

lemma py_int_of_dec_int [simp]: "py_int_of_str (dec_int i) = Inr i"
proof (cases "i < 0")
  case True
  have ds: "\<forall>c \<in> set (dec (nat (- i))). is_digit c" by (rule dec_digits)
  have "\<not> num_space c" if "is_digit c" for c
    using that by (auto simp: is_digit_def num_space_def ascii_space_def)
  moreover have "\<not> num_space (CHR ''-'')" by code_simp
  ultimately have "num_strip (CHR ''-'' # dec (nat (- i))) = CHR ''-'' # dec (nat (- i))"
    using ds by (simp add: num_strip_def strip_by_none)
  with True ds show ?thesis
    by (simp add: dec_int_def py_int_of_str_def py_signed_def py_digits_digits)
qed (simp add: dec_int_def)

lemma tokens_value_not_ambiguous: "Ambiguous \<notin> set (map Value ss)"
  by auto

text \<open>An invariant of the options seen and the namespace holds of a successful parse.\<close>

definition keeps_flags :: "'n parser \<Rightarrow> (string list \<Rightarrow> 'n \<Rightarrow> bool) \<Rightarrow> bool" where
  "keeps_flags P I \<longleftrightarrow>
     (\<forall>n f seen ns. map_of (ap_options P) n = Some (StoreTrue f) \<longrightarrow> I seen ns \<longrightarrow> I (n # seen) (f ns))"

definition keeps_stores :: "'n parser \<Rightarrow> (string list \<Rightarrow> 'n \<Rightarrow> bool) \<Rightarrow> bool" where
  "keeps_stores P I \<longleftrightarrow>
     (\<forall>n f v seen ns ns'. map_of (ap_options P) n = Some (Store f) \<longrightarrow> f v ns = Inr ns' \<longrightarrow>
        \<not> clash P seen n \<longrightarrow> I seen ns \<longrightarrow> I (n # seen) ns')"

lemma consume_invariant:
  assumes "consume P ts seen extra ns = Namespace r" "I seen ns" "keeps_flags P I" "keeps_stores P I"
  shows "\<exists>seen'. set (ap_required P) \<subseteq> set seen' \<and> I seen' r"
  using assms
proof (induction P ts seen extra ns rule: consume.induct)
  case (2 P n x ts seen extra ns)
  have flag: "I (n # seen) (f ns)" if "map_of (ap_options P) n = Some (StoreTrue f)" for f
    using that 2(5,6) by (simp add: keeps_flags_def)
  have store: "I (n # seen) ns'"
    if "map_of (ap_options P) n = Some (Store f)" "f v ns = Inr ns'" "\<not> clash P seen n" for f v ns'
    using that 2(5,7) unfolding keeps_stores_def by blast
  from 2 show ?case
    by (auto split: option.splits action.splits if_splits sum.splits list.splits token.splits
        dest: flag store)
qed (auto split: if_splits)

end
