(* ===== verification/Lifecycle.thy ===== *)
theory Lifecycle
  imports Runs Paths Argparse Nvml
begin

text \<open>
  The life of one daemon process (\<open>src/src/ocp/daemon.py\<close>): the command line, the paths, the boot
  with its error paths, the events in between (\<open>Runs\<close>), the shutdown and the exit code.

  The lemmas: a shutdown stops every worker it knows and saves exactly the leases held, so a restart
  gets them back; a boot that fails before it has read the leases empties the state file; which exit
  code means what; what \<open>--config\<close> does to the path of the configuration.
\<close>

section \<open>Command line and paths\<close>

record ocpd_ns =
  od_foreground :: bool
  od_config :: "string option"

definition ocpd_parser :: "ocpd_ns parser" where
  "ocpd_parser =
     \<lparr>ap_options = help_options @
        [(''--foreground'', StoreTrue (\<lambda>ns. ns\<lparr>od_foreground := True\<rparr>)),
         (''--config'', Store (\<lambda>s ns. Inr (ns\<lparr>od_config := Some s\<rparr>)))],
      ap_required = [], ap_exclusive = []\<rparr>"

definition parse_ocpd_args :: "string list \<Rightarrow> ocpd_ns parsed" where
  "parse_ocpd_args argv = parse_args ocpd_parser \<lparr>od_foreground = False, od_config = None\<rparr> argv"

definition config_override :: "string option \<Rightarrow> environ \<Rightarrow> environ" where
  "config_override arg environ =
     (case arg of
        None \<Rightarrow> environ
      | Some s \<Rightarrow> dset ''OCP_CONFIG_DIR'' (path_str (path_parent (path_of s))) environ)"

section \<open>Boot\<close>

text \<open>What booting meets: the pid file, NVML, the socket, and all that \<open>startup\<close> meets.\<close>

record boot =
  bt_env :: serve_env
  bt_pidfile :: "exn option"
  bt_nvml :: "exn option"
  bt_listen :: "exn option"

datatype boot_end = Refused exn | Crashed exn | Serving

text \<open>Whether the history writer has been started when \<open>startup\<close> is over.\<close>

definition writer_started :: "serve_env \<Rightarrow> bool \<Rightarrow> daemon \<Rightarrow> bool" where
  "writer_started env nvml_ok d =
     (case resolve_watched env (d\<lparr>dm_nvml_ok := nvml_ok\<rparr>) of
        Inl e \<Rightarrow> False
      | Inr gpus \<Rightarrow> fst (load_history (sv_fmt env) (y_hist (dm_sys d))) = None)"

definition boot_daemon :: "boot \<Rightarrow> daemon \<Rightarrow> boot_end \<times> bool \<times> daemon" where
  "boot_daemon b d =
     (case bt_pidfile b of
        Some e \<Rightarrow> (Refused e, False, d)
      | None \<Rightarrow>
          if bt_nvml b \<noteq> None \<and> bt_nvml b \<noteq> Some (OtherExn ''NvmlOpenError'')
          then (Crashed (the (bt_nvml b)), False, d)
          else
            let nvml_ok = (bt_nvml b = None); w = writer_started (bt_env b) nvml_ok d
            in (case startup (bt_env b) nvml_ok d of
                  (Some e, d1) \<Rightarrow> (Crashed e, w, d1)
                | (None, d1) \<Rightarrow>
                    (case bt_listen b of
                       Some e \<Rightarrow> (Crashed e, w, d1)
                     | None \<Rightarrow> (Serving, w, d1))))"

section \<open>Shutdown\<close>

text \<open>
  What the shutdown meets: whether the state file can be written, the exit code of each process that
  is still alive, which watchers notice the exit before the stop does, and the history file.
\<close>

record closing =
  cl_io :: bool
  cl_rc :: "nat \<Rightarrow> int"
  cl_first :: "int \<Rightarrow> bool"
  cl_disk :: "nat \<Rightarrow> write_io"

text \<open>
  \<open>stop\<close> of one worker, run to its end: the process is gone, by SIGTERM or by SIGKILL. A watcher
  that polls first reports the exit as unexpected. Here nothing but the watcher comes in between; how
  a stop interleaves with the other tasks of the pool is \<open>run_task\<close> of theory Workers.
\<close>

definition stop_pool :: "(nat \<Rightarrow> int) \<Rightarrow> int \<Rightarrow> pool \<Rightarrow> pool" where
  "stop_pool rc g p =
     (case map_of (p_procs p) g of
        None \<Rightarrow> p
      | Some po \<Rightarrow> cleanup g (if p_exited p po = None then process_exit po (rc po) p else p))"

definition stop_worker :: "real \<Rightarrow> closing \<Rightarrow> int \<Rightarrow> daemon \<Rightarrow> daemon" where
  "stop_worker now cl g d =
     (let p1 = stop_pool (cl_rc cl) g (y_pool (dm_sys d));
          d1 = d\<lparr>dm_sys := (dm_sys d)\<lparr>y_pool := p1\<rparr>\<rparr>
      in case map_of (p_procs (y_pool (dm_sys d))) g of
           None \<Rightarrow> d1
         | Some po \<Rightarrow>
             if cl_first cl g then on_worker_exit now g (the (p_exited p1 po)) d1 else d1)"

definition stop_workers :: "real \<Rightarrow> closing \<Rightarrow> daemon \<Rightarrow> daemon" where
  "stop_workers now cl d = fold (stop_worker now cl) (running_gpus (y_pool (dm_sys d))) d"

text \<open>
  The shutdown. The first result is an exception that leaves it, the last whether the pid file was
  released, which an exception skips. \<open>writer\<close> is whether the history writer runs. The cancelled
  loops and the closing of the server, whose exceptions the code drops, leave this state alone; the
  socket file is in theory Listener.
\<close>

definition shutdown :: "serve_env \<Rightarrow> closing \<Rightarrow> bool \<Rightarrow> daemon \<Rightarrow> exn option \<times> daemon \<times> bool" where
  "shutdown env cl writer d =
     (let d1 = stop_workers (sv_now env) cl d; s1 = dm_sys d1 in
      case persist (cl_io cl) (y_leases s1) of
        (Some e, ls) \<Rightarrow> (Some e, d1\<lparr>dm_sys := s1\<lparr>y_leases := ls\<rparr>\<rparr>, False)
      | (None, ls) \<Rightarrow>
          let d2 = dm_record (sv_now env) 0 ''(auto)'' ''daemon_stopped''
                (PDict [(''pid'', PInt (dm_pid d))]) True PNone PNone
                (d1\<lparr>dm_sys := s1\<lparr>y_leases := ls\<rparr>\<rparr>);
              s2 = dm_sys d2
          in (None,
              (if writer then d2\<lparr>dm_sys := s2\<lparr>y_hist := run_writer (cl_disk cl) (stop_signal (y_hist s2))\<rparr>\<rparr>
               else d2),
              True))"

section \<open>The process\<close>

text \<open>\<open>run\<close>: boot, any events, shutdown. \<open>Inr\<close> is the value it returns.\<close>

definition run_daemon :: "boot \<Rightarrow> event list \<Rightarrow> serve_env \<Rightarrow> closing \<Rightarrow> daemon \<Rightarrow> int res \<times> daemon" where
  "run_daemon b es env cl d =
     (case boot_daemon b d of
        (Refused e, w, d1) \<Rightarrow> (Inl e, d1)
      | (Crashed e, w, d1) \<Rightarrow>
          (case shutdown env cl w d1 of (e', d2, r) \<Rightarrow> (Inl (case e' of None \<Rightarrow> e | Some x \<Rightarrow> x), d2))
      | (Serving, w, d1) \<Rightarrow>
          (case shutdown env cl w (fold happen es d1) of
             (Some e, d2, r) \<Rightarrow> (Inl e, d2)
           | (None, d2, r) \<Rightarrow> (Inr 0, d2)))"

datatype main_end = ExitCode int | Uncaught exn

text \<open>The files \<open>main\<close> reads, by path, and what surrounds it.\<close>

record machine =
  mh_environ :: environ
  mh_pw_dir :: "string option"
  mh_pid :: int
  mh_config :: "string \<Rightarrow> cfg_file"
  mh_state :: "string \<Rightarrow> state_file"
  mh_history :: "string \<Rightarrow> hfile"

definition end_of :: "int res \<Rightarrow> main_end" where
  "end_of r =
     (case r of
        Inr k \<Rightarrow> ExitCode k
      | Inl e \<Rightarrow> if is_runtime_error e then ExitCode 1 else Uncaught e)"

definition paths_of :: "machine \<Rightarrow> ocpd_ns \<Rightarrow> paths" where
  "paths_of mh ns = load_paths (config_override (od_config ns) (mh_environ mh)) (mh_pw_dir mh)"

definition config_path :: "machine \<Rightarrow> ocpd_ns \<Rightarrow> string" where
  "config_path mh ns = path_str (pa_config (paths_of mh ns))"

text \<open>The daemon built from the configuration and the files in force.\<close>

definition first_daemon :: "machine \<Rightarrow> ocpd_ns \<Rightarrow> config \<Rightarrow> boot \<Rightarrow> daemon res" where
  "first_daemon mh ns cfg b =
     (let ps = paths_of mh ns
      in daemon_init cfg (mh_pid mh) (sv_now (bt_env b))
           (mh_state mh (path_str (pa_state ps))) (mh_history mh (path_str (pa_history ps))))"

definition main_ocpd ::
    "machine \<Rightarrow> string list \<Rightarrow> boot \<Rightarrow> event list \<Rightarrow> serve_env \<Rightarrow> closing \<Rightarrow> main_end" where
  "main_ocpd mh argv b es env cl =
     (case parse_ocpd_args argv of
        Exit k \<Rightarrow> ExitCode k
      | Namespace ns \<Rightarrow>
          (case load_config (config_path mh ns) (mh_config mh (config_path mh ns)) of
             Inl e \<Rightarrow> if is_config_error e then ExitCode 2 else Uncaught e
           | Inr cfg \<Rightarrow>
               (case first_daemon mh ns cfg b of
                  Inl e \<Rightarrow> Uncaught e
                | Inr d \<Rightarrow> end_of (fst (run_daemon b es env cl d)))))"

section \<open>What a shutdown leaves\<close>

lemma stop_pool_procs: "map_of (p_procs (stop_pool rc g p)) = (map_of (p_procs p))(g := None)"
  by (auto simp: stop_pool_def cleanup_def process_exit_def fun_upd_idem split: option.splits)

lemma stop_pool_exited:
  "map_of (p_procs p) g = Some po \<Longrightarrow> p_exited (stop_pool rc g p) po \<noteq> None"
  "p_exited p po' \<noteq> None \<Longrightarrow> p_exited (stop_pool rc g p) po' \<noteq> None"
  by (auto simp: stop_pool_def cleanup_def process_exit_def split: option.splits)

lemma stop_worker_fields:
  "y_pool (dm_sys (stop_worker now cl g d)) = stop_pool (cl_rc cl) g (y_pool (dm_sys d))"
  "y_leases (dm_sys (stop_worker now cl g d)) = y_leases (dm_sys d)"
  "dm_pid (stop_worker now cl g d) = dm_pid d"
  by (simp_all add: stop_worker_def on_worker_exit_def Let_def dm_record_def split: option.splits)

lemma stop_all_pool:
  "y_pool (dm_sys (fold (stop_worker now cl) gs d)) = fold (stop_pool (cl_rc cl)) gs (y_pool (dm_sys d))"
  "y_leases (dm_sys (fold (stop_worker now cl) gs d)) = y_leases (dm_sys d)"
  by (induction gs arbitrary: d) (simp_all add: stop_worker_fields)

lemma stop_pools_procs:
  "map_of (p_procs (fold (stop_pool rc) gs p)) g = (if g \<in> set gs then None else map_of (p_procs p) g)"
  by (induction gs arbitrary: p) (auto simp: stop_pool_procs)

lemma stop_pools_keep: "p_exited p po \<noteq> None \<Longrightarrow> p_exited (fold (stop_pool rc) gs p) po \<noteq> None"
  by (induction gs arbitrary: p) (simp_all add: stop_pool_exited(2) del: not_None_eq)

lemma stop_pools_exited:
  "g \<in> set gs \<Longrightarrow> map_of (p_procs p) g = Some po \<Longrightarrow> p_exited (fold (stop_pool rc) gs p) po \<noteq> None"
proof (induction gs arbitrary: p)
  case (Cons h gs)
  show ?case
  proof (cases "h = g")
    case True
    with Cons.prems show ?thesis
      using stop_pools_keep [OF stop_pool_exited(1) [OF Cons.prems(2)]] by simp
  next
    case False
    with Cons.prems have "map_of (p_procs (stop_pool rc h p)) g = Some po"
      by (simp add: stop_pool_procs)
    with Cons.IH Cons.prems False show ?thesis by simp
  qed
qed simp

lemma no_procs:
  assumes "\<And>g. map_of (p_procs p) g = None"
  shows "running_gpus p = []"
  using assms [of "fst (hd (p_procs p))"] by (cases "p_procs p") (auto simp: running_gpus_def)

lemma crashed_saved: "crashed (s\<lparr>ls_disk := x\<rparr>) = \<lparr>ls_leases = [], ls_disk = x\<rparr>"
  by (simp add: crashed_def)

text \<open>C11. A shutdown of a daemon in any state it can reach stops every worker the pool has a process
  for. When the state file can be written, it raises nothing, releases the pid file and saves the
  leases: a daemon that starts afterwards gets back exactly those that have not expired by then. When
  it cannot, the OSError ends the shutdown there: the state file keeps what it had, no event is
  recorded any more and the pid file is not released.\<close>

theorem graceful_shutdown:
  assumes "daemon_run d" "shutdown env cl writer d = (e, d', released)"
  shows "running_gpus (y_pool (dm_sys d')) = [] \<and>
    (\<forall>g po. map_of (p_procs (y_pool (dm_sys d))) g = Some po \<longrightarrow>
       p_exited (y_pool (dm_sys d')) po \<noteq> None) \<and>
    (if cl_io cl
     then e = None \<and> released \<and>
       load_leases F now (crashed (y_leases (dm_sys d'))) =
         (Inr (dvals (live now (ls_leases (y_leases (dm_sys d))))),
          \<lparr>ls_leases = live now (ls_leases (y_leases (dm_sys d))),
           ls_disk = ls_disk (y_leases (dm_sys d'))\<rparr>)
     else e = Some OSError \<and> \<not> released \<and> y_leases (dm_sys d') = y_leases (dm_sys d) \<and>
       y_hist (dm_sys d') = y_hist (dm_sys (stop_workers (sv_now env) cl d)))"
proof -
  let ?p = "y_pool (dm_sys d)"
  have leases: "map_ok (ls_leases (y_leases (dm_sys d)))"
    using daemon_run_ok [OF assms(1)] by (simp add: daemon_ok_def sys_ok_def)
  have pool: "y_pool (dm_sys d') = fold (stop_pool (cl_rc cl)) (running_gpus ?p) ?p"
    using assms(2)
    by (auto simp: shutdown_def Let_def persist_def stop_workers_def stop_all_pool split: if_splits)
  have known: "g \<in> set (running_gpus ?p)" if "map_of (p_procs ?p) g = Some po" for g po
    using that by (force simp: running_gpus_def dest: map_of_SomeD)
  have "map_of (p_procs (y_pool (dm_sys d'))) g = None" for g
    using known by (cases "map_of (p_procs ?p) g") (auto simp: pool stop_pools_procs)
  then have gone: "running_gpus (y_pool (dm_sys d')) = []" by (rule no_procs)
  have exited: "p_exited (y_pool (dm_sys d')) po \<noteq> None" if "map_of (p_procs ?p) g = Some po" for g po
    using stop_pools_exited [OF known [OF that] that] by (simp add: pool)
  show ?thesis
  proof (cases "cl_io cl")
    case True
    then have d': "e = None" "released"
      "y_leases (dm_sys d') = (y_leases (dm_sys d))\<lparr>ls_disk := SDoc (state_doc (ls_leases (y_leases (dm_sys d))))\<rparr>"
      using assms(2)
      by (auto simp: shutdown_def Let_def persist_def stop_workers_def stop_all_pool split: if_splits)
    then have "crashed (y_leases (dm_sys d')) =
        \<lparr>ls_leases = [], ls_disk = SDoc (state_doc (ls_leases (y_leases (dm_sys d))))\<rparr>"
      by (simp add: crashed_saved)
    then show ?thesis
      using gone exited True d' load_state_doc [OF leases, of F now] by simp
  next
    case False
    then have "e = Some OSError" "\<not> released" "y_leases (dm_sys d') = y_leases (dm_sys d)"
      "y_hist (dm_sys d') = y_hist (dm_sys (stop_workers (sv_now env) cl d))"
      using assms(2)
      by (auto simp: shutdown_def Let_def persist_def stop_workers_def stop_all_pool split: if_splits)
    with gone exited False show ?thesis by simp
  qed
qed

text \<open>An ordinary end, for examples.\<close>

definition demo_closing :: closing where
  "demo_closing = \<lparr>cl_io = True, cl_rc = (\<lambda>_. 0), cl_first = (\<lambda>_. False), cl_disk = working_disk\<rparr>"

theorem graceful_shutdown_witness:
  "\<exists>e d' released. shutdown (demo_env 5) demo_closing True demo_daemon = (e, d', released) \<and> e = None \<and> released"
proof -
  obtain e d' released where s: "shutdown (demo_env 5) demo_closing True demo_daemon = (e, d', released)"
    by (metis prod_cases3)
  from graceful_shutdown [OF demo_run s, of plain_fmt 6] s show ?thesis
    by (auto simp: demo_closing_def)
qed

section \<open>A boot that fails\<close>

text \<open>C40. A boot that fails because the history file cannot be read, which happens before the leases
  are loaded, ends in a shutdown that saves the empty store: the pauses that the state file held
  are lost, although the daemon never served.\<close>

theorem failed_boot_loses_leases:
  assumes "daemon_init cfg pid now sf hf = Inr d0" "bt_pidfile b = None"
    and "fst (load_history (sv_fmt (bt_env b)) (y_hist (dm_sys d0))) \<noteq> None"
    and "bt_nvml b = None \<or> bt_nvml b = Some (OtherExn ''NvmlOpenError'')"
    and "cl_io cl" "run_daemon b es env cl d0 = (r, d2)"
  shows "(\<exists>e. r = Inl e) \<and> ls_disk (y_leases (dm_sys d2)) = SDoc (state_doc []) \<and>
    fst (load_leases F t (crashed (y_leases (dm_sys d2)))) = Inr []"
proof -
  let ?ok = "bt_nvml b = None"
  have empty: "ls_leases (y_leases (dm_sys d0)) = []"
    using assms(1) by (auto simp: daemon_init_def res_simps)
  obtain e d1 where s: "startup (bt_env b) ?ok d0 = (Some e, d1)" "ls_leases (y_leases (dm_sys d1)) = []"
    using assms(3) empty
    by (cases "resolve_watched (bt_env b) (d0\<lparr>dm_nvml_ok := ?ok\<rparr>)";
        cases "load_history (sv_fmt (bt_env b)) (y_hist (dm_sys d0))")
      (auto simp: startup_def Let_def)
  obtain w where "boot_daemon b d0 = (Crashed e, w, d1)"
    using s(1) assms(2,4) by (auto simp: boot_daemon_def Let_def)
  moreover obtain e' d3 rel where sh: "shutdown env cl w d1 = (e', d3, rel)" by (metis prod_cases3)
  ultimately have "r = Inl (case e' of None \<Rightarrow> e | Some x \<Rightarrow> x)" "d2 = d3"
    using assms(6) by (simp_all add: run_daemon_def)
  moreover have "y_leases (dm_sys d3) = (y_leases (dm_sys d1))\<lparr>ls_disk := SDoc (state_doc [])\<rparr>"
    using sh assms(5) s(2)
    by (auto simp: shutdown_def Let_def persist_def stop_workers_def stop_all_pool split: if_splits)
  ultimately show ?thesis
    using load_state_doc [of "[]" F t] by (simp add: crashed_saved map_ok_def live_def)
qed

text \<open>A history file with a byte that is not UTF-8, and a state file with a pause until time 1000.\<close>

definition demo_boot :: boot where
  "demo_boot = \<lparr>bt_env = demo_env 0, bt_pidfile = None, bt_nvml = None, bt_listen = None\<rparr>"

definition demo_state :: state_file where
  "demo_state = SDoc (state_doc [(7, \<lparr>l_uid = 1001, l_user = ''alice'', l_gpu = 7,
     l_acquired_at = Fin 0, l_expires_at = Fin 1000\<rparr>)])"

lemma default_history: "max_entries (history default_config) = PInt 1000"
  by (simp add: default_config_def HistoryCfg_def kwarg_def)

theorem failed_boot_loses_leases_witness:
  "\<exists>d0 r d2. daemon_init default_config 1 0 demo_state HNotUtf8 = Inr d0 \<and>
     run_daemon demo_boot [] (demo_env 0) demo_closing d0 = (r, d2) \<and> (\<exists>e. r = Inl e) \<and>
     fst (load_leases plain_fmt 10 (crashed (y_leases (dm_sys d2)))) = Inr []"
proof -
  obtain d0 where d0: "daemon_init default_config 1 0 demo_state HNotUtf8 = Inr d0"
    by (simp add: daemon_init_def history_init_def default_history)
  then have "fst (load_history (sv_fmt (bt_env demo_boot)) (y_hist (dm_sys d0))) \<noteq> None"
    by (auto simp: daemon_init_def history_init_def default_history load_history_def)
  moreover obtain r d2 where run: "run_daemon demo_boot [] (demo_env 0) demo_closing d0 = (r, d2)"
    by fastforce
  ultimately show ?thesis
    using failed_boot_loses_leases [OF d0 _ _ _ _ run, of plain_fmt 10] d0
    by (simp add: demo_boot_def demo_closing_def)
qed

section \<open>Exit codes\<close>

lemma end_zero: "end_of r = ExitCode 0 \<Longrightarrow> r = Inr 0"
  by (auto simp: end_of_def split: sum.splits if_splits)

lemma init_errors:
  assumes "daemon_init c pid now sf hf = Inl e"
  shows "e \<in> {TypeError, ValueError, OverflowError}"
proof -
  have float: "e \<in> {TypeError, ValueError, OverflowError}" if "int_of_float x = Inl e" for x e
    using that by (cases x) auto
  have conv: "e \<in> {TypeError, ValueError, OverflowError}" if "py_int v = Inl e" for v e
    using that float by (cases v) (auto simp: py_int_of_str_def split: option.splits)
  with assms show ?thesis
    by (fastforce simp: daemon_init_def history_init_def res_simps split: if_splits)
qed

lemma first_daemon_errors:
  "first_daemon mh ns cfg b = Inl e \<Longrightarrow> e \<in> {TypeError, ValueError, OverflowError}"
  unfolding first_daemon_def Let_def by (rule init_errors)

text \<open>C37. The process ends with exit code 0 only if it printed its help, or loaded a valid
  configuration, built the daemon from it and from the files it names, served until it was asked to
  stop, and shut down completely. A configuration that fails to load is exit code 2 when the failure
  is a ConfigError, and otherwise the exception leaves the process, as does one that the daemon's
  constructor raises (TypeError, ValueError or OverflowError, on \<open>max_entries\<close>); with a daemon built,
  a pid file that another daemon holds is exit code 1.\<close>

theorem main_exit_codes:
  "(main_ocpd mh argv b es env cl = ExitCode 0 \<longrightarrow>
      parse_ocpd_args argv = Exit 0 \<or>
      (\<exists>ns cfg d w d1 d2. parse_ocpd_args argv = Namespace ns \<and>
         load_config (config_path mh ns) (mh_config mh (config_path mh ns)) = Inr cfg \<and> config_ok cfg \<and>
         first_daemon mh ns cfg b = Inr d \<and> boot_daemon b d = (Serving, w, d1) \<and>
         shutdown env cl w (fold happen es d1) = (None, d2, True))) \<and>
   (\<forall>ns. parse_ocpd_args argv = Namespace ns \<longrightarrow>
      (case load_config (config_path mh ns) (mh_config mh (config_path mh ns)) of
         Inl e \<Rightarrow> main_ocpd mh argv b es env cl = (if is_config_error e then ExitCode 2 else Uncaught e)
       | Inr cfg \<Rightarrow>
           (case first_daemon mh ns cfg b of
              Inl e \<Rightarrow> main_ocpd mh argv b es env cl = Uncaught e \<and>
                e \<in> {TypeError, ValueError, OverflowError}
            | Inr d \<Rightarrow> bt_pidfile b = Some (RuntimeError x) \<longrightarrow>
                main_ocpd mh argv b es env cl = ExitCode 1)))"
proof (intro conjI allI impI)
  assume zero: "main_ocpd mh argv b es env cl = ExitCode 0"
  show "parse_ocpd_args argv = Exit 0 \<or>
      (\<exists>ns cfg d w d1 d2. parse_ocpd_args argv = Namespace ns \<and>
         load_config (config_path mh ns) (mh_config mh (config_path mh ns)) = Inr cfg \<and> config_ok cfg \<and>
         first_daemon mh ns cfg b = Inr d \<and> boot_daemon b d = (Serving, w, d1) \<and>
         shutdown env cl w (fold happen es d1) = (None, d2, True))"
  proof (cases "parse_ocpd_args argv")
    case (Exit k)
    with zero show ?thesis by (simp add: main_ocpd_def)
  next
    case (Namespace ns)
    obtain cfg d where cfg: "load_config (config_path mh ns) (mh_config mh (config_path mh ns)) = Inr cfg"
        "first_daemon mh ns cfg b = Inr d" "end_of (fst (run_daemon b es env cl d)) = ExitCode 0"
      using zero Namespace by (auto simp: main_ocpd_def split: sum.splits if_splits)
    then have "fst (run_daemon b es env cl d) = Inr 0" by (blast dest: end_zero)
    then obtain w d1 d2 rel where served: "boot_daemon b d = (Serving, w, d1)"
        "shutdown env cl w (fold happen es d1) = (None, d2, rel)"
      by (auto simp: run_daemon_def split: prod.splits boot_end.splits option.splits)
    then have rel by (auto simp: shutdown_def Let_def split: prod.splits option.splits)
    with served Namespace cfg load_config_ok [OF cfg(1)] show ?thesis by auto
  qed
next
  fix ns
  assume ns: "parse_ocpd_args argv = Namespace ns"
  have "fst (run_daemon b es env cl d) = Inl (RuntimeError x)"
    if "bt_pidfile b = Some (RuntimeError x)" for d
    using that by (simp add: run_daemon_def boot_daemon_def)
  with ns show "case load_config (config_path mh ns) (mh_config mh (config_path mh ns)) of
         Inl e \<Rightarrow> main_ocpd mh argv b es env cl = (if is_config_error e then ExitCode 2 else Uncaught e)
       | Inr cfg \<Rightarrow>
           (case first_daemon mh ns cfg b of
              Inl e \<Rightarrow> main_ocpd mh argv b es env cl = Uncaught e \<and>
                e \<in> {TypeError, ValueError, OverflowError}
            | Inr d \<Rightarrow> bt_pidfile b = Some (RuntimeError x) \<longrightarrow>
                main_ocpd mh argv b es env cl = ExitCode 1)"
    using first_daemon_errors [of mh ns _ b]
    by (auto simp: main_ocpd_def end_of_def is_runtime_error_def split: sum.splits)
qed

definition demo_machine :: machine where
  "demo_machine =
     \<lparr>mh_environ = [], mh_pw_dir = None, mh_pid = 1, mh_config = (\<lambda>_. Toml [(''gpus'', PList [])]),
      mh_state = (\<lambda>_. SNoFile), mh_history = (\<lambda>_. HNoFile)\<rparr>"

theorem main_exit_codes_witness:
  "main_ocpd demo_machine [''--foreground''] demo_boot [] (demo_env 0) demo_closing = ExitCode 2 \<and>
   main_ocpd (demo_machine\<lparr>mh_config := (\<lambda>_. NoFile)\<rparr>) [''--foreground'']
     (demo_boot\<lparr>bt_pidfile := Some (RuntimeError ''already running'')\<rparr>) [] (demo_env 0) demo_closing = ExitCode 1"
proof
  let ?ns = "\<lparr>od_foreground = True, od_config = None\<rparr>"
  have ns: "parse_ocpd_args [''--foreground''] = Namespace ?ns"
    by (simp add: parse_ocpd_args_def parse_args_def ocpd_parser_def help_options_def classify_def)
  have "load_config path (mh_config demo_machine path) = Inl (ConfigError m) \<Longrightarrow> is_config_error (ConfigError m)" for path m
    by (simp add: is_config_error_def)
  moreover have "\<exists>m. load_config path (mh_config demo_machine path) = Inl (ConfigError m)" for path
    by (simp add: demo_machine_def load_config_def known_sections_def)
  ultimately obtain e where e: "load_config (config_path demo_machine ?ns)
      (mh_config demo_machine (config_path demo_machine ?ns)) = Inl e" "is_config_error e"
    by blast
  from main_exit_codes [THEN conjunct2, THEN spec, THEN mp, OF ns, of demo_machine] e
  show "main_ocpd demo_machine [''--foreground''] demo_boot [] (demo_env 0) demo_closing = ExitCode 2"
    by simp
  let ?mh = "demo_machine\<lparr>mh_config := (\<lambda>_. NoFile)\<rparr>"
  let ?b = "demo_boot\<lparr>bt_pidfile := Some (RuntimeError ''already running'')\<rparr>"
  have "load_config (config_path ?mh ?ns) (mh_config ?mh (config_path ?mh ?ns)) = Inr default_config"
    by (simp add: load_config_absent)
  moreover obtain d where "first_daemon ?mh ?ns default_config ?b = Inr d"
    by (simp add: first_daemon_def daemon_init_def history_init_def default_history Let_def)
  moreover have "bt_pidfile ?b = Some (RuntimeError ''already running'')" by simp
  ultimately show "main_ocpd ?mh [''--foreground''] ?b [] (demo_env 0) demo_closing = ExitCode 1"
    using main_exit_codes [where mh = ?mh and b = ?b and x = "''already running''", THEN conjunct2,
        THEN spec, THEN mp, OF ns] by simp
qed

section \<open>The configuration option\<close>

text \<open>\<open>--config\<close> does not name the configuration file: whatever file it is given, the daemon
  reads \<open>config.toml\<close> beside it, which is the given file exactly when that is its name.\<close>

theorem config_option_sibling:
  "pa_config (load_paths (config_override (Some s) environ) pw) = path_join (path_parent (path_of s)) ''config.toml'' \<and>
   (pa_config (load_paths (config_override (Some s) environ) pw) = path_of s \<longleftrightarrow>
      pp_parts (path_of s) \<noteq> [] \<and> last (pp_parts (path_of s)) = ''config.toml'')"
proof -
  let ?p = "path_parent (path_of s)"
  have read: "path_of (path_str ?p) = ?p"
    using path_of_str_lemma [OF path_ok_parent [OF path_of_ok [of s]]] .
  have "path_str ?p \<noteq> []" by (rule path_str_nonempty [OF path_ok_parent [OF path_of_ok]])
  then have dir: "pa_config (load_paths (config_override (Some s) environ) pw) = path_join ?p ''config.toml''"
    using read by (simp add: load_paths_def config_dir_def env_path_def config_override_def)
  have join: "path_join ?p ''config.toml'' = (path_of s)\<lparr>pp_parts := butlast (pp_parts (path_of s)) @ [''config.toml'']\<rparr>"
    by (simp add: path_join_def path_of_def path_parent_def Let_def)
  have "(path_of s)\<lparr>pp_parts := ps\<rparr> = path_of s \<longleftrightarrow> pp_parts (path_of s) = ps" for ps
    by (cases "path_of s") auto
  moreover have "xs = butlast xs @ [c] \<longleftrightarrow> xs \<noteq> [] \<and> last xs = c" for xs :: "string list" and c
    by (cases xs rule: rev_cases) auto
  ultimately show ?thesis using dir join by simp
qed

end
