(* ===== verification/Listener.thy ===== *)
theory Listener
  imports Lifecycle
begin

text \<open>
  The listening socket of \<open>UDSServer\<close> (\<open>src/src/ocp/ipc/server.py\<close>): what \<open>start\<close> and \<open>stop\<close> do
  to the file that clients connect to, whatever is there when they begin. The handling of one
  connection is in \<open>Ipc\<close>.
\<close>

section \<open>The socket file\<close>

text \<open>What a path names: a socket with the number of the server that bound it and its permission
  bits, another file, or a directory.\<close>

datatype node = Socket nat nat | Plain | Directory

record listener =
  li_node :: "node option"
  li_parent :: bool
  li_server :: "nat option"

text \<open>The system calls of \<open>start\<close> and what they raise: creating the parent directory, \<open>bind\<close> and
  \<open>listen\<close>, and changing the permissions. \<open>sk_bits\<close> is what the umask leaves to a new socket.\<close>

record sock_calls =
  sk_mkdir :: "exn option"
  sk_bind :: "exn option"
  sk_chmod :: "exn option"
  sk_bits :: nat

definition unlink_missing_ok :: "listener \<Rightarrow> exn option \<times> listener" where
  "unlink_missing_ok s =
     (case li_node s of
        Some Directory \<Rightarrow> (Some OSError, s)
      | _ \<Rightarrow> (None, s\<lparr>li_node := None\<rparr>))"

definition server_start :: "sock_calls \<Rightarrow> nat \<Rightarrow> listener \<Rightarrow> exn option \<times> listener" where
  "server_start k n s =
     (case unlink_missing_ok s of
        (Some e, s1) \<Rightarrow> (Some e, s1)
      | (None, s1) \<Rightarrow>
          if \<not> li_parent s1 \<and> sk_mkdir k \<noteq> None then (sk_mkdir k, s1)
          else (let s2 = s1\<lparr>li_parent := True\<rparr> in
            if sk_bind k \<noteq> None then (sk_bind k, s2)
            else (let s3 = s2\<lparr>li_node := Some (Socket n (sk_bits k)), li_server := Some n\<rparr> in
              if sk_chmod k \<noteq> None then (sk_chmod k, s3)
              else (None, s3\<lparr>li_node := Some (Socket n 438)\<rparr>))))"

definition server_stop :: "listener \<Rightarrow> exn option \<times> listener" where
  "server_stop s = unlink_missing_ok (s\<lparr>li_server := None\<rparr>)"

text \<open>Whether a client of that uid can connect: root always, others with the write bit for others.\<close>

definition can_connect :: "int \<Rightarrow> listener \<Rightarrow> bool" where
  "can_connect uid s \<longleftrightarrow>
     (case li_node s of
        Some (Socket n bits) \<Rightarrow> li_server s = Some n \<and> (uid = 0 \<or> bits div 2 mod 2 = 1)
      | _ \<Rightarrow> False)"

section \<open>Serving and leaving\<close>

lemma start_reachable: "server_start k n s = (None, s') \<Longrightarrow> can_connect uid s'"
  by (auto simp: server_start_def unlink_missing_ok_def can_connect_def Let_def
      split: option.splits node.splits if_splits)

lemma stop_after_start:
  assumes "li_node s \<noteq> Some Directory"
  shows "fst (server_stop (snd (server_start k n s))) = None \<and>
    li_node (snd (server_stop (snd (server_start k n s)))) = None"
  using assms
  by (simp add: server_start_def server_stop_def unlink_missing_ok_def Let_def
      split: option.splits node.splits)

lemma start_no_directory: "fst (server_start k n s) = None \<Longrightarrow> li_node s \<noteq> Some Directory"
  by (auto simp: server_start_def unlink_missing_ok_def)

text \<open>Only a directory in its place makes the stale file an error, so a socket or file that an
  earlier daemon left behind never keeps a new one from serving.\<close>

lemma start_over_leftover:
  assumes "li_node s \<noteq> Some Directory" "sk_mkdir k = None" "sk_bind k = None" "sk_chmod k = None"
  shows "fst (server_start k n s) = None"
  using assms
  by (auto simp: server_start_def unlink_missing_ok_def Let_def split: option.splits node.splits)

text \<open>The boot of a daemon whose socket meets these calls, with the file system it leaves.\<close>

definition boot_listen :: "sock_calls \<Rightarrow> nat \<Rightarrow> listener \<Rightarrow> boot \<Rightarrow> boot" where
  "boot_listen k n s b = b\<lparr>bt_listen := fst (server_start k n s)\<rparr>"

text \<open>A daemon that serves has a socket that every user can connect to: who may do what is
  decided by the credentials of the caller, not by the file. When it stops, the file is gone.\<close>

theorem serving_is_reachable:
  assumes "boot_daemon (boot_listen k n s b) d = (Serving, w, d1)"
  shows "(\<forall>uid. can_connect uid (snd (server_start k n s))) \<and>
    li_node (snd (server_stop (snd (server_start k n s)))) = None"
proof -
  have ok: "fst (server_start k n s) = None"
    using assms
    by (auto simp: boot_daemon_def boot_listen_def Let_def split: option.splits if_splits prod.splits)
  then have "server_start k n s = (None, snd (server_start k n s))" by (metis prod.collapse)
  then show ?thesis
    using start_reachable stop_after_start [OF start_no_directory [OF ok]] by blast
qed

theorem serving_is_reachable_witness:
  "can_connect 1001 (snd (server_start \<lparr>sk_mkdir = None, sk_bind = None, sk_chmod = None, sk_bits = 493\<rparr> 1
     \<lparr>li_node = Some (Socket 0 438), li_parent = True, li_server = None\<rparr>))"
proof -
  let ?k = "\<lparr>sk_mkdir = None, sk_bind = None, sk_chmod = None, sk_bits = 493\<rparr>"
  let ?s = "\<lparr>li_node = Some (Socket 0 438), li_parent = True, li_server = None\<rparr>"
  have "boot_listen ?k 1 ?s demo_boot = demo_boot"
    by (simp add: boot_listen_def demo_boot_def server_start_def unlink_missing_ok_def)
  moreover have "\<exists>w. boot_daemon demo_boot fresh_daemon = (Serving, w, demo_daemon)"
    by (simp add: boot_daemon_def demo_boot_def fresh_startup Let_def)
  ultimately obtain w where "boot_daemon (boot_listen ?k 1 ?s demo_boot) fresh_daemon = (Serving, w, demo_daemon)"
    by metis
  from serving_is_reachable [OF this] show ?thesis by blast
qed

end
