(* ===== verification/Json.thy ===== *)
theory Json
  imports Protocol
begin

text \<open>
  JSON text, as \<open>json.dumps\<close> with the separators \<open>,\<close> and \<open>:\<close> writes it and \<open>json.loads\<close> reads it
  (\<open>_encode\<close> and \<open>_decode\<close> of \<open>src/src/ocp/ipc/protocol.py\<close>, and the files of \<open>lease.py\<close> and
  \<open>history.py\<close>), and the \<open>codec\<close> it makes. \<open>pr\<close> is how a finite float prints (\<open>float.__repr__\<close>).
  Reading is a lexer and a machine that reads one token at a time. A document with characters
  beyond code point 255 is outside the model, which \<open>beyond_model\<close> marks.

  The lemmas: whatever \<open>dumps\<close> writes, \<open>loads\<close> reads back, over bytes in UTF-8.
\<close>

definition beyond_model :: exn where
  "beyond_model = OtherExn ''a character beyond code point 255''"

lemma rbind_cong [fundef_cong]:
  "r = r' \<Longrightarrow> (\<And>x. r' = Inr x \<Longrightarrow> f x = g x) \<Longrightarrow> rbind r f = rbind r' g"
  by (cases r') auto

lemma rmap_cong [fundef_cong]:
  "xs = ys \<Longrightarrow> (\<And>x. x \<in> set ys \<Longrightarrow> f x = g x) \<Longrightarrow> rmap f xs = rmap g ys"
  by (induction ys arbitrary: xs) (auto intro: rbind_cong)

section \<open>Writing\<close>

abbreviation quote :: char where
  "quote \<equiv> CHR 0x22"

abbreviation backslash :: char where
  "backslash \<equiv> CHR 0x5C"

definition hex_digit :: "nat \<Rightarrow> char" where
  "hex_digit n = char_of (if n < 10 then 48 + n else 87 + n)"

text \<open>The escapes with a letter, as pairs of the letter and the character.\<close>

definition escapes :: "(char \<times> char) list" where
  "escapes =
     [(quote, quote), (backslash, backslash), (CHR ''b'', CHR 0x08), (CHR ''f'', CHR 0x0C),
      (CHR ''n'', CHR 0x0A), (CHR ''r'', CHR 0x0D), (CHR ''t'', CHR 0x09)]"

definition esc_char :: "char \<Rightarrow> string" where
  "esc_char c =
     (case map_of (map prod.swap escapes) c of
        Some e \<Rightarrow> [backslash, e]
      | None \<Rightarrow>
          if 32 \<le> code c \<and> code c \<le> 126 then [c]
          else [backslash, CHR ''u'', CHR ''0'', CHR ''0'',
                hex_digit (code c div 16), hex_digit (code c mod 16)])"

definition json_str :: "string \<Rightarrow> string" where
  "json_str s = quote # concat (map esc_char s) @ [quote]"

fun json_float :: "(real \<Rightarrow> string) \<Rightarrow> pyfloat \<Rightarrow> string" where
  "json_float pr (Fin r) = pr r"
| "json_float pr PosInf = ''Infinity''"
| "json_float pr NegInf = ''-Infinity''"
| "json_float pr NaN = ''NaN''"

fun dumps :: "(real \<Rightarrow> string) \<Rightarrow> pyval \<Rightarrow> string res" where
  "dumps pr PNone = Inr ''null''"
| "dumps pr (PBool b) = Inr (if b then ''true'' else ''false'')"
| "dumps pr (PInt i) = Inr (dec_int i)"
| "dumps pr (PFloat x) = Inr (json_float pr x)"
| "dumps pr (PStr s) = Inr (json_str s)"
| "dumps pr (PList xs) = rbind (rmap (dumps pr) xs) (\<lambda>ss. Inr (''['' @ join '','' ss @ '']''))"
| "dumps pr (PDict kvs) =
     rbind (rmap (\<lambda>kv. rbind (dumps pr (snd kv)) (\<lambda>s. Inr (json_str (fst kv) @ '':'' @ s))) kvs)
       (\<lambda>ss. Inr (''{'' @ join '','' ss @ ''}''))"
| "dumps pr (PDate s) = Inl TypeError"

definition ascii_bytes :: "string \<Rightarrow> byte list" where
  "ascii_bytes s = map (\<lambda>c. word_of_nat (code c)) s"

section \<open>UTF-8\<close>

definition continues :: "nat \<Rightarrow> bool" where
  "continues b \<longleftrightarrow> 128 \<le> b \<and> b \<le> 191"

text \<open>The code points of a sequence of bytes, unless it is not UTF-8.\<close>

fun utf8 :: "nat list \<Rightarrow> nat list option" where
  "utf8 [] = Some []"
| "utf8 (a # r) =
     (if a < 128 then map_option ((#) a) (utf8 r)
      else if 194 \<le> a \<and> a \<le> 223 then
        (case r of
           b # r' \<Rightarrow>
             if continues b then map_option ((#) ((a - 192) * 64 + (b - 128))) (utf8 r') else None
         | _ \<Rightarrow> None)
      else if 224 \<le> a \<and> a \<le> 239 then
        (case r of
           b # c # r' \<Rightarrow>
             if continues b \<and> continues c \<and> (a = 224 \<longrightarrow> 160 \<le> b) \<and> (a = 237 \<longrightarrow> b \<le> 159)
             then map_option ((#) ((a - 224) * 4096 + (b - 128) * 64 + (c - 128))) (utf8 r')
             else None
         | _ \<Rightarrow> None)
      else if 240 \<le> a \<and> a \<le> 244 then
        (case r of
           b # c # d # r' \<Rightarrow>
             if continues b \<and> continues c \<and> continues d \<and> (a = 240 \<longrightarrow> 144 \<le> b) \<and> (a = 244 \<longrightarrow> b \<le> 143)
             then map_option ((#) ((a - 240) * 262144 + (b - 128) * 4096 + (c - 128) * 64 + (d - 128)))
               (utf8 r')
             else None
         | _ \<Rightarrow> None)
      else None)"

definition json_text :: "byte list \<Rightarrow> string res" where
  "json_text bs =
     (case utf8 (map unat bs) of
        None \<Rightarrow> Inl UnicodeDecodeError
      | Some ps \<Rightarrow> if \<exists>p \<in> set ps. 256 \<le> p then Inl beyond_model else Inr (map char_of ps))"

section \<open>Tokens\<close>

datatype jtoken = LBracket | RBracket | LBrace | RBrace | Comma | Colon | Atom pyval

definition json_space :: "char \<Rightarrow> bool" where
  "json_space c \<longleftrightarrow> code c \<in> {9, 10, 13, 32}"

definition punct :: "(char \<times> jtoken) list" where
  "punct =
     [(CHR ''['', LBracket), (CHR '']'', RBracket), (CHR ''{'', LBrace), (CHR ''}'', RBrace),
      (CHR '','', Comma), (CHR '':'', Colon)]"

definition literals :: "(string \<times> pyval) list" where
  "literals =
     [(''null'', PNone), (''true'', PBool True), (''false'', PBool False), (''NaN'', PFloat NaN),
      (''Infinity'', PFloat PosInf), (''-Infinity'', PFloat NegInf)]"

definition keyword :: "string \<Rightarrow> (pyval \<times> string) option" where
  "keyword s =
     map_option (\<lambda>(k, v). (v, drop (length k) s))
       (find (\<lambda>(k, v). take (length k) s = k) literals)"

definition hex_val :: "char \<Rightarrow> nat option" where
  "hex_val c =
     (let n = code c in
      if 48 \<le> n \<and> n \<le> 57 then Some (n - 48)
      else if 97 \<le> n \<and> n \<le> 102 then Some (n - 87)
      else if 65 \<le> n \<and> n \<le> 70 then Some (n - 55) else None)"

definition hex4 :: "char \<Rightarrow> char \<Rightarrow> char \<Rightarrow> char \<Rightarrow> nat option" where
  "hex4 a b c d =
     (case (hex_val a, hex_val b, hex_val c, hex_val d) of
        (Some w, Some x, Some y, Some z) \<Rightarrow> Some (((w * 16 + x) * 16 + y) * 16 + z)
      | _ \<Rightarrow> None)"

definition unescape :: "char \<Rightarrow> char option" where
  "unescape e = (if e = CHR ''/'' then Some e else map_of escapes e)"

text \<open>The rest of a string literal: its value and what follows it.\<close>

definition push :: "char \<Rightarrow> (string \<times> string) res \<Rightarrow> (string \<times> string) res" where
  "push c r = rbind r (\<lambda>(s, rest). Inr (c # s, rest))"

fun lex_string :: "string \<Rightarrow> (string \<times> string) res" where
  "lex_string [] = Inl JSONDecodeError"
| "lex_string (c # cs) =
     (if c = quote then Inr ([], cs)
      else if c = backslash then
        (case cs of
           [] \<Rightarrow> Inl JSONDecodeError
         | e # r \<Rightarrow>
             if e = CHR ''u'' then
               (case r of
                  w # x # y # z # r' \<Rightarrow>
                    (case hex4 w x y z of
                       None \<Rightarrow> Inl JSONDecodeError
                     | Some n \<Rightarrow> if n < 256 then push (char_of n) (lex_string r') else Inl beyond_model)
                | _ \<Rightarrow> Inl JSONDecodeError)
             else (case unescape e of
                     None \<Rightarrow> Inl JSONDecodeError | Some d \<Rightarrow> push d (lex_string r)))
      else if code c < 32 then Inl JSONDecodeError
      else push c (lex_string cs))"

text \<open>Numbers: an integer part without leading zeros, a fraction and an exponent.\<close>

definition int_part :: "string \<Rightarrow> (string \<times> string) option" where
  "int_part s =
     (case s of
        [] \<Rightarrow> None
      | c # cs \<Rightarrow>
          if c = CHR ''0'' then Some ([c], cs)
          else if is_digit c then Some (takeWhile is_digit s, dropWhile is_digit s) else None)"

definition frac_part :: "string \<Rightarrow> string \<times> string" where
  "frac_part s =
     (let ds = takeWhile is_digit (tl s) in
      if s \<noteq> [] \<and> hd s = CHR ''.'' \<and> ds \<noteq> [] then (CHR ''.'' # ds, drop (Suc (length ds)) s) else ([], s))"

definition exp_part :: "string \<Rightarrow> string \<times> string" where
  "exp_part s =
     (let cs = tl s;
          sg = (if cs \<noteq> [] \<and> (hd cs = CHR ''+'' \<or> hd cs = CHR ''-'') then [hd cs] else []);
          ds = takeWhile is_digit (drop (length sg) cs)
      in if s \<noteq> [] \<and> (hd s = CHR ''e'' \<or> hd s = CHR ''E'') \<and> ds \<noteq> []
         then (hd s # sg @ ds, drop (length sg + length ds) cs) else ([], s))"

definition lex_number :: "string \<Rightarrow> (pyval \<times> string) res" where
  "lex_number s =
     (let sg = (if s \<noteq> [] \<and> hd s = CHR ''-'' then ''-'' else []) in
      case int_part (drop (length sg) s) of
        None \<Rightarrow> Inl JSONDecodeError
      | Some (ip, r1) \<Rightarrow>
          (case frac_part r1 of (fp, r2) \<Rightarrow> (case exp_part r2 of (ep, r3) \<Rightarrow>
            if fp = [] \<and> ep = []
            then Inr (PInt (if sg = [] then int (undec ip) else - int (undec ip)), r3)
            else rbind (py_float_of_str (sg @ ip @ fp @ ep)) (\<lambda>x. Inr (PFloat x, r3)))))"

lemma lex_string_shorter: "lex_string s = Inr (t, r) \<Longrightarrow> length r < length s"
proof (induction s arbitrary: t r rule: lex_string.induct)
  case (2 c cs)
  then show ?case
    by (fastforce simp: push_def res_simps split: if_splits list.splits option.splits)
qed simp

lemma keyword_shorter: "keyword s = Some (v, r) \<Longrightarrow> length r < length s"
  by (cases s) (auto simp: keyword_def literals_def split: if_splits)

lemma int_part_shorter: "int_part s = Some (ip, r) \<Longrightarrow> length r < length s"
  by (auto simp: int_part_def length_dropWhile_le le_imp_less_Suc split: list.splits if_splits)

lemma frac_part_shorter: "frac_part s = (fp, r) \<Longrightarrow> length r \<le> length s"
  by (auto simp: frac_part_def Let_def split: if_splits)

lemma exp_part_shorter: "exp_part s = (ep, r) \<Longrightarrow> length r \<le> length s"
  by (auto simp: exp_part_def Let_def split: if_splits)

lemma lex_number_shorter: "lex_number s = Inr (v, r) \<Longrightarrow> length r < length s"
  by (auto simp: lex_number_def Let_def res_simps split: option.splits prod.splits if_splits
      dest!: int_part_shorter frac_part_shorter exp_part_shorter)

function lex :: "string \<Rightarrow> jtoken list res" where
  "lex [] = Inr []"
| "lex (c # cs) =
     (if json_space c then lex cs
      else if c = quote
      then rbind (lex_string cs) (\<lambda>x. rbind (lex (snd x)) (\<lambda>ts. Inr (Atom (PStr (fst x)) # ts)))
      else (case map_of punct c of
              Some t \<Rightarrow> rbind (lex cs) (\<lambda>ts. Inr (t # ts))
            | None \<Rightarrow>
                (case keyword (c # cs) of
                   Some x \<Rightarrow> rbind (lex (snd x)) (\<lambda>ts. Inr (Atom (fst x) # ts))
                 | None \<Rightarrow>
                     rbind (lex_number (c # cs)) (\<lambda>x. rbind (lex (snd x)) (\<lambda>ts. Inr (Atom (fst x) # ts))))))"
  by pat_completeness auto
termination
proof (relation "measure length")
  fix c :: char and cs :: string
  show "lex_string cs = Inr x \<Longrightarrow> (snd x, c # cs) \<in> measure length" for x
    using lex_string_shorter [of cs "fst x" "snd x"] by simp
  show "keyword (c # cs) = Some x \<Longrightarrow> (snd x, c # cs) \<in> measure length" for x
    using keyword_shorter [of "c # cs" "fst x" "snd x"] by simp
  show "lex_number (c # cs) = Inr x \<Longrightarrow> (snd x, c # cs) \<in> measure length" for x
    using lex_number_shorter [of "c # cs" "fst x" "snd x"] by simp
qed auto

declare lex.simps(2) [simp del]

section \<open>Reading\<close>

text \<open>What is open around the value being read, and what is expected next.\<close>

datatype jframe = InList "pyval list" | InDict "(string \<times> pyval) list" string

datatype jmode =
    Want
  | FirstOrEnd
  | KeyOrEnd
  | Key "(string \<times> pyval) list"
  | ColonAfter "(string \<times> pyval) list" string
  | Have pyval

type_synonym jstate = "jframe list \<times> jmode"

definition open_value :: "jframe list \<Rightarrow> jtoken \<Rightarrow> jstate option" where
  "open_value stk t =
     (case t of
        Atom v \<Rightarrow> Some (stk, Have v)
      | LBracket \<Rightarrow> Some (stk, FirstOrEnd)
      | LBrace \<Rightarrow> Some (stk, KeyOrEnd)
      | _ \<Rightarrow> None)"

definition key_of :: "jtoken \<Rightarrow> string option" where
  "key_of t = (case t of Atom (PStr k) \<Rightarrow> Some k | _ \<Rightarrow> None)"

fun json_step :: "jstate \<Rightarrow> jtoken \<Rightarrow> jstate option" where
  "json_step (stk, Want) t = open_value stk t"
| "json_step (stk, FirstOrEnd) t =
     (if t = RBracket then Some (stk, Have (PList [])) else open_value (InList [] # stk) t)"
| "json_step (stk, KeyOrEnd) t =
     (if t = RBrace then Some (stk, Have (PDict []))
      else map_option (\<lambda>k. (stk, ColonAfter [] k)) (key_of t))"
| "json_step (stk, Key acc) t = map_option (\<lambda>k. (stk, ColonAfter acc k)) (key_of t)"
| "json_step (stk, ColonAfter acc k) t = (if t = Colon then Some (InDict acc k # stk, Want) else None)"
| "json_step (InList acc # stk, Have v) t =
     (if t = Comma then Some (InList (acc @ [v]) # stk, Want)
      else if t = RBracket then Some (stk, Have (PList (acc @ [v]))) else None)"
| "json_step (InDict acc k # stk, Have v) t =
     (if t = Comma then Some (stk, Key (dset k v acc))
      else if t = RBrace then Some (stk, Have (PDict (dset k v acc))) else None)"
| "json_step ([], Have v) t = None"

fun json_steps :: "jstate \<Rightarrow> jtoken list \<Rightarrow> jstate option" where
  "json_steps st [] = Some st"
| "json_steps st (t # ts) = (case json_step st t of None \<Rightarrow> None | Some st' \<Rightarrow> json_steps st' ts)"

definition json_value :: "jtoken list \<Rightarrow> pyval res" where
  "json_value ts =
     (case json_steps ([], Want) ts of Some ([], Have v) \<Rightarrow> Inr v | _ \<Rightarrow> Inl JSONDecodeError)"

definition loads :: "string \<Rightarrow> pyval res" where
  "loads s = rbind (lex s) json_value"

definition json_codec :: "(real \<Rightarrow> string) \<Rightarrow> codec" where
  "json_codec pr =
     \<lparr>cd_dumps = (\<lambda>v. rbind (dumps pr v) (\<lambda>s. Inr (ascii_bytes s))),
      cd_loads = (\<lambda>bs. rbind (json_text bs) loads)\<rparr>"

section \<open>What is written parses\<close>

text \<open>
  \<open>json_ok pr v\<close>: the value has a text that determines it: its dicts have distinct keys, nothing
  in it is a date, and its floats print as numerals with a fraction or an exponent that read back.
\<close>

definition breaker :: "char \<Rightarrow> bool" where
  "breaker c \<longleftrightarrow> c = quote \<or> map_of punct c \<noteq> None"

definition delimited :: "string \<Rightarrow> bool" where
  "delimited rest \<longleftrightarrow> rest = [] \<or> breaker (hd rest)"

lemma breakers [simp]:
  "breaker quote" "breaker (CHR '','')" "breaker (CHR '']'')" "breaker (CHR ''}'')"
  "breaker (CHR '':'')" "breaker (CHR ''['')" "breaker (CHR ''{'')"
  by (simp_all add: breaker_def punct_def)

lemma breaker_cases:
  "breaker c \<Longrightarrow> c \<in> {quote, CHR ''['', CHR '']'', CHR ''{'', CHR ''}'', CHR '','', CHR '':''}"
  by (auto simp: breaker_def punct_def split: if_splits)

text \<open>ASCII without control characters.\<close>

definition plain_ascii :: "string \<Rightarrow> bool" where
  "plain_ascii s \<longleftrightarrow> (\<forall>c \<in> set s. 32 \<le> code c \<and> code c < 128)"

definition prints_back :: "(real \<Rightarrow> string) \<Rightarrow> real \<Rightarrow> bool" where
  "prints_back pr r \<longleftrightarrow> lex_number (pr r) = Inr (PFloat (Fin r), []) \<and> plain_ascii (pr r)"

fun json_ok :: "(real \<Rightarrow> string) \<Rightarrow> pyval \<Rightarrow> bool" where
  "json_ok pr (PFloat (Fin r)) = prints_back pr r"
| "json_ok pr (PList xs) = (\<forall>x \<in> set xs. json_ok pr x)"
| "json_ok pr (PDict kvs) = (distinct (map fst kvs) \<and> (\<forall>kv \<in> set kvs. json_ok pr (snd kv)))"
| "json_ok pr (PDate s) = False"
| "json_ok pr _ = True"

fun commas :: "jtoken list list \<Rightarrow> jtoken list" where
  "commas [] = []"
| "commas [x] = x"
| "commas (x # y # ys) = x @ Comma # commas (y # ys)"

fun toks :: "pyval \<Rightarrow> jtoken list" where
  "toks (PList xs) = LBracket # commas (map toks xs) @ [RBracket]"
| "toks (PDict kvs) =
     LBrace # commas (map (\<lambda>kv. Atom (PStr (fst kv)) # Colon # toks (snd kv)) kvs) @ [RBrace]"
| "toks v = [Atom v]"

lemma json_steps_append:
  "json_steps st (ts @ us) = (case json_steps st ts of None \<Rightarrow> None | Some st' \<Rightarrow> json_steps st' us)"
  by (induction ts arbitrary: st) (auto split: option.splits)

lemma toks_first: "\<exists>t ts. toks v = t # ts \<and> t \<noteq> RBracket"
  by (cases v) auto

lemma first_is_want:
  "json_steps (stk, FirstOrEnd) (toks v @ ts) = json_steps (InList [] # stk, Want) (toks v @ ts)"
  using toks_first [of v] by auto

lemma list_steps:
  assumes "\<And>x stk ts. x \<in> set xs \<Longrightarrow> json_steps (stk, Want) (toks x @ ts) = json_steps (stk, Have x) ts"
    and "xs \<noteq> []"
  shows "json_steps (InList acc # stk, Want) (commas (map toks xs) @ RBracket # ts) =
    json_steps (stk, Have (PList (acc @ xs))) ts"
  using assms
proof (induction xs arbitrary: acc rule: induct_list012)
  case (2 x)
  then show ?case by simp
next
  case (3 x y zs)
  have "json_steps (InList acc # stk, Want) (commas (map toks (x # y # zs)) @ RBracket # ts) =
      json_steps (InList (acc @ [x]) # stk, Want) (commas (map toks (y # zs)) @ RBracket # ts)"
    using 3(3) [of x] by simp
  also have "\<dots> = json_steps (stk, Have (PList (acc @ x # y # zs))) ts"
    using 3(2) [of "acc @ [x]"] 3(3) by simp
  finally show ?case .
qed simp

lemma dict_steps:
  assumes "\<And>kv stk ts. kv \<in> set kvs \<Longrightarrow>
      json_steps (stk, Want) (toks (snd kv) @ ts) = json_steps (stk, Have (snd kv)) ts"
    and "kvs \<noteq> []" "distinct (map fst (acc @ kvs))"
  shows "json_steps (stk, Key acc)
      (commas (map (\<lambda>kv. Atom (PStr (fst kv)) # Colon # toks (snd kv)) kvs) @ RBrace # ts) =
    json_steps (stk, Have (PDict (acc @ kvs))) ts"
  using assms
proof (induction kvs arbitrary: acc rule: induct_list012)
  case (2 kv)
  then have "dset (fst kv) (snd kv) acc = acc @ [kv]" by (auto simp: dset_fresh)
  with 2 show ?case by (simp add: key_of_def)
next
  case (3 x y zs)
  have "dset (fst x) (snd x) acc = acc @ [x]" using 3(5) by (auto simp: dset_fresh)
  then have "json_steps (stk, Key acc)
      (commas (map (\<lambda>kv. Atom (PStr (fst kv)) # Colon # toks (snd kv)) (x # y # zs)) @ RBrace # ts) =
      json_steps (stk, Key (acc @ [x]))
        (commas (map (\<lambda>kv. Atom (PStr (fst kv)) # Colon # toks (snd kv)) (y # zs)) @ RBrace # ts)"
    using 3(3) [of x] by (simp add: key_of_def)
  also have "\<dots> = json_steps (stk, Have (PDict (acc @ x # y # zs))) ts"
    using 3(2) [of "acc @ [x]"] 3(3,5) by simp
  finally show ?case .
qed simp

lemma first_key: "kvs \<noteq> [] \<Longrightarrow>
   json_steps (stk, KeyOrEnd) (commas (map (\<lambda>kv. Atom (PStr (fst kv)) # Colon # toks (snd kv)) kvs) @ ts) =
   json_steps (stk, Key []) (commas (map (\<lambda>kv. Atom (PStr (fst kv)) # Colon # toks (snd kv)) kvs) @ ts)"
  by (cases kvs rule: remdups_adj.cases) (auto simp: key_of_def)

lemma first_item: "xs \<noteq> [] \<Longrightarrow>
   json_steps (stk, FirstOrEnd) (commas (map toks xs) @ ts) =
   json_steps (InList [] # stk, Want) (commas (map toks xs) @ ts)"
  by (cases xs rule: remdups_adj.cases) (simp_all add: first_is_want)

lemma toks_steps: "json_ok pr v \<Longrightarrow> json_steps (stk, Want) (toks v @ ts) = json_steps (stk, Have v) ts"
proof (induction v arbitrary: stk ts rule: toks.induct)
  case (1 xs)
  then show ?case
    using list_steps [of xs "[]" stk ts]
    by (cases "xs = []") (simp_all add: open_value_def first_item)
next
  case (2 kvs)
  then show ?case
    using dict_steps [of kvs "[]" stk ts]
    by (cases "kvs = []") (simp_all add: open_value_def first_key)
qed (simp_all add: open_value_def)

lemma json_value_toks: "json_ok pr v \<Longrightarrow> json_value (toks v) = Inr v"
  using toks_steps [of pr v "[]" "[]"] by (simp add: json_value_def)

section \<open>What is written lexes\<close>

lemma code_char_of: "n < 256 \<Longrightarrow> code (char_of n) = n"
  by (simp add: code_def)

lemma char_of_code [simp]: "char_of (code c) = c"
  by (simp add: code_def)

lemma code_bound: "code c < 256"
  by (simp add: code_def)

lemma hex_val_digit: "n < 16 \<Longrightarrow> hex_val (hex_digit n) = Some n"
  by (simp add: hex_val_def hex_digit_def code_char_of Let_def)

lemma escape_lookup:
  assumes "map_of (map prod.swap escapes) c = Some e"
  shows "unescape e = Some c \<and> e \<noteq> CHR ''u'' \<and> code e < 128"
  using assms by (auto simp: escapes_def unescape_def code_def split: if_splits)

lemma unescaped:
  assumes "map_of (map prod.swap escapes) c = None"
  shows "c \<noteq> quote \<and> c \<noteq> backslash"
  using assms by (auto simp: escapes_def)

lemma lex_esc: "lex_string (esc_char c @ s) = push c (lex_string s)"
proof (cases "map_of (map prod.swap escapes) c")
  case (Some e)
  then show ?thesis using escape_lookup [OF Some] by (simp add: esc_char_def)
next
  case None
  show ?thesis
  proof (cases "32 \<le> code c \<and> code c \<le> 126")
    case True
    then show ?thesis using None unescaped [OF None] by (simp add: esc_char_def)
  next
    case False
    have "code c div 16 < 16" "code c mod 16 < 16" using code_bound [of c] by auto
    then have "hex4 (CHR ''0'') (CHR ''0'') (hex_digit (code c div 16)) (hex_digit (code c mod 16)) = Some (code c)"
      by (simp add: hex4_def hex_val_digit) (simp add: hex_val_def code_def)
    moreover have "esc_char c = [backslash, CHR ''u'', CHR ''0'', CHR ''0'',
        hex_digit (code c div 16), hex_digit (code c mod 16)]"
      using False None by (auto simp: esc_char_def)
    ultimately show ?thesis using code_bound [of c] by simp
  qed
qed

lemma lex_string_body: "lex_string (concat (map esc_char s) @ quote # rest) = Inr (s, rest)"
  by (induction s) (simp_all add: lex_esc push_def)

lemma lex_json_str: "lex (json_str s @ rest) = rbind (lex rest) (\<lambda>ts. Inr (Atom (PStr s) # ts))"
proof -
  have "\<not> json_space quote" by code_simp
  then show ?thesis by (simp add: json_str_def lex.simps(2) lex_string_body)
qed

lemma delimited_head:
  assumes "delimited rest"
  shows "takeWhile is_digit rest = []" "dropWhile is_digit rest = rest"
    "rest = [] \<or> hd rest \<notin> {CHR ''.'', CHR ''e'', CHR ''E'', CHR ''+'', CHR ''-''}"
proof -
  have "\<not> is_digit c" if "breaker c" for c
    using breaker_cases [OF that] by (auto simp: is_digit_def code_def)
  with assms show "takeWhile is_digit rest = []" "dropWhile is_digit rest = rest"
    by (cases rest; auto simp: delimited_def)+
  from assms show "rest = [] \<or> hd rest \<notin> {CHR ''.'', CHR ''e'', CHR ''E'', CHR ''+'', CHR ''-''}"
    by (auto simp: delimited_def dest!: breaker_cases)
qed

lemma takeWhile_delimited:
  assumes "delimited rest"
  shows "takeWhile is_digit (s @ rest) = takeWhile is_digit s"
    "dropWhile is_digit (s @ rest) = dropWhile is_digit s @ rest"
  by (induction s) (simp_all add: delimited_head [OF assms])

lemma int_part_append:
  assumes "int_part s = Some (ip, r)" "delimited rest"
  shows "int_part (s @ rest) = Some (ip, r @ rest)"
proof (cases s)
  case (Cons c cs)
  with assms(1) takeWhile_delimited [OF assms(2), of cs] show ?thesis
    by (auto simp: int_part_def split: if_splits)
qed (use assms in \<open>simp add: int_part_def\<close>)

lemma frac_part_append:
  assumes "frac_part s = (fp, r)" "delimited rest"
  shows "frac_part (s @ rest) = (fp, r @ rest)"
proof (cases s)
  case Nil
  with assms delimited_head(3) [OF assms(2)] show ?thesis by (auto simp: frac_part_def Let_def)
next
  case (Cons c cs)
  with assms(1) takeWhile_delimited(1) [OF assms(2), of cs] show ?thesis
    by (auto simp: frac_part_def Let_def length_takeWhile_le split: if_splits)
qed

lemma exp_part_append:
  assumes "exp_part s = (ep, r)" "delimited rest"
  shows "exp_part (s @ rest) = (ep, r @ rest)"
proof (cases s)
  case Nil
  with assms delimited_head(3) [OF assms(2)] show ?thesis by (auto simp: exp_part_def Let_def)
next
  case (Cons c cs)
  let ?sg = "\<lambda>cs. if cs \<noteq> [] \<and> (hd cs = CHR ''+'' \<or> hd cs = CHR ''-'') then [hd cs] else []"
  have sg: "?sg (cs @ rest) = ?sg cs"
    using delimited_head(3) [OF assms(2)] by (cases cs) auto
  have len: "length (?sg cs) \<le> length cs" by (cases cs) auto
  have ds: "takeWhile is_digit (drop (length (?sg cs)) (cs @ rest)) = takeWhile is_digit (drop (length (?sg cs)) cs)"
    using len takeWhile_delimited(1) [OF assms(2)] by simp
  have fit: "length (?sg cs) + length (takeWhile is_digit (drop (length (?sg cs)) cs)) \<le> length cs"
    using len length_takeWhile_le [of is_digit "drop (length (?sg cs)) cs"] by simp
  show ?thesis
    using assms(1) fit unfolding Cons exp_part_def Let_def append_Cons list.sel sg ds
    by (auto split: if_splits)
qed

lemma lex_number_append:
  assumes "lex_number s = Inr (v, r)" "delimited rest"
  shows "lex_number (s @ rest) = Inr (v, r @ rest)"
proof -
  let ?sg = "\<lambda>s. if s \<noteq> [] \<and> hd s = CHR ''-'' then ''-'' else []"
  have ne: "s \<noteq> []" using assms(1) by (auto simp: lex_number_def int_part_def)
  then have sg: "?sg (s @ rest) = ?sg s" "drop (length (?sg s)) (s @ rest) = drop (length (?sg s)) s @ rest"
    by (cases s; simp)+
  obtain ip r1 where ip: "int_part (drop (length (?sg s)) s) = Some (ip, r1)"
    using assms(1) by (auto simp: lex_number_def Let_def split: option.splits)
  obtain fp r2 where fp: "frac_part r1 = (fp, r2)" by fastforce
  obtain ep r3 where ep: "exp_part r2 = (ep, r3)" by fastforce
  have "r = r3"
    using assms(1) ip fp ep unfolding lex_number_def Let_def by (auto simp: res_simps split: if_splits)
  then show ?thesis
    using assms(1) ip fp ep
    unfolding lex_number_def Let_def sg int_part_append [OF ip assms(2)] option.case prod.case
      frac_part_append [OF fp assms(2)] exp_part_append [OF ep assms(2)]
    by (auto simp: res_simps split: if_splits)
qed

lemma lex_number_first:
  assumes "lex_number (c # cs) = Inr x"
  shows "is_digit c \<or> c = CHR ''-'' \<and> (\<exists>d ds. cs = d # ds \<and> is_digit d)"
proof -
  have "is_digit (CHR ''0'')" by code_simp
  with assms show ?thesis
    by (auto simp: lex_number_def int_part_def Let_def split: if_splits list.splits)
qed

lemma keyword_no_digit:
  assumes "is_digit c \<or> c = CHR ''-'' \<and> (\<exists>d ds. cs = d # ds \<and> is_digit d)"
  shows "keyword (c # cs) = None"
proof -
  have "\<not> is_digit (CHR ''n'')" "\<not> is_digit (CHR ''t'')" "\<not> is_digit (CHR ''f'')" "\<not> is_digit (CHR ''N'')"
    "\<not> is_digit (CHR ''I'')" "\<not> is_digit (CHR ''-'')"
    by code_simp+
  with assms show ?thesis by (auto simp: keyword_def literals_def)
qed

lemma number_char:
  assumes "is_digit c \<or> c = CHR ''-''"
  shows "\<not> json_space c" "c \<noteq> quote" "map_of punct c = None"
proof -
  have "code c = 45 \<or> 48 \<le> code c \<and> code c \<le> 57" using assms by (auto simp: is_digit_def code_def)
  then show "\<not> json_space c" "c \<noteq> quote" "map_of punct c = None"
    by (auto simp: json_space_def punct_def code_def)
qed

lemma lex_of_number:
  assumes "lex_number s = Inr (v, [])" "delimited rest"
  shows "lex (s @ rest) = rbind (lex rest) (\<lambda>ts. Inr (Atom v # ts))"
proof -
  obtain c cs where s: "s = c # cs" using assms(1) by (cases s) (auto simp: lex_number_def int_part_def)
  have first: "is_digit c \<or> c = CHR ''-'' \<and> (\<exists>d ds. cs = d # ds \<and> is_digit d)"
    using lex_number_first assms(1) s by blast
  then have "keyword (c # cs @ rest) = None" by (intro keyword_no_digit) auto
  moreover have "lex_number (c # cs @ rest) = Inr (v, rest)"
    using lex_number_append [OF assms] s by simp
  ultimately show ?thesis using number_char [of c] first by (auto simp: s lex.simps(2))
qed

lemma dec_first: "0 < n \<Longrightarrow> hd (dec n) \<noteq> CHR ''0''"
proof (induction n rule: dec.induct)
  case (1 n)
  show ?case
  proof (cases "n < 10")
    case True
    then show ?thesis using 1(2) code_digit_char [of n] by (auto simp: code_def)
  next
    case False
    with 1 show ?thesis by simp
  qed
qed

lemma int_part_dec: "int_part (dec n) = Some (dec n, [])"
proof (cases "n = 0")
  case True
  moreover have "digit_char 0 = CHR ''0''" by code_simp
  ultimately show ?thesis by (simp add: int_part_def)
next
  case False
  obtain c cs where d: "dec n = c # cs" using dec_nonempty [of n] by (cases "dec n") auto
  have "\<forall>x \<in> set (c # cs). is_digit x" using dec_digits [of n] d by simp
  moreover from this have "takeWhile is_digit (c # cs) = c # cs" "dropWhile is_digit (c # cs) = []"
    by (simp_all only: takeWhile_eq_all_conv dropWhile_eq_Nil_conv)
  moreover have "c \<noteq> CHR ''0''" using dec_first [of n] False d by simp
  ultimately show ?thesis by (simp add: int_part_def d)
qed

lemma no_frac: "frac_part [] = ([], [])" "exp_part [] = ([], [])"
  by (simp_all add: frac_part_def exp_part_def)

lemma lex_number_dec: "lex_number (dec_int i) = Inr (PInt i, [])"
proof (cases "i < 0")
  case True
  then have "int_part (drop (length ''-'') (dec_int i)) = Some (dec (nat (- i)), [])"
    by (simp add: dec_int_def int_part_dec)
  moreover have "dec_int i \<noteq> [] \<and> hd (dec_int i) = CHR ''-''" using True by (simp add: dec_int_def)
  ultimately show ?thesis using True by (simp add: lex_number_def Let_def no_frac del: dec_big dec_small)
next
  case False
  have "\<not> is_digit (CHR ''-'')" by code_simp
  then have "hd (dec (nat i)) \<noteq> CHR ''-''"
    using dec_digits [of "nat i"] hd_in_set [OF dec_nonempty [of "nat i"]] by metis
  then show ?thesis
    using False int_part_dec [of "nat i"]
    by (simp add: lex_number_def dec_int_def Let_def no_frac del: dec_big dec_small)
qed

text \<open>\<open>lexes s ts\<close>: the text \<open>s\<close> is read as the tokens \<open>ts\<close> wherever a value may end after it.\<close>

definition lexes :: "string \<Rightarrow> jtoken list \<Rightarrow> bool" where
  "lexes s ts \<longleftrightarrow>
     (\<forall>rest. delimited rest \<longrightarrow> lex (s @ rest) = rbind (lex rest) (\<lambda>us. Inr (ts @ us)))"

lemma rbind_assoc: "rbind (rbind r f) g = rbind r (\<lambda>x. rbind (f x) g)"
  by (cases r) simp_all

lemma rbind_Inr_right [simp]: "rbind r Inr = r"
  by (cases r) simp_all

lemma lex_punct:
  assumes "map_of punct c = Some t"
  shows "lex (c # s) = rbind (lex s) (\<lambda>ts. Inr (t # ts))"
proof -
  have "\<not> json_space c \<and> c \<noteq> quote"
    using assms by (auto simp: punct_def json_space_def code_def split: if_splits)
  with assms show ?thesis by (simp add: lex.simps(2))
qed

lemmas lex_marks = lex_punct [of "CHR ''[''" LBracket] lex_punct [of "CHR '']''" RBracket]
  lex_punct [of "CHR ''{''" LBrace] lex_punct [of "CHR ''}''" RBrace]
  lex_punct [of "CHR '',''" Comma] lex_punct [of "CHR '':''" Colon]

lemma lexes_join: "list_all2 lexes ss tss \<Longrightarrow> lexes (join '','' ss) (commas tss)"
proof (induction ss arbitrary: tss rule: induct_list012)
  case 1
  then show ?case by (simp add: lexes_def)
next
  case (2 s)
  then show ?case by (auto simp: list_all2_Cons1)
next
  case (3 s s' ss)
  then obtain t t' ts where tss: "tss = t # t' # ts" "lexes s t" "list_all2 lexes (s' # ss) (t' # ts)"
    by (auto simp: list_all2_Cons1)
  have rest: "lexes (join '','' (s' # ss)) (commas (t' # ts))" by (rule 3(2) [OF tss(3)])
  show ?case
    unfolding lexes_def
  proof (intro allI impI)
    fix r :: string
    assume r: "delimited r"
    have "delimited ('','' @ join '','' (s' # ss) @ r)" by (simp add: delimited_def)
    then have "lex (s @ '','' @ join '','' (s' # ss) @ r) =
        rbind (lex ('','' @ join '','' (s' # ss) @ r)) (\<lambda>us. Inr (t @ us))"
      using tss(2) by (simp add: lexes_def)
    also have "\<dots> = rbind (lex r) (\<lambda>us. Inr (t @ Comma # commas (t' # ts) @ us))"
      using rest r by (simp add: lexes_def lex_marks punct_def rbind_assoc)
    finally show "lex (join '','' (s # s' # ss) @ r) = rbind (lex r) (\<lambda>us. Inr (commas tss @ us))"
      by (simp add: tss(1))
  qed
qed

lemma lexes_atom: "lex_number s = Inr (v, []) \<Longrightarrow> lexes s [Atom v]"
  by (simp add: lexes_def lex_of_number)

lemma keyword_literal: "(s, v) \<in> set literals \<Longrightarrow> keyword (s @ rest) = Some (v, rest)"
  by (simp add: keyword_def literals_def) (elim disjE; simp)

lemma literal_first:
  "(s, v) \<in> set literals \<Longrightarrow>
   \<exists>c cs. s = c # cs \<and> \<not> json_space c \<and> c \<noteq> quote \<and> map_of punct c = None"
  by (simp add: literals_def) (elim disjE; simp add: punct_def json_space_def code_def)

lemma lexes_literal:
  assumes "(s, v) \<in> set literals"
  shows "lexes s [Atom v]"
proof -
  obtain c cs where c: "s = c # cs" "\<not> json_space c" "c \<noteq> quote" "map_of punct c = None"
    using literal_first [OF assms] by blast
  have "keyword (c # cs @ rest) = Some (v, rest)" for rest
    using keyword_literal [OF assms] c(1) by simp
  with c show ?thesis by (simp add: lexes_def lex.simps(2))
qed

lemma lexes_literals:
  "lexes ''null'' [Atom PNone]" "lexes ''true'' [Atom (PBool True)]" "lexes ''false'' [Atom (PBool False)]"
  "lexes ''NaN'' [Atom (PFloat NaN)]" "lexes ''Infinity'' [Atom (PFloat PosInf)]"
  "lexes ''-Infinity'' [Atom (PFloat NegInf)]"
  by (rule lexes_literal; simp add: literals_def)+

lemma lexes_string: "lexes (json_str s) [Atom (PStr s)]"
  by (simp add: lexes_def lex_json_str)

lemma lexes_bracket:
  assumes "lexes s ts"
  shows "lexes (''['' @ s @ '']'') (LBracket # ts @ [RBracket])" "lexes (''{'' @ s @ ''}'') (LBrace # ts @ [RBrace])"
proof -
  have "delimited (''] '' @ r)" "delimited (CHR '']'' # r)" "delimited (CHR ''}'' # r)" for r
    by (simp_all add: delimited_def)
  with assms show "lexes (''['' @ s @ '']'') (LBracket # ts @ [RBracket])"
    "lexes (''{'' @ s @ ''}'') (LBrace # ts @ [RBrace])"
    by (simp_all add: lexes_def lex_marks punct_def rbind_assoc)
qed

lemma lexes_pair: "lexes s ts \<Longrightarrow> lexes (json_str k @ '':'' @ s) (Atom (PStr k) # Colon # ts)"
  by (simp add: lexes_def lex_json_str lex_marks punct_def rbind_assoc)

lemma rmap_list_all2: "rmap f xs = Inr ys \<longleftrightarrow> list_all2 (\<lambda>x y. f x = Inr y) xs ys"
  by (induction xs arbitrary: ys) (auto simp: res_simps list_all2_Cons1)

lemma lexes_items:
  assumes "list_all2 (\<lambda>x y. dumps pr x = Inr y) xs ss"
    and "\<And>x s. x \<in> set xs \<Longrightarrow> dumps pr x = Inr s \<Longrightarrow> lexes s (toks x)"
  shows "list_all2 lexes ss (map toks xs)"
  using assms by (induction rule: list_all2_induct) simp_all

lemma lexes_pairs:
  assumes "list_all2 (\<lambda>kv y. rbind (dumps pr (snd kv)) (\<lambda>s. Inr (json_str (fst kv) @ '':'' @ s)) = Inr y) kvs ss"
    and "\<And>kv s. kv \<in> set kvs \<Longrightarrow> dumps pr (snd kv) = Inr s \<Longrightarrow> lexes s (toks (snd kv))"
  shows "list_all2 lexes ss (map (\<lambda>kv. Atom (PStr (fst kv)) # Colon # toks (snd kv)) kvs)"
  using assms
proof (induction rule: list_all2_induct)
  case (Cons kv kvs y ys)
  obtain s where s: "dumps pr (snd kv) = Inr s" "y = json_str (fst kv) @ '':'' @ s"
    using Cons(1) by (cases "dumps pr (snd kv)") auto
  then have "lexes y (Atom (PStr (fst kv)) # Colon # toks (snd kv))"
    using lexes_pair Cons(4) by simp
  then show ?case using Cons by simp
qed simp

lemma lexes_dumps: "json_ok pr v \<Longrightarrow> dumps pr v = Inr s \<Longrightarrow> lexes s (toks v)"
proof (induction v arbitrary: s rule: toks.induct [case_names list dict none bool int float str date])
  case (list xs)
  obtain ss where ss: "rmap (dumps pr) xs = Inr ss" "s = ''['' @ join '','' ss @ '']''"
    using list(3) by (cases "rmap (dumps pr) xs") auto
  have "list_all2 lexes ss (map toks xs)"
    using ss(1) list(1,2) by (intro lexes_items) (simp_all add: rmap_list_all2)
  then show ?case unfolding ss(2) toks.simps by (intro lexes_bracket lexes_join)
next
  case (dict kvs)
  let ?f = "\<lambda>kv. rbind (dumps pr (snd kv)) (\<lambda>s. Inr (json_str (fst kv) @ '':'' @ s))"
  obtain ss where ss: "rmap ?f kvs = Inr ss" "s = ''{'' @ join '','' ss @ ''}''"
    using dict(3) by (cases "rmap ?f kvs") auto
  have "list_all2 lexes ss (map (\<lambda>kv. Atom (PStr (fst kv)) # Colon # toks (snd kv)) kvs)"
    using ss(1) dict(1,2) by (intro lexes_pairs) (simp_all only: rmap_list_all2 json_ok.simps, blast)
  then show ?case unfolding ss(2) toks.simps by (intro lexes_bracket lexes_join)
next
  case (float x)
  then show ?case
    by (cases x) (auto simp: prints_back_def lexes_literals intro: lexes_atom)
qed (simp_all add: lexes_literals lexes_string lexes_atom lex_number_dec split: if_splits)

section \<open>The round trip over bytes\<close>

lemma dumps_ok: "json_ok pr v \<Longrightarrow> \<exists>s. dumps pr v = Inr s"
proof (induction v rule: toks.induct)
  case (1 xs)
  then have "\<exists>f. \<forall>x \<in> set xs. dumps pr x = Inr (f x)" by (intro bchoice) simp
  then obtain f where "\<And>x. x \<in> set xs \<Longrightarrow> dumps pr x = Inr (f x)" by blast
  then have "rmap (dumps pr) xs = Inr (map f xs)" by (rule rmap_Inr_all)
  then show ?case by simp
next
  case (2 kvs)
  let ?g = "\<lambda>kv. rbind (dumps pr (snd kv)) (\<lambda>s. Inr (json_str (fst kv) @ '':'' @ s))"
  have "\<forall>kv \<in> set kvs. \<exists>s. ?g kv = Inr s" using 2 by fastforce
  then obtain f where "\<And>kv. kv \<in> set kvs \<Longrightarrow> ?g kv = Inr (f kv)" using bchoice by metis
  then have "rmap ?g kvs = Inr (map f kvs)" by (rule rmap_Inr_all)
  then show ?case by simp
qed auto

lemma plain_ascii_simps [simp]:
  "plain_ascii []" "plain_ascii (c # s) \<longleftrightarrow> (32 \<le> code c \<and> code c < 128) \<and> plain_ascii s"
  "plain_ascii (s @ t) \<longleftrightarrow> plain_ascii s \<and> plain_ascii t"
  by (auto simp: plain_ascii_def)

lemma plain_join: "plain_ascii sep \<Longrightarrow> \<forall>s \<in> set ss. plain_ascii s \<Longrightarrow> plain_ascii (join sep ss)"
  by (induction sep ss rule: join.induct) simp_all

lemma plain_digits: "\<forall>c \<in> set s. is_digit c \<Longrightarrow> plain_ascii s"
  by (auto simp: plain_ascii_def is_digit_def)

lemma plain_dec_int: "plain_ascii (dec_int i)"
  using plain_digits [OF dec_digits] by (auto simp: dec_int_def code_def)

lemma plain_esc: "plain_ascii (esc_char c)"
proof -
  have hex: "32 \<le> code (hex_digit n) \<and> code (hex_digit n) < 128" if "n < 16" for n
    using that by (simp add: hex_digit_def code_char_of)
  have "code c div 16 < 16" "code c mod 16 < 16" using code_bound [of c] by auto
  note hex = hex [OF this(1)] hex [OF this(2)]
  have marks: "code backslash = 92" "code (CHR ''u'') = 117" "code (CHR ''0'') = 48"
    by (simp_all add: code_def)
  show ?thesis
  proof (cases "map_of (map prod.swap escapes) c")
    case None
    then show ?thesis using hex marks by (simp add: esc_char_def)
  next
    case (Some e)
    then have "32 \<le> code e \<and> code e < 128"
      by (auto simp: escapes_def code_def split: if_splits)
    then show ?thesis using Some marks by (simp add: esc_char_def)
  qed
qed

lemma plain_json_str: "plain_ascii (json_str s)"
proof -
  have "plain_ascii (concat (map esc_char s))" by (induction s) (simp_all add: plain_esc)
  then show ?thesis by (simp add: json_str_def code_def)
qed

lemma rmap_origin: "rmap f xs = Inr ys \<Longrightarrow> y \<in> set ys \<Longrightarrow> \<exists>x \<in> set xs. f x = Inr y"
  by (induction xs arbitrary: ys) (auto simp: res_simps)

lemma dumps_plain: "json_ok pr v \<Longrightarrow> dumps pr v = Inr s \<Longrightarrow> plain_ascii s"
proof (induction v arbitrary: s rule: toks.induct [case_names list dict none bool int float str date])
  case (list xs)
  obtain ss where ss: "rmap (dumps pr) xs = Inr ss" "s = ''['' @ join '','' ss @ '']''"
    using list(3) by (cases "rmap (dumps pr) xs") auto
  then have "\<forall>t \<in> set ss. plain_ascii t"
    using list(1,2) rmap_origin [OF ss(1)] by fastforce
  then show ?case unfolding ss(2) by (auto simp: code_def intro: plain_join)
next
  case (dict kvs)
  let ?g = "\<lambda>kv. rbind (dumps pr (snd kv)) (\<lambda>s. Inr (json_str (fst kv) @ '':'' @ s))"
  obtain ss where ss: "rmap ?g kvs = Inr ss" "s = ''{'' @ join '','' ss @ ''}''"
    using dict(3) by (cases "rmap ?g kvs") auto
  have item: "plain_ascii t" if "kv \<in> set kvs" "?g kv = Inr t" for kv t
    using that dict(1) [OF that(1)] dict(2) plain_json_str
    by (cases "dumps pr (snd kv)") (auto simp: code_def)
  then have "\<forall>t \<in> set ss. plain_ascii t" using rmap_origin [OF ss(1)] by blast
  then show ?case unfolding ss(2) by (auto simp: code_def intro: plain_join)
next
  case (float x)
  then show ?case by (cases x) (auto simp: code_def prints_back_def)
next
  case (bool b)
  then show ?case by (cases b) (auto simp: code_def)
qed (auto simp: plain_dec_int plain_json_str code_def)

lemma json_text_ascii:
  assumes "\<forall>c \<in> set s. code c < 128"
  shows "json_text (ascii_bytes s) = Inr s"
proof -
  have "map unat (ascii_bytes s) = map code s"
    using code_bound by (simp add: ascii_bytes_def unsigned_of_nat take_bit_nat_eq_self)
  moreover have "utf8 (map code s) = Some (map code s)"
    using assms by (induction s) auto
  moreover have "\<forall>p \<in> set (map code s). p < 256" using code_bound by auto
  ultimately show ?thesis by (auto simp: json_text_def comp_def)
qed

lemma plain_below: "plain_ascii s \<Longrightarrow> \<forall>c \<in> set s. code c < 128"
  by (simp add: plain_ascii_def)

lemma loads_dumps: "json_ok pr v \<Longrightarrow> dumps pr v = Inr s \<Longrightarrow> loads s = Inr v"
  using lexes_dumps [of pr v s] json_value_toks [of pr v]
  by (simp add: lexes_def delimited_def loads_def)

lemma dumps_nonempty: "json_ok pr v \<Longrightarrow> dumps pr v = Inr s \<Longrightarrow> s \<noteq> []"
  using loads_dumps [of pr v s] by (auto simp: loads_def json_value_def)

definition json_bytes :: "(real \<Rightarrow> string) \<Rightarrow> pyval \<Rightarrow> byte list" where
  "json_bytes pr v = (case cd_dumps (json_codec pr) v of Inl e \<Rightarrow> [] | Inr b \<Rightarrow> b)"

lemma json_codec_lemma:
  assumes "json_ok pr v"
  shows "cd_dumps (json_codec pr) v = Inr (json_bytes pr v)" "json_bytes pr v \<noteq> []"
    "cd_loads (json_codec pr) (json_bytes pr v) = Inr v"
proof -
  obtain s where s: "dumps pr v = Inr s" using dumps_ok [OF assms] by blast
  then have bytes: "json_bytes pr v = ascii_bytes s" by (simp add: json_bytes_def json_codec_def)
  show "cd_dumps (json_codec pr) v = Inr (json_bytes pr v)"
    by (simp add: bytes json_codec_def s)
  show "json_bytes pr v \<noteq> []"
    using dumps_nonempty [OF assms s] by (simp add: bytes ascii_bytes_def)
  show "cd_loads (json_codec pr) (json_bytes pr v) = Inr v"
    using json_text_ascii [OF plain_below [OF dumps_plain [OF assms s]]] loads_dumps [OF assms s]
    by (simp add: bytes json_codec_def)
qed

end
