(* ===== verification/JsonPrefix.thy ===== *)
theory JsonPrefix
  imports Json
begin

text \<open>
  JSON documents are self-delimiting: what the writer puts into a file cannot be read when it was cut
  short, nor when other text follows it. The lexer is shown to work on the front of a text as it works
  on the whole, wherever a string, a bracket, a comma or a colon tells where a token ends.
\<close>

section \<open>Tokens of the front of a text\<close>

definition carry :: "string \<Rightarrow> 'a \<times> string \<Rightarrow> ('a \<times> string) res" where
  "carry r x = Inr (fst x, snd x @ r)"

lemma carry_simps [simp]: "carry r (v, s) = Inr (v, s @ r)"
  by (simp add: carry_def)

lemma int_part_none:
  assumes "int_part s = None" "delimited rest"
  shows "int_part (s @ rest) = None"
proof (cases s)
  case Nil
  have "\<not> is_digit c \<and> c \<noteq> CHR ''0''" if "breaker c" for c
    using breaker_cases [OF that] by (auto simp: is_digit_def code_def)
  with assms Nil show ?thesis by (cases rest) (auto simp: int_part_def delimited_def)
next
  case (Cons c cs)
  with assms(1) show ?thesis by (auto simp: int_part_def split: if_splits)
qed

lemma lex_number_delimited:
  assumes "delimited rest"
  shows "lex_number (s @ rest) = rbind (lex_number s) (carry rest)"
proof (cases "lex_number s")
  case (Inr x)
  then show ?thesis using lex_number_append [of s "fst x" "snd x", OF _ assms] by (simp add: carry_def)
next
  case (Inl e)
  let ?sg = "\<lambda>s. if s \<noteq> [] \<and> hd s = CHR ''-'' then ''-'' else []"
  have sg: "?sg (s @ rest) = ?sg s" "drop (length (?sg s)) (s @ rest) = drop (length (?sg s)) s @ rest"
    using delimited_head(3) [OF assms] by (cases s; cases rest; simp)+
  show ?thesis
  proof (cases "int_part (drop (length (?sg s)) s)")
    case None
    then show ?thesis
      using Inl int_part_none [OF None assms] unfolding lex_number_def Let_def sg by simp
  next
    case (Some x)
    obtain ip r1 where ip: "int_part (drop (length (?sg s)) s) = Some (ip, r1)"
      using Some by (cases x) auto
    obtain fp r2 where fp: "frac_part r1 = (fp, r2)" by fastforce
    obtain ep r3 where ep: "exp_part r2 = (ep, r3)" by fastforce
    show ?thesis
      using Inl ip fp ep
      unfolding lex_number_def Let_def sg int_part_append [OF ip assms] option.case prod.case
        frac_part_append [OF fp assms] exp_part_append [OF ep assms]
      by (auto simp: res_simps split: if_splits)
  qed
qed

text \<open>In a text with a breaker, what follows the text does not matter to its first number or keyword.\<close>

lemma at_breaker:
  assumes "c \<in> set p" "breaker c"
  obtains a b where "p = a @ b" "delimited b" "b \<noteq> []"
proof -
  have "\<exists>a b. p = a @ b \<and> delimited b \<and> b \<noteq> []"
    using assms(1)
  proof (induction p)
    case (Cons d p)
    show ?case
    proof (cases "c = d")
      case True
      with assms(2) have "d # p = [] @ d # p \<and> delimited (d # p) \<and> d # p \<noteq> []"
        by (simp add: delimited_def)
      then show ?thesis by blast
    next
      case False
      with Cons obtain a b where "p = a @ b" "delimited b" "b \<noteq> []" by auto
      then have "d # p = (d # a) @ b \<and> delimited b \<and> b \<noteq> []" by simp
      then show ?thesis by blast
    qed
  qed simp
  with that show thesis by blast
qed

lemma lex_number_front:
  assumes "c \<in> set p" "breaker c"
  shows "lex_number (p @ r) = rbind (lex_number p) (carry r)"
proof -
  obtain a b where ab: "p = a @ b" "delimited b" "b \<noteq> []" by (rule at_breaker [OF assms])
  then have "delimited (b @ r)" by (cases b) (auto simp: delimited_def)
  with ab(2) show ?thesis
    by (cases "lex_number a") (auto simp: ab(1) lex_number_delimited carry_def)
qed

lemma literals_no_breaker: "(k, v) \<in> set literals \<Longrightarrow> c \<in> set k \<Longrightarrow> \<not> breaker c"
proof
  assume kv: "(k, v) \<in> set literals" "c \<in> set k" and "breaker c"
  from breaker_cases [OF this(3)] kv show False by (auto simp: literals_def)
qed

lemma keyword_front:
  assumes "c \<in> set p" "breaker c"
  shows "keyword (p @ r) = map_option (\<lambda>x. (fst x, snd x @ r)) (keyword p)"
proof -
  have same: "take (length k) (p @ r) = k \<longleftrightarrow> take (length k) p = k" if "(k, v) \<in> set literals" for k v
  proof (cases "length k \<le> length p")
    case False
    then have "set p \<subseteq> set (take (length k) (p @ r))" by auto
    with False assms literals_no_breaker [OF that] show ?thesis by fastforce
  qed simp
  let ?P = "\<lambda>s (k, v). take (length k) s = (k :: string)"
  have "find (?P (p @ r)) literals = find (?P p) literals"
    by (rule find_cong [OF refl]) (use same in auto)
  moreover have "length k \<le> length p" if "find (?P p) literals = Some (k, v)" for k v
  proof -
    have "take (length k) p = k" using that by (auto simp: find_Some_iff)
    then show ?thesis by (metis length_take min.cobounded1)
  qed
  ultimately show ?thesis
    by (auto simp: keyword_def map_option_case split: option.splits)
qed

section \<open>Strings\<close>

lemma push_carry: "push c (rbind x (carry r)) = rbind (push c x) (carry r)"
  by (cases x) (auto simp: push_def carry_def)

text \<open>The literal's first item: its end, a plain character, an escape, or what is wrong with it.\<close>

datatype item = Ends string | Item char string | Bad exn

definition first_item_of :: "string \<Rightarrow> item" where
  "first_item_of s =
     (case s of
        [] \<Rightarrow> Bad JSONDecodeError
      | c # cs \<Rightarrow>
          if c = quote then Ends cs
          else if c = backslash then
            (case cs of
               [] \<Rightarrow> Bad JSONDecodeError
             | e # r \<Rightarrow>
                 if e = CHR ''u'' then
                   (case r of
                      w # x # y # z # r' \<Rightarrow>
                        (case hex4 w x y z of
                           None \<Rightarrow> Bad JSONDecodeError
                         | Some n \<Rightarrow> if n < 256 then Item (char_of n) r' else Bad beyond_model)
                    | _ \<Rightarrow> Bad JSONDecodeError)
                 else (case unescape e of None \<Rightarrow> Bad JSONDecodeError | Some d \<Rightarrow> Item d r))
          else if code c < 32 then Bad JSONDecodeError
          else Item c cs)"

lemma lex_string_item:
  "lex_string s =
     (case first_item_of s of
        Ends r \<Rightarrow> Inr ([], r) | Item d r \<Rightarrow> push d (lex_string r) | Bad e \<Rightarrow> Inl e)"
  by (cases s) (simp_all add: first_item_of_def split: list.splits option.splits)

lemma first_item_shorter: "first_item_of s = Item d r \<Longrightarrow> length r < length s"
  by (auto simp: first_item_of_def split: list.splits option.splits if_splits)

lemma first_item_front:
  "first_item_of p = Ends s \<Longrightarrow> first_item_of (p @ r) = Ends (s @ r)"
  "first_item_of p = Item d s \<Longrightarrow> first_item_of (p @ r) = Item d (s @ r)"
  "first_item_of p = Bad e \<Longrightarrow> e \<noteq> JSONDecodeError \<Longrightarrow> first_item_of (p @ r) = Bad e"
proof -
  have "(\<forall>s. first_item_of p = Ends s \<longrightarrow> first_item_of (p @ r) = Ends (s @ r)) \<and>
    (\<forall>d s. first_item_of p = Item d s \<longrightarrow> first_item_of (p @ r) = Item d (s @ r)) \<and>
    (\<forall>e. first_item_of p = Bad e \<longrightarrow> e \<noteq> JSONDecodeError \<longrightarrow> first_item_of (p @ r) = Bad e)"
  proof (cases p)
    case (Cons c cs)
    show ?thesis
    proof (cases "c = backslash")
      case True
      show ?thesis
      proof (cases cs)
        case cs: (Cons e q)
        show ?thesis
        proof (cases "e = CHR ''u''")
          case True
          with \<open>c = backslash\<close> Cons cs show ?thesis
            by (simp add: first_item_of_def split: list.split option.split)
        next
          case False
          with \<open>c = backslash\<close> Cons cs show ?thesis
            by (simp add: first_item_of_def split: option.split)
        qed
      qed (simp add: Cons True first_item_of_def)
    qed (simp add: Cons first_item_of_def)
  qed (simp add: first_item_of_def)
  then show "first_item_of p = Ends s \<Longrightarrow> first_item_of (p @ r) = Ends (s @ r)"
    "first_item_of p = Item d s \<Longrightarrow> first_item_of (p @ r) = Item d (s @ r)"
    "first_item_of p = Bad e \<Longrightarrow> e \<noteq> JSONDecodeError \<Longrightarrow> first_item_of (p @ r) = Bad e"
    by blast+
qed

text \<open>The front of a literal is read like the whole, or it ends within the literal.\<close>

lemma lex_string_front: "lex_string p = Inr x \<Longrightarrow> lex_string (p @ r) = carry r x"
proof (induction p arbitrary: x rule: measure_induct_rule [where f = length])
  case (less p)
  show ?case
  proof (cases "first_item_of p")
    case (Ends s)
    with less(2) show ?thesis
      by (auto simp: lex_string_item [of p] lex_string_item [of "p @ r"] first_item_front carry_def)
  next
    case (Item d s)
    then obtain y where y: "lex_string s = Inr y" "x = (d # fst y, snd y)"
      using less(2) by (cases "lex_string s") (auto simp: lex_string_item [of p] push_def)
    from less(1) [OF first_item_shorter [OF Item] y(1)] y(2) show ?thesis
      using Item by (simp add: lex_string_item [of "p @ r"] first_item_front push_def carry_def)
  next
    case (Bad e)
    with less(2) show ?thesis by (simp add: lex_string_item [of p])
  qed
qed

lemma lex_string_cut: "lex_string p = Inl e \<Longrightarrow> e \<noteq> JSONDecodeError \<Longrightarrow> lex_string (p @ r) = Inl e"
proof (induction p rule: measure_induct_rule [where f = length])
  case (less p)
  show ?case
  proof (cases "first_item_of p")
    case (Item d s)
    then have "lex_string s = Inl e"
      using less(2) by (cases "lex_string s") (auto simp: lex_string_item [of p] push_def)
    from less(1) [OF first_item_shorter [OF Item] this less(3)] Item show ?thesis
      by (simp add: lex_string_item [of "p @ r"] first_item_front push_def)
  next
    case (Bad e')
    with less(2,3) show ?thesis
      by (simp add: lex_string_item [of p] lex_string_item [of "p @ r"] first_item_front)
  qed (use less(2) in \<open>simp add: lex_string_item [of p]\<close>)
qed

section \<open>The front of a document\<close>

lemma lex_number_rest: "lex_number s = Inr (v, r) \<Longrightarrow> set r \<subseteq> set s"
proof -
  have int: "set r \<subseteq> set s" if "int_part s = Some (ip, r)" for ip r s
    using that by (auto simp: int_part_def split: list.splits if_splits dest!: set_dropWhileD)
  have frac: "set r \<subseteq> set s" if "frac_part s = (fp, r)" for fp r s
    using that by (auto simp: frac_part_def Let_def split: if_splits dest: in_set_dropD)
  have exp: "set r \<subseteq> set s" if "exp_part s = (ep, r)" for ep r s
  proof -
    have "set (drop n (tl s)) \<subseteq> set s" for n by (cases s) (auto dest: in_set_dropD)
    then show ?thesis using that by (auto simp: exp_part_def Let_def split: if_splits)
  qed
  assume *: "lex_number s = Inr (v, r)"
  let ?s = "drop (length (if s \<noteq> [] \<and> hd s = CHR ''-'' then ''-'' else [])) s"
  obtain ip r1 where ip: "int_part ?s = Some (ip, r1)"
    using * by (auto simp: lex_number_def Let_def split: option.splits)
  obtain fp r2 where fp: "frac_part r1 = (fp, r2)" by fastforce
  obtain ep r3 where ep: "exp_part r2 = (ep, r3)" by fastforce
  have "r = r3"
    using * ip fp ep unfolding lex_number_def Let_def by (auto simp: res_simps split: if_splits)
  moreover have "set ?s \<subseteq> set s" by (rule set_drop_subset)
  ultimately show ?thesis using int [OF ip] frac [OF fp] exp [OF ep] by blast
qed

lemma keyword_rest: "keyword s = Some (v, r) \<Longrightarrow> set r \<subseteq> set s"
  by (auto simp: keyword_def dest: in_set_dropD)

lemma float_not_beyond: "py_float_of_str s \<noteq> Inl beyond_model"
  by (auto simp: py_float_of_str_def beyond_model_def Let_def res_simps split: option.splits if_splits prod.splits)

lemma number_not_beyond: "lex_number s \<noteq> Inl beyond_model"
  using float_not_beyond
  by (auto simp: lex_number_def Let_def res_simps beyond_model_def split: option.splits prod.splits if_splits)

definition marks :: "jtoken list res \<Rightarrow> bool" where
  "marks r \<longleftrightarrow> r = Inl beyond_model \<or> (\<exists>ts. r = Inr ts \<and> (\<exists>t \<in> set ts. \<forall>v. t \<noteq> Atom v))"

lemma marks_cons: "marks (rbind r (\<lambda>ts. Inr (Atom v # ts))) \<Longrightarrow> marks r"
  by (cases r) (auto simp: marks_def)

lemma marks_breaker: "marks (lex s) \<Longrightarrow> \<exists>c \<in> set s. breaker c"
proof (induction s rule: lex.induct)
  case 1
  then show ?case by (simp add: marks_def)
next
  case (2 c cs)
  show ?case
  proof (cases "breaker c \<or> json_space c")
    case True
    then show ?thesis using 2(1,6) by (auto simp: lex.simps(2))
  next
    case False
    then have c: "\<not> json_space c" "c \<noteq> quote" "map_of punct c = None" by (auto simp: breaker_def)
    show ?thesis
    proof (cases "keyword (c # cs)")
      case (Some x)
      have "marks (lex (snd x))" using 2(6) c Some by (simp add: lex.simps(2) marks_cons)
      from 2(4) [OF c Some this] keyword_rest [of "c # cs" "fst x" "snd x"] Some show ?thesis by auto
    next
      case None
      show ?thesis
      proof (cases "lex_number (c # cs)")
        case (Inl e)
        then show ?thesis
          using 2(6) c None number_not_beyond [of "c # cs"] by (auto simp: lex.simps(2) marks_def)
      next
        case (Inr x)
        have "marks (lex (snd x))" using 2(6) c None Inr by (simp add: lex.simps(2) marks_cons)
        from 2(3) [OF c None Inr this] lex_number_rest [of "c # cs" "fst x" "snd x"] Inr show ?thesis by auto
      qed
    qed
  qed
qed

text \<open>A front that ends in a bracket, comma or colon is read as in the whole; one with a character
  outside the model makes the whole have it.\<close>

definition closed :: "jtoken list \<Rightarrow> bool" where
  "closed ts \<longleftrightarrow> ts = [] \<or> (\<forall>v. last ts \<noteq> Atom v)"

lemma closed_cons: "closed (Atom v # ts) \<Longrightarrow> ts \<noteq> [] \<and> closed ts \<and> marks (Inr ts)"
  by (auto simp: closed_def marks_def intro!: bexI [OF _ last_in_set] split: if_splits)

lemma closed_tail: "closed (t # ts) \<Longrightarrow> closed ts"
  by (auto simp: closed_def split: if_splits)

lemma lex_front: "lex p = Inr ts \<Longrightarrow> closed ts \<Longrightarrow> lex (p @ r) = rbind (lex r) (\<lambda>us. Inr (ts @ us))"
proof (induction p arbitrary: ts rule: lex.induct)
  case (2 c cs)
  consider (space) "json_space c" | (string) "\<not> json_space c" "c = quote"
    | (mark) t where "\<not> json_space c" "c \<noteq> quote" "map_of punct c = Some t"
    | (keyword) x where "\<not> json_space c" "c \<noteq> quote" "map_of punct c = None" "keyword (c # cs) = Some x"
    | (number) "\<not> json_space c" "c \<noteq> quote" "map_of punct c = None" "keyword (c # cs) = None"
    by fastforce
  then show ?case
  proof cases
    case space
    then show ?thesis using 2(1,6,7) by (simp add: lex.simps(2))
  next
    case string
    then obtain x us where x: "lex_string cs = Inr x" "lex (snd x) = Inr us" "ts = Atom (PStr (fst x)) # us"
      using 2(6) by (auto simp: lex.simps(2) res_simps)
    moreover have "closed us" using 2(7) x(3) closed_cons by blast
    ultimately show ?thesis
      using 2(2) [OF string x(1) x(2)] string lex_string_front [OF x(1), of r]
      by (simp add: lex.simps(2) carry_def rbind_assoc)
  next
    case mark
    then obtain us where us: "lex cs = Inr us" "ts = t # us" using 2(6) by (auto simp: lex.simps(2) res_simps)
    then show ?thesis
      using 2(5) [OF mark us(1)] 2(7) mark by (simp add: closed_tail lex.simps(2) rbind_assoc)
  next
    case keyword
    then obtain us where us: "lex (snd x) = Inr us" "ts = Atom (fst x) # us"
      using 2(6) by (auto simp: lex.simps(2) res_simps)
    then have us': "closed us" "marks (lex (snd x))" using 2(7) closed_cons by auto
    then obtain b where "b \<in> set (c # cs)" "breaker b"
      using marks_breaker keyword_rest [of "c # cs" "fst x" "snd x"] keyword(4) by fastforce
    from keyword_front [OF this, of r] keyword show ?thesis
      using 2(4) [OF keyword us(1) us'(1)] us(2) by (simp add: lex.simps(2) rbind_assoc)
  next
    case number
    then obtain x us where x: "lex_number (c # cs) = Inr x" "lex (snd x) = Inr us" "ts = Atom (fst x) # us"
      using 2(6) by (auto simp: lex.simps(2) res_simps)
    then have us: "closed us" "marks (lex (snd x))" using 2(7) closed_cons by auto
    then obtain b where b: "b \<in> set (c # cs)" "breaker b"
      using marks_breaker lex_number_rest [of "c # cs" "fst x" "snd x"] x(1) by fastforce
    from keyword_front [OF b, of r] lex_number_front [OF b, of r] number x show ?thesis
      using 2(3) [OF number x(1,2) us(1)] by (simp add: lex.simps(2) carry_def rbind_assoc)
  qed
qed simp

lemma lex_beyond: "lex p = Inl beyond_model \<Longrightarrow> lex (p @ r) = Inl beyond_model"
proof (induction p rule: lex.induct)
  case (2 c cs)
  have not_json: "beyond_model \<noteq> JSONDecodeError" by (simp add: beyond_model_def)
  obtain b where b: "b \<in> set (c # cs)" "breaker b"
    using marks_breaker [of "c # cs"] 2(6) by (auto simp: marks_def)
  note front = keyword_front [OF b, of r] lex_number_front [OF b, of r]
  consider (space) "json_space c" | (string) "\<not> json_space c" "c = quote"
    | (mark) t where "\<not> json_space c" "c \<noteq> quote" "map_of punct c = Some t"
    | (keyword) x where "\<not> json_space c" "c \<noteq> quote" "map_of punct c = None" "keyword (c # cs) = Some x"
    | (number) "\<not> json_space c" "c \<noteq> quote" "map_of punct c = None" "keyword (c # cs) = None"
    by fastforce
  then show ?case
  proof cases
    case space
    then show ?thesis using 2(1,6) by (simp add: lex.simps(2))
  next
    case string
    show ?thesis
    proof (cases "lex_string cs")
      case (Inl e)
      then show ?thesis using string 2(6) lex_string_cut [of cs e r] not_json by (simp add: lex.simps(2))
    next
      case (Inr x)
      then show ?thesis
        using string 2(2) [OF string Inr] 2(6) lex_string_front [OF Inr, of r]
        by (auto simp: lex.simps(2) res_simps carry_def)
    qed
  next
    case mark
    then show ?thesis using 2(5) [OF mark] 2(6) by (auto simp: lex.simps(2) res_simps)
  next
    case keyword
    then show ?thesis using 2(4) [OF keyword] 2(6) front(1) by (auto simp: lex.simps(2) res_simps)
  next
    case number
    show ?thesis
    proof (cases "lex_number (c # cs)")
      case (Inl e)
      then show ?thesis using number 2(6) number_not_beyond [of "c # cs"] by (simp add: lex.simps(2))
    next
      case (Inr x)
      then show ?thesis
        using number 2(3) [OF number Inr] 2(6) front by (auto simp: lex.simps(2) res_simps carry_def)
    qed
  qed
qed simp

section \<open>Objects are self-delimiting\<close>

lemma json_step_no_return: "json_step st t \<noteq> Some ([], Want)"
  by (cases "(st, t)" rule: json_step.cases)
    (auto simp: open_value_def split: jtoken.splits if_splits)

lemma json_steps_no_return: "json_steps st ts = Some ([], Want) \<Longrightarrow> ts = [] \<and> st = ([], Want)"
  using json_step_no_return by (induction ts arbitrary: st) (fastforce split: option.splits)+

lemma atom_ends: "json_step st (Atom a) = Some ([], Have v) \<Longrightarrow> st = ([], Want)"
  by (cases "(st, Atom a)" rule: json_step.cases)
    (auto simp: open_value_def key_of_def split: if_splits)

lemma value_closed:
  assumes "json_value ts = Inr v" "ts = LBrace # us"
  shows "closed ts"
proof (rule ccontr)
  assume "\<not> closed ts"
  then obtain a ts' where ts: "ts = ts' @ [Atom a]"
    unfolding closed_def by (metis append_butlast_last_id)
  have "json_steps ([], Want) ts = Some ([], Have v)"
    using assms(1) by (auto simp: json_value_def split: option.splits prod.splits list.splits jmode.splits)
  then obtain st where st: "json_steps ([], Want) ts' = Some st" "json_step st (Atom a) = Some ([], Have v)"
    by (auto simp: ts json_steps_append split: option.splits)
  then have "ts' = []" using atom_ends json_steps_no_return by blast
  with ts assms(2) show False by simp
qed

lemma nothing_after: "json_value ts = Inr v \<Longrightarrow> us \<noteq> [] \<Longrightarrow> json_value (ts @ us) = Inl JSONDecodeError"
  by (cases us)
    (auto simp: json_value_def json_steps_append split: option.splits prod.splits list.splits jmode.splits)

lemma lex_blank: "lex s = Inr [] \<Longrightarrow> \<forall>c \<in> set s. json_space c"
proof (induction s)
  case (Cons c cs)
  then show ?case
    by (cases "json_space c") (auto simp: lex.simps(2) res_simps split: if_splits option.splits)
qed simp

lemma object_text:
  assumes "json_ok pr (PDict kvs)" "dumps pr (PDict kvs) = Inr s"
  obtains body us where "s = CHR ''{'' # body" "last s = CHR ''}''" "lex s = Inr (LBrace # us)"
    "json_value (LBrace # us) = Inr (PDict kvs)"
proof -
  obtain inner where s: "s = CHR ''{'' # inner @ ''}''" using assms(2) by (auto simp: res_simps)
  have "lex s = Inr (toks (PDict kvs))"
    using lexes_dumps [OF assms] by (simp add: lexes_def delimited_def)
  moreover have "json_value (toks (PDict kvs)) = Inr (PDict kvs)" by (rule json_value_toks [OF assms(1)])
  ultimately show thesis using s by (intro that [of "inner @ ''}''"]) simp_all
qed

text \<open>An object cut short is not a document, and is not beyond the model either.\<close>

lemma cut_object:
  assumes "json_ok pr (PDict kvs)" "dumps pr (PDict kvs) = Inr (p @ r)" "p \<noteq> []" "r \<noteq> []"
  shows "\<exists>e. loads p = Inl e \<and> e \<noteq> beyond_model"
proof -
  obtain body us where s: "p @ r = CHR ''{'' # body" "last (p @ r) = CHR ''}''"
      "lex (p @ r) = Inr (LBrace # us)" "json_value (LBrace # us) = Inr (PDict kvs)"
    by (rule object_text [OF assms(1,2)])
  have json: "JSONDecodeError \<noteq> beyond_model" by (simp add: beyond_model_def)
  show ?thesis
  proof (cases "lex p")
    case (Inl e)
    then have "e \<noteq> beyond_model" using lex_beyond [of p r] s(3) by auto
    with Inl show ?thesis by (simp add: loads_def)
  next
    case (Inr ts)
    show ?thesis
    proof (cases "json_value ts")
      case (Inl e)
      then have "e = JSONDecodeError"
        by (auto simp: json_value_def split: option.splits prod.splits list.splits jmode.splits)
      with Inl Inr json show ?thesis by (simp add: loads_def)
    next
      case v: (Inr v)
      obtain q where "p = CHR ''{'' # q" using s(1) assms(3) by (cases p) auto
      then have "\<exists>qs. ts = LBrace # qs" using Inr by (auto simp: lex_marks punct_def res_simps)
      then have "lex (p @ r) = rbind (lex r) (\<lambda>us. Inr (ts @ us))"
        using lex_front [OF Inr] value_closed [OF v] by blast
      then obtain rs where rs: "lex r = Inr rs" "LBrace # us = ts @ rs"
        using s(3) by (cases "lex r") auto
      have "last r = CHR ''}''" using s(2) assms(4) by simp
      then have "\<not> json_space (last r)" by (simp add: json_space_def code_def)
      then have "rs \<noteq> []" using lex_blank [of r] rs(1) assms(4) last_in_set by blast
      from nothing_after [OF v this] rs(2) s(4) show ?thesis by simp
    qed
  qed
qed

text \<open>Two objects in a row are not a document.\<close>

lemma glued_objects:
  assumes "json_ok pr (PDict kvs)" "dumps pr (PDict kvs) = Inr s"
    and "json_ok pr (PDict kvs')" "dumps pr (PDict kvs') = Inr s'"
  shows "loads (s @ s') = Inl JSONDecodeError"
proof -
  obtain body us where s: "s = CHR ''{'' # body" "lex s = Inr (LBrace # us)"
      "json_value (LBrace # us) = Inr (PDict kvs)"
    by (rule object_text [OF assms(1,2)])
  obtain us' where s': "lex s' = Inr (LBrace # us')" by (rule object_text [OF assms(3,4)])
  have "lex (s @ s') = Inr ((LBrace # us) @ LBrace # us')"
    using lex_front [OF s(2)] value_closed [OF s(3)] s' by simp
  then show ?thesis using nothing_after [OF s(3), of "LBrace # us'"] by (simp add: loads_def)
qed

end
