(* ===== verification/Files.thy ===== *)
theory Files
  imports Json Lease History
begin

text \<open>
  The bytes of the two files of the daemon. \<open>Lease\<close> and \<open>History\<close> keep a file as what reading it
  gives; here is that reading, from the bytes (\<open>LeaseStore.load\<close> of \<open>src/src/ocp/lease.py\<close>,
  \<open>HistoryStore.load\<close> of \<open>src/src/ocp/history.py\<close>), and what the writers write. None is a file with
  characters beyond the model.

  The lemmas: what was written is read as the documents the stores keep.
\<close>

abbreviation newline :: char where
  "newline \<equiv> CHR 0x0A"

abbreviation return :: char where
  "return \<equiv> CHR 0x0D"

text \<open>Text files are read with universal newlines, line by line.\<close>

fun newlines :: "string \<Rightarrow> string" where
  "newlines [] = []"
| "newlines [c] = [if c = return then newline else c]"
| "newlines (c # d # cs) =
     (if c = return then newline # newlines (if d = newline then cs else d # cs)
      else c # newlines (d # cs))"

definition lines_of :: "string \<Rightarrow> string list" where
  "lines_of t =
     (let ls = split_on newline (newlines t) in if last ls = [] then butlast ls else ls)"

section \<open>The history\<close>

definition line_of :: "string \<Rightarrow> hline option" where
  "line_of s =
     (if strip s = [] then Some BlankLine
      else case loads (strip s) of
        Inr v \<Rightarrow> Some (JsonLine v)
      | Inl e \<Rightarrow> if e = beyond_model then None else Some BadLine)"

definition history_of_bytes :: "byte list option \<Rightarrow> hfile option" where
  "history_of_bytes file =
     (case file of
        None \<Rightarrow> Some HNoFile
      | Some bs \<Rightarrow>
          (case json_text bs of
             Inl e \<Rightarrow> if e = beyond_model then None else Some HNotUtf8
           | Inr t \<Rightarrow> map_option HLines (those (map line_of (lines_of t)))))"

definition entry_line :: "(real \<Rightarrow> string) \<Rightarrow> entry \<Rightarrow> string res" where
  "entry_line pr e = rbind (dumps pr (entry_to_dict e)) (\<lambda>s. Inr (s @ [newline]))"

definition history_text :: "(real \<Rightarrow> string) \<Rightarrow> entry list \<Rightarrow> string res" where
  "history_text pr es = rbind (rmap (entry_line pr) es) (\<lambda>ls. Inr (concat ls))"

section \<open>The leases\<close>

definition state_of_bytes :: "byte list option \<Rightarrow> state_file option" where
  "state_of_bytes file =
     (case file of
        None \<Rightarrow> Some SNoFile
      | Some bs \<Rightarrow>
          (case json_text bs of
             Inl e \<Rightarrow> if e = beyond_model then None else Some SNotUtf8
           | Inr t \<Rightarrow>
               (case loads (if t = [] then ''{}'' else newlines t) of
                  Inr v \<Rightarrow> Some (SDoc v)
                | Inl e \<Rightarrow> if e = beyond_model then None else Some SBadJson)))"

definition state_bytes :: "(real \<Rightarrow> string) \<Rightarrow> lease_map \<Rightarrow> byte list" where
  "state_bytes pr m = json_bytes pr (state_doc m)"

section \<open>Reading back\<close>

lemma newlines_plain: "return \<notin> set t \<Longrightarrow> newlines t = t"
  by (induction t rule: newlines.induct) auto

lemma plain_no_newline:
  assumes "plain_ascii s"
  shows "newline \<notin> set s" "return \<notin> set s"
proof -
  have "code newline = 10" "code return = 13" by (simp_all add: code_def)
  then show "newline \<notin> set s" "return \<notin> set s"
    using assms by (auto simp: plain_ascii_def dest!: bspec)
qed

lemma strip_ends: "s \<noteq> [] \<Longrightarrow> \<not> P (hd s) \<Longrightarrow> \<not> P (last s) \<Longrightarrow> strip_by P s = s"
proof -
  assume ends: "s \<noteq> []" "\<not> P (hd s)" "\<not> P (last s)"
  have drop: "dropWhile P t = t" if "t \<noteq> []" "\<not> P (hd t)" for t
    using that by (cases t) simp_all
  have "\<not> P (hd (rev s))" using ends by (simp add: hd_rev)
  then show ?thesis using ends drop [of s] drop [of "rev s"] by (simp add: strip_by_def)
qed

lemma dict_text_ends:
  assumes "dumps pr (PDict kvs) = Inr s"
  shows "strip s = s"
proof -
  obtain body where "s = CHR ''{'' # body @ ''}''" using assms by (auto simp: res_simps)
  moreover have "\<not> is_space (CHR ''{'')" "\<not> is_space (CHR ''}'')" by code_simp+
  ultimately show ?thesis by (intro strip_ends) simp_all
qed

lemma line_of_dumps:
  assumes "json_ok pr (PDict kvs)" "dumps pr (PDict kvs) = Inr s"
  shows "line_of s = Some (JsonLine (PDict kvs))"
  using loads_dumps [OF assms] dict_text_ends [OF assms(2)] dumps_nonempty [OF assms]
  by (simp add: line_of_def)

lemma split_lines:
  "\<forall>l \<in> set ls. newline \<notin> set l \<Longrightarrow>
   split_on newline (concat (map (\<lambda>l. l @ [newline]) ls)) = ls @ [[]]"
  by (induction ls) (simp_all add: split_on_append)

lemma state_bytes_read:
  assumes "json_ok pr (state_doc m)"
  shows "state_of_bytes (Some (state_bytes pr m)) = Some (SDoc (state_doc m))"
proof -
  obtain s where s: "dumps pr (state_doc m) = Inr s" using dumps_ok [OF assms] by blast
  have plain: "plain_ascii s" by (rule dumps_plain [OF assms s])
  have "json_text (state_bytes pr m) = Inr s"
    using json_text_ascii [OF plain_below [OF plain]]
    by (simp add: state_bytes_def json_bytes_def json_codec_def s)
  then show ?thesis
    using loads_dumps [OF assms s] newlines_plain [OF plain_no_newline(2) [OF plain]]
      dumps_nonempty [OF assms s]
    by (simp add: state_of_bytes_def)
qed

lemma history_text_lines:
  assumes "\<forall>e \<in> set es. json_ok pr (entry_to_dict e)"
  obtains ls where "history_text pr es = Inr (concat (map (\<lambda>l. l @ [newline]) ls))"
    "list_all2 (\<lambda>e l. dumps pr (entry_to_dict e) = Inr l) es ls"
proof -
  have "\<forall>e \<in> set es. \<exists>s. dumps pr (entry_to_dict e) = Inr s" using assms dumps_ok by blast
  then obtain f where f: "\<And>e. e \<in> set es \<Longrightarrow> dumps pr (entry_to_dict e) = Inr (f e)"
    using bchoice by metis
  then have "rmap (entry_line pr) es = Inr (map (\<lambda>e. f e @ [newline]) es)"
    by (intro rmap_Inr_all) (simp add: entry_line_def)
  then have "history_text pr es = Inr (concat (map (\<lambda>l. l @ [newline]) (map f es)))"
    by (simp add: history_text_def comp_def)
  moreover have "list_all2 (\<lambda>e l. dumps pr (entry_to_dict e) = Inr l) es (map f es)"
    using f by (simp add: list_all2_conv_all_nth)
  ultimately show thesis by (rule that)
qed

lemma history_text_read:
  assumes "\<forall>e \<in> set es. json_ok pr (entry_to_dict e)"
  shows "\<exists>t. history_text pr es = Inr t \<and> history_of_bytes (Some (ascii_bytes t)) = Some (file_of es)"
proof -
  obtain ls where ls: "history_text pr es = Inr (concat (map (\<lambda>l. l @ [newline]) ls))"
      "list_all2 (\<lambda>e l. dumps pr (entry_to_dict e) = Inr l) es ls"
    using history_text_lines [OF assms] by blast
  let ?t = "concat (map (\<lambda>l. l @ [newline]) ls)"
  have line: "plain_ascii l \<and> line_of l = Some (JsonLine (entry_to_dict e))"
    if "e \<in> set es" "dumps pr (entry_to_dict e) = Inr l" for e l
    using that assms dumps_plain line_of_dumps [of pr _ l]
    by (auto simp: entry_to_dict_def simp del: json_ok.simps dumps.simps)
  have plain: "\<forall>l \<in> set ls. plain_ascii l" and
    read: "map line_of ls = map (\<lambda>e. Some (JsonLine (entry_to_dict e))) es"
    using ls(2) line by (induction rule: list_all2_induct) (simp_all, blast+)
  have code: "code newline = 10" by (simp add: code_def)
  have "\<forall>c \<in> set ?t. code c < 128" using plain code by (auto simp: plain_ascii_def)
  then have "json_text (ascii_bytes ?t) = Inr ?t" by (rule json_text_ascii)
  moreover have "return \<notin> set ?t" using plain plain_no_newline(2) by auto
  then have "lines_of ?t = ls"
    using split_lines [of ls] plain plain_no_newline(1)
    by (simp add: lines_of_def newlines_plain)
  moreover have "those (map (\<lambda>e. Some (JsonLine (entry_to_dict e))) es) = Some (map (JsonLine \<circ> entry_to_dict) es)"
    by (induction es) simp_all
  ultimately show ?thesis
    using ls(1) read by (simp add: history_of_bytes_def file_of_def)
qed

text \<open>C26. What the daemon writes to its files is what it reads after a restart: the bytes of the state
  file are read as the document of the saved leases, and those of the history file as its entries,
  line by line, provided their floats print as numerals that read back.\<close>

theorem files_read_back:
  assumes "\<forall>(g, l) \<in> set m. json_ok pr (lease_to_dict l)" "\<forall>e \<in> set es. json_ok pr (entry_to_dict e)"
  shows "state_of_bytes (Some (state_bytes pr m)) = Some (SDoc (state_doc m)) \<and>
    (\<exists>t. history_text pr es = Inr t \<and> history_of_bytes (Some (ascii_bytes t)) = Some (file_of es))"
proof -
  have "json_ok pr (state_doc m)" using assms(1) by (auto simp: state_doc_def)
  then show ?thesis using state_bytes_read history_text_read [OF assms(2)] by blast
qed

text \<open>A lease that ends at time 1000, for examples.\<close>

definition round_floats :: "real \<Rightarrow> string" where
  "round_floats r = (if r = 1000 then ''1000.0'' else ''0.0'')"

lemma round_floats_print: "prints_back round_floats 0" "prints_back round_floats 1000"
  by (simp_all add: prints_back_def round_floats_def lex_number_def int_part_def frac_part_def
      exp_part_def is_digit_def code_def py_float_of_str_def num_strip_def strip_by_def num_space_def
      ascii_space_def py_unsigned_float_def lower_def lower_char_def py_mantissa_def opt_digits_def
      undec_def scale10_def Let_def)

theorem files_read_back_witness:
  "state_of_bytes (Some (state_bytes round_floats
      [(7, \<lparr>l_uid = 1, l_user = ''a'', l_gpu = 7, l_acquired_at = Fin 0, l_expires_at = Fin 1000\<rparr>)])) =
   Some (SDoc (state_doc
      [(7, \<lparr>l_uid = 1, l_user = ''a'', l_gpu = 7, l_acquired_at = Fin 0, l_expires_at = Fin 1000\<rparr>)]))"
proof -
  have "json_ok round_floats (lease_to_dict
      \<lparr>l_uid = 1, l_user = ''a'', l_gpu = 7, l_acquired_at = Fin 0, l_expires_at = Fin 1000\<rparr>)"
    using round_floats_print by (simp add: lease_to_dict_def)
  from files_read_back [of "[(7, \<lparr>l_uid = 1, l_user = ''a'', l_gpu = 7, l_acquired_at = Fin 0,
      l_expires_at = Fin 1000\<rparr>)]" round_floats "[]"] this show ?thesis
    by simp
qed

end
