(* ===== verification/Storage.thy ===== *)
theory Storage
  imports JsonPrefix Files
begin

text \<open>
  How the daemon's files change, system call by system call (\<open>LeaseStore.persist\<close> of
  \<open>src/src/ocp/lease.py\<close>, \<open>_append_to_disk\<close> and \<open>_compact\<close> of \<open>src/src/ocp/history.py\<close>). A call is
  done, raises OSError, or the process is killed while it runs; a write that does not end well has
  written some of its bytes.

  The lemmas: whatever happens to the calls, saving the leases leaves the old file or the new one, as
  \<open>persist\<close> has it; an event that was cut short is lost, and no earlier one; a line without its end
  swallows the event that follows it.
\<close>

type_synonym files = "string \<Rightarrow> byte list option"

datatype syscall =
    MakeDir string
  | Create string
  | OpenAppend string
  | Write string "byte list"
  | Sync string
  | Chmod string
  | Rename string string

definition contents :: "string \<Rightarrow> files \<Rightarrow> byte list" where
  "contents p fs = (case fs p of None \<Rightarrow> [] | Some bs \<Rightarrow> bs)"

fun effect :: "syscall \<Rightarrow> files \<Rightarrow> files" where
  "effect (Create p) fs = fs(p := Some [])"
| "effect (OpenAppend p) fs = fs(p := Some (contents p fs))"
| "effect (Write p bs) fs = fs(p := Some (contents p fs @ bs))"
| "effect (Rename a b) fs = (fs(b := fs a))(a := None)"
| "effect _ fs = fs"

text \<open>A failed write has written \<open>k\<close> bytes. A killed process may have completed its last call.\<close>

datatype outcome = Done | Fails nat | Killed nat

fun part :: "nat \<Rightarrow> syscall \<Rightarrow> syscall option" where
  "part k (Write p bs) = Some (Write p (take k bs))"
| "part k c = None"

definition failed :: "nat \<Rightarrow> syscall \<Rightarrow> files \<Rightarrow> files" where
  "failed k c fs = (case part k c of None \<Rightarrow> fs | Some c' \<Rightarrow> effect c' fs)"

definition killed :: "nat \<Rightarrow> syscall \<Rightarrow> files \<Rightarrow> files" where
  "killed k c fs =
     (case part k c of None \<Rightarrow> if k = 0 then fs else effect c fs | Some c' \<Rightarrow> effect c' fs)"

datatype run_end = Completed | Raised | Dead

fun run_calls :: "(nat \<Rightarrow> outcome) \<Rightarrow> syscall list \<Rightarrow> files \<Rightarrow> run_end \<times> files" where
  "run_calls out [] fs = (Completed, fs)"
| "run_calls out (c # cs) fs =
     (case out 0 of
        Done \<Rightarrow> run_calls (out \<circ> Suc) cs (effect c fs)
      | Fails k \<Rightarrow> (Raised, failed k c fs)
      | Killed k \<Rightarrow> (Dead, killed k c fs))"

section \<open>What the program does\<close>

definition tmp_of :: "string \<Rightarrow> string" where
  "tmp_of path = path @ ''.tmp''"

definition persist_calls :: "(real \<Rightarrow> string) \<Rightarrow> string \<Rightarrow> string \<Rightarrow> lease_map \<Rightarrow> syscall list" where
  "persist_calls pr dir path m =
     [MakeDir dir, Create (tmp_of path), Write (tmp_of path) (state_bytes pr m), Rename (tmp_of path) path]"

definition append_calls :: "string \<Rightarrow> string \<Rightarrow> syscall list" where
  "append_calls path l = [OpenAppend path, Write path (ascii_bytes l)]"

definition compact_calls :: "string \<Rightarrow> string list \<Rightarrow> syscall list" where
  "compact_calls path ls =
     Create (tmp_of path) # map (\<lambda>l. Write (tmp_of path) (ascii_bytes l)) ls @
     [Sync (tmp_of path), Chmod (tmp_of path), Rename (tmp_of path) path]"

section \<open>Replacing a file\<close>

lemma tmp_other [simp]: "tmp_of path \<noteq> path" "path \<noteq> tmp_of path"
  by (simp_all add: tmp_of_def)

definition only_on :: "string \<Rightarrow> syscall \<Rightarrow> bool" where
  "only_on p c \<longleftrightarrow> (\<forall>fs q. q \<noteq> p \<longrightarrow> effect c fs q = fs q)"

lemma only_on_simps [simp]:
  "only_on p (Create p)" "only_on p (Write p bs)" "only_on p (Sync q)" "only_on p (Chmod q)"
  "only_on p (MakeDir q)" "only_on p (OpenAppend p)"
  by (simp_all add: only_on_def)

lemma only_on_part: "only_on p c \<Longrightarrow> part k c = Some c' \<Longrightarrow> only_on p c'"
proof -
  assume *: "only_on p c" "part k c = Some c'"
  then obtain q bs where c: "c = Write q bs" "c' = Write q (take k bs)" by (cases c) auto
  have "q = p"
    using *(1) unfolding c only_on_def by (auto dest!: spec [of _ "\<lambda>_. None"] spec [of _ q])
  then show ?thesis by (simp add: c)
qed

lemma partial_other:
  assumes "only_on p c" "q \<noteq> p"
  shows "failed k c fs q = fs q" "killed k c fs q = fs q"
  using assms only_on_part [OF assms(1), of k]
  by (auto simp: failed_def killed_def only_on_def split: option.splits)

text \<open>Calls on one file, then its move to another: the other file is the old one or the new one.\<close>

lemma replace_calls:
  assumes "\<forall>c \<in> set cs. only_on tmp c" "tmp \<noteq> path"
    and "run_calls out (cs @ [Rename tmp path]) fs = (e, fs')"
  shows "(\<forall>q. q \<noteq> path \<longrightarrow> q \<noteq> tmp \<longrightarrow> fs' q = fs q) \<and>
    (fs' path = fs path \<and> e \<noteq> Completed \<or> fs' path = fold effect cs fs tmp \<and> e \<noteq> Raised)"
  using assms(1,3)
proof (induction cs arbitrary: out fs)
  case Nil
  then show ?case
    using assms(2) by (auto simp: failed_def killed_def split: outcome.splits if_splits)
next
  case (Cons c cs)
  have c: "effect c fs q = fs q" if "q \<noteq> tmp" for q
    using Cons.prems(1) that by (simp add: only_on_def)
  show ?case
  proof (cases "out 0")
    case Done
    then have "run_calls (out \<circ> Suc) (cs @ [Rename tmp path]) (effect c fs) = (e, fs')"
      using Cons.prems(2) by simp
    from Cons.IH [OF _ this] Cons.prems(1) c assms(2) show ?thesis by simp
  next
    case (Fails k)
    with Cons.prems partial_other [of tmp c _ k fs] assms(2) show ?thesis by auto
  next
    case (Killed k)
    with Cons.prems partial_other [of tmp c _ k fs] assms(2) show ?thesis by auto
  qed
qed

lemma writes_contents:
  "fold effect (map (Write p) bss) fs p = (if bss = [] then fs p else Some (contents p fs @ concat bss))"
  by (induction bss arbitrary: fs) (auto simp: contents_def)

section \<open>Saving the leases\<close>

text \<open>C13. The calls of \<open>persist\<close> do what the model of \<open>persist\<close> says, whether they raise or not, and a
  process that is killed on the way leaves the file it had or the one it was writing: never a part
  of one, and no other file changes but the temporary one.\<close>

theorem persist_atomic:
  assumes "state_of_bytes (fs path) = Some (ls_disk s)" "json_ok pr (state_doc (ls_leases s))"
    and "run_calls out (persist_calls pr dir path (ls_leases s)) fs = (e, fs')"
  shows "(\<forall>q. q \<noteq> path \<longrightarrow> q \<noteq> tmp_of path \<longrightarrow> fs' q = fs q) \<and>
    (case e of
       Dead \<Rightarrow> \<exists>io. state_of_bytes (fs' path) = Some (ls_disk (snd (persist io s)))
     | _ \<Rightarrow> state_of_bytes (fs' path) = Some (ls_disk (snd (persist (e = Completed) s))))"
proof -
  let ?cs = "[MakeDir dir, Create (tmp_of path), Write (tmp_of path) (state_bytes pr (ls_leases s))]"
  have calls: "persist_calls pr dir path (ls_leases s) = ?cs @ [Rename (tmp_of path) path]"
    by (simp add: persist_calls_def)
  have new: "state_of_bytes (fold effect ?cs fs (tmp_of path)) = Some (ls_disk (snd (persist True s)))"
    using state_bytes_read [OF assms(2)] by (simp add: contents_def persist_def)
  have old: "ls_disk (snd (persist False s)) = ls_disk s" by (simp add: persist_def)
  have "\<forall>c \<in> set ?cs. only_on (tmp_of path) c" by simp
  from replace_calls [OF this tmp_other(1) assms(3) [unfolded calls]]
  have others: "\<forall>q. q \<noteq> path \<longrightarrow> q \<noteq> tmp_of path \<longrightarrow> fs' q = fs q"
    and two: "state_of_bytes (fs' path) = Some (ls_disk (snd (persist False s))) \<and> e \<noteq> Completed \<or>
      state_of_bytes (fs' path) = Some (ls_disk (snd (persist True s))) \<and> e \<noteq> Raised"
    unfolding old using assms(1) new by auto
  from two have "case e of
       Dead \<Rightarrow> \<exists>io. state_of_bytes (fs' path) = Some (ls_disk (snd (persist io s)))
     | _ \<Rightarrow> state_of_bytes (fs' path) = Some (ls_disk (snd (persist (e = Completed) s)))"
    by (cases e) auto
  with others show ?thesis by blast
qed

section \<open>A line at the end of a file\<close>

lemma utf8_append: "utf8 xs = Some ps \<Longrightarrow> utf8 (xs @ ys) = map_option ((@) ps) (utf8 ys)"
proof (induction xs arbitrary: ps rule: utf8.induct)
  case (2 a r)
  have cons: "(@) (x # z) = (\<lambda>y. x # z @ y)" for x :: nat and z by (simp add: fun_eq_iff)
  consider "a < 128" | "194 \<le> a" "a \<le> 223" | "224 \<le> a" "a \<le> 239" | "240 \<le> a" "a \<le> 244"
    using 2(5) by (force split: if_splits)
  then show ?case
  proof cases
    case 1
    then show ?thesis using 2(1) 2(5) by (auto simp: option.map_comp comp_def)
  next
    case 2
    then show ?thesis using "2.IH"(2) "2.prems"
      by (auto simp: option.map_comp comp_def cons split: list.splits if_splits)
  next
    case 3
    then show ?thesis using "2.IH"(3) "2.prems"
      by (auto simp: option.map_comp comp_def cons split: list.splits if_splits)
  next
    case 4
    then show ?thesis using "2.IH"(4) "2.prems"
      by (auto simp: option.map_comp comp_def cons split: list.splits if_splits)
  qed
next
  case 1
  then show ?case by (cases "utf8 ys") simp_all
qed

lemma json_text_append:
  assumes "json_text bs = Inr t" "\<forall>c \<in> set u. code c < 128"
  shows "json_text (bs @ ascii_bytes u) = Inr (t @ u)"
proof -
  obtain ps where ps: "utf8 (map unat bs) = Some ps" "\<forall>p \<in> set ps. p < 256" "t = map char_of ps"
    using assms(1) by (auto simp: json_text_def not_le split: option.splits if_splits)
  have "json_text (ascii_bytes u) = Inr u" by (rule json_text_ascii [OF assms(2)])
  then obtain qs where qs: "utf8 (map unat (ascii_bytes u)) = Some qs" "\<forall>p \<in> set qs. p < 256" "u = map char_of qs"
    by (auto simp: json_text_def not_le split: option.splits if_splits)
  have "utf8 (map unat (bs @ ascii_bytes u)) = Some (ps @ qs)"
    using utf8_append [OF ps(1), of "map unat (ascii_bytes u)"] qs(1) by simp
  with ps qs show ?thesis by (fastforce simp: json_text_def not_le)
qed

text \<open>A text of whole lines: the next line starts on its own.\<close>

definition whole :: "string \<Rightarrow> bool" where
  "whole t \<longleftrightarrow> t = [] \<or> last t = newline"

lemma newlines_append: "t = [] \<or> last t \<noteq> return \<Longrightarrow> newlines (t @ u) = newlines t @ newlines u"
proof (induction t rule: newlines.induct)
  case (2 c)
  then show ?case by (cases u) auto
next
  case (3 c d cs)
  then show ?case by (cases "c = return"; cases "d = newline"; cases "cs = []") auto
qed simp

lemma split_on_last: "split_on c (s @ [c]) = split_on c s @ [[]]"
proof (induction s)
  case (Cons d s)
  with split_on_nonempty [of c s] show ?case by (auto split: list.splits)
qed simp

lemma split_on_whole: "whole t \<Longrightarrow> split_on newline (t @ u) = butlast (split_on newline t) @ split_on newline u"
proof (cases "t = []")
  case False
  assume "whole t"
  with False obtain s where s: "t = s @ [newline]"
    unfolding whole_def by (metis append_butlast_last_id)
  have "split_on newline (s @ newline # u) = split_on newline s @ split_on newline u"
  proof (induction s)
    case (Cons d s)
    with split_on_nonempty [of newline s] show ?case by (auto split: list.splits)
  qed simp
  then show ?thesis by (simp add: s split_on_last)
qed simp

lemma newlines_whole: "whole t \<Longrightarrow> whole (newlines t)"
proof (cases "t = []")
  case False
  assume "whole t"
  with False obtain s where s: "t = s @ [newline]"
    unfolding whole_def by (metis append_butlast_last_id)
  have "last (newlines (s @ [newline])) = newline \<and> newlines (s @ [newline]) \<noteq> []"
  proof (induction s rule: newlines.induct)
    case (3 c d cs)
    then show ?case by (cases "c = return"; cases "d = newline"; cases "cs = []") auto
  qed auto
  then show ?thesis by (simp add: s whole_def)
qed (simp add: whole_def)

lemma lines_whole: "whole t \<Longrightarrow> lines_of t = butlast (split_on newline (newlines t))"
proof (cases "t = []")
  case False
  assume w: "whole t"
  with False obtain s where s: "t = s @ [newline]"
    unfolding whole_def by (metis append_butlast_last_id)
  have "newlines t \<noteq> []" using False by (cases t rule: newlines.cases) auto
  then obtain n where "newlines t = n @ [newline]"
    using newlines_whole [OF w] unfolding whole_def by (metis append_butlast_last_id)
  then show ?thesis by (simp add: lines_of_def Let_def split_on_last)
qed (simp add: lines_of_def)

text \<open>One more line, with or without its end.\<close>

lemma lines_of_append:
  assumes "whole t" "newline \<notin> set l" "return \<notin> set l" "l \<noteq> []"
  shows "lines_of (t @ l) = lines_of t @ [l]" "lines_of (t @ l @ [newline]) = lines_of t @ [l]"
proof -
  have code: "newline \<noteq> return" by simp
  have t: "t = [] \<or> last t \<noteq> return" using assms(1) code unfolding whole_def by metis
  have l: "newlines l = l" "newlines (l @ [newline]) = l @ [newline]"
    using assms(3) code by (auto intro!: newlines_plain)
  have split: "split_on newline l = [l]" "split_on newline (l @ [newline]) = [l, []]"
    using assms(2) split_on_no_sep split_on_last by simp_all
  show "lines_of (t @ l) = lines_of t @ [l]" "lines_of (t @ l @ [newline]) = lines_of t @ [l]"
    using split_on_whole [OF newlines_whole [OF assms(1)]] assms(4)
    by (simp_all add: lines_of_def [of "t @ _"] newlines_append [OF t] l split butlast_append Let_def lines_whole [OF assms(1)])
qed

text \<open>The history file of a text.\<close>

lemma history_of_text:
  assumes "json_text bs = Inr t"
  shows "history_of_bytes (Some bs) = map_option HLines (those (map line_of (lines_of t)))"
  by (simp add: history_of_bytes_def assms)

lemma those_append: "those (xs @ [x]) = (case (those xs, x) of (Some ys, Some y) \<Rightarrow> Some (ys @ [y]) | _ \<Rightarrow> None)"
  by (induction xs) (auto split: option.splits)

text \<open>The bytes of a file are the lines \<open>ls\<close>, the last of them complete.\<close>

definition holds_lines :: "byte list \<Rightarrow> hline list \<Rightarrow> bool" where
  "holds_lines bs ls \<longleftrightarrow>
     (\<exists>t. json_text bs = Inr t \<and> whole t) \<and> history_of_bytes (Some bs) = Some (HLines ls)"

lemma holds_append:
  assumes "holds_lines bs ls" "plain_ascii l" "l \<noteq> []" "line_of l = Some h"
  shows "history_of_bytes (Some (bs @ ascii_bytes l)) = Some (HLines (ls @ [h]))"
    "holds_lines (bs @ ascii_bytes (l @ [newline])) (ls @ [h])"
proof -
  obtain t where t: "json_text bs = Inr t" "whole t" using assms(1) by (auto simp: holds_lines_def)
  have ls: "those (map line_of (lines_of t)) = Some ls"
    using assms(1) history_of_text [OF t(1)] by (simp add: holds_lines_def)
  note plain = plain_no_newline [OF assms(2)]
  have low: "\<forall>c \<in> set l. code c < 128" by (rule plain_below [OF assms(2)])
  moreover have "code newline = 10" by (simp add: code_def)
  ultimately have low': "\<forall>c \<in> set (l @ [newline]). code c < 128" by auto
  note bytes = json_text_append [OF t(1) low] json_text_append [OF t(1) low']
  note lines = lines_of_append [OF t(2) plain assms(3)]
  show "history_of_bytes (Some (bs @ ascii_bytes l)) = Some (HLines (ls @ [h]))"
    by (simp add: history_of_text [OF bytes(1)] lines ls assms(4) those_append)
  have "history_of_bytes (Some (bs @ ascii_bytes (l @ [newline]))) = Some (HLines (ls @ [h]))"
    by (simp add: history_of_text [OF bytes(2)] lines ls assms(4) those_append)
  moreover have "whole (t @ l @ [newline])" by (simp add: whole_def)
  ultimately show "holds_lines (bs @ ascii_bytes (l @ [newline])) (ls @ [h])"
    using bytes(2) by (auto simp: holds_lines_def)
qed

section \<open>Recording an event\<close>

definition event_text :: "(real \<Rightarrow> string) \<Rightarrow> entry \<Rightarrow> string" where
  "event_text pr e = (case dumps pr (entry_to_dict e) of Inr s \<Rightarrow> s | Inl x \<Rightarrow> [])"

lemma event_text:
  assumes "json_ok pr (entry_to_dict e)"
  shows "dumps pr (entry_to_dict e) = Inr (event_text pr e)" "plain_ascii (event_text pr e)"
    "line_of (event_text pr e) = Some (JsonLine (entry_to_dict e))" "event_text pr e \<noteq> []"
    "entry_line pr e = Inr (event_text pr e @ [newline])"
proof -
  obtain s where s: "dumps pr (entry_to_dict e) = Inr s" using dumps_ok [OF assms] by blast
  show "dumps pr (entry_to_dict e) = Inr (event_text pr e)" by (simp add: event_text_def s)
  note d = this
  show "plain_ascii (event_text pr e)" by (rule dumps_plain [OF assms d])
  show "line_of (event_text pr e) = Some (JsonLine (entry_to_dict e))"
    using line_of_dumps assms d unfolding entry_to_dict_def by blast
  show "event_text pr e \<noteq> []" by (rule dumps_nonempty [OF assms d])
  show "entry_line pr e = Inr (event_text pr e @ [newline])" by (simp add: entry_line_def d)
qed

lemma strip_front: "\<exists>q. p = strip_by P p @ q" if "p \<noteq> []" "\<not> P (hd p)"
proof -
  have "dropWhile P p = p" using that by (cases p) simp_all
  then have "strip_by P p = rev (dropWhile P (rev p))" by (simp add: strip_by_def)
  moreover have "p = rev (dropWhile P (rev p)) @ rev (takeWhile P (rev p))"
    by (metis rev_append rev_rev_ident takeWhile_dropWhile_id)
  ultimately show ?thesis by auto
qed

text \<open>A line cut short is a malformed line.\<close>

lemma cut_line:
  assumes "json_ok pr (PDict kvs)" "dumps pr (PDict kvs) = Inr (p @ r)" "p \<noteq> []" "r \<noteq> []"
  shows "line_of p = Some BadLine"
proof -
  have "\<exists>b. p @ r = CHR ''{'' # b" by (rule object_text [OF assms(1,2)]) blast
  then have first: "hd p = CHR ''{''" using assms(3) by (cases p) auto
  have space: "\<not> is_space (CHR ''{'')" by code_simp
  then obtain q where q: "p = strip p @ q" using strip_front [OF assms(3)] first by metis
  have ne: "strip p \<noteq> []"
  proof
    assume "strip p = []"
    moreover have "dropWhile is_space p = p" using first space assms(3) by (cases p) simp_all
    ultimately have "\<forall>c \<in> set p. is_space c" by (simp add: strip_by_def dropWhile_eq_Nil_conv)
    with assms(3) first space show False by (metis list.set_sel(1))
  qed
  have "dumps pr (PDict kvs) = Inr (strip p @ (q @ r))" using assms(2) q by (metis append.assoc)
  from cut_object [OF assms(1) this ne] assms(4) show ?thesis
    using ne by (auto simp: line_of_def)
qed

text \<open>A line of which any number of bytes is written.\<close>

lemma cut_append:
  assumes "holds_lines bs ls" "json_ok pr (entry_to_dict x)" "entry_line pr x = Inr l"
  shows "\<exists>h. history_of_bytes (Some (bs @ take k (ascii_bytes l))) = Some (HLines (ls @ h)) \<and>
    (h = [] \<or> h = [BadLine] \<or> h = [JsonLine (entry_to_dict x)])"
proof -
  let ?s = "event_text pr x"
  note s = event_text [OF assms(2)]
  have l: "l = ?s @ [newline]" using s(5) assms(3) by simp
  have bytes: "take k (ascii_bytes l) = ascii_bytes (take k l)" by (simp add: ascii_bytes_def take_map)
  consider "k = 0" | "0 < k" "k < length ?s" | "k = length ?s" | "length ?s < k" by linarith
  then show ?thesis
  proof cases
    case 1
    then show ?thesis using assms(1) by (auto simp: holds_lines_def)
  next
    case 2
    let ?p = "take k ?s"
    have p: "take k l = ?p" "?p \<noteq> []" using 2 s(4) by (simp_all add: l)
    have "dumps pr (entry_to_dict x) = Inr (?p @ drop k ?s)" using s(1) by simp
    moreover obtain kvs where kvs: "entry_to_dict x = PDict kvs" by (simp add: entry_to_dict_def)
    ultimately have "line_of ?p = Some BadLine"
      using cut_line [of pr kvs ?p "drop k ?s"] assms(2) 2 p(2) by simp
    moreover have "plain_ascii ?p" using s(2) by (auto simp: plain_ascii_def dest: in_set_takeD)
    ultimately show ?thesis using holds_append(1) [OF assms(1)] p bytes by auto
  next
    case 3
    then show ?thesis using holds_append(1) [OF assms(1) s(2,4,3)] bytes by (auto simp: l)
  next
    case 4
    then have "take k l = l" by (simp add: l)
    then show ?thesis using holds_append(2) [OF assms(1) s(2,4,3)] bytes by (auto simp: holds_lines_def l)
  qed
qed

lemma those_append2: "those xs = Some as \<Longrightarrow> those (xs @ ys) = map_option ((@) as) (those ys)"
proof (induction xs arbitrary: as)
  case Nil
  then show ?case by (cases "those ys") auto
next
  case (Cons x xs)
  then show ?case by (cases "those ys") (auto split: option.splits)
qed

text \<open>Any number of bytes of a line, at the end of a file that may end in an unfinished line.\<close>

lemma cut_append_lines:
  assumes "json_text bs = Inr (w @ p)" "whole w" "newline \<notin> set p" "return \<notin> set p"
    and "those (map line_of (lines_of w)) = Some ls" "json_ok pr (entry_to_dict x)" "entry_line pr x = Inr l"
  shows "\<exists>rest. json_text (bs @ take k (ascii_bytes l)) = Inr (w @ p @ take k l) \<and>
    lines_of (w @ p @ take k l) = lines_of w @ rest \<and> length rest \<le> 1 \<and>
    history_of_bytes (Some (bs @ take k (ascii_bytes l))) =
      map_option (\<lambda>h. HLines (ls @ h)) (those (map line_of rest))"
proof -
  let ?s = "event_text pr x"
  note s = event_text [OF assms(6)]
  note plain = plain_no_newline [OF s(2)]
  have l: "l = ?s @ [newline]" using s(5) assms(7) by simp
  have "code newline = 10" by (simp add: code_def)
  then have "\<forall>c \<in> set l. code c < 128" using plain_below [OF s(2)] by (auto simp: l)
  then have low: "\<forall>c \<in> set (take k l). code c < 128" by (auto dest: in_set_takeD)
  have "take k (ascii_bytes l) = ascii_bytes (take k l)" by (simp add: ascii_bytes_def take_map)
  with json_text_append [OF assms(1) low] have read: "json_text (bs @ take k (ascii_bytes l)) = Inr (w @ p @ take k l)"
    by simp
  have "\<exists>rest. lines_of (w @ p @ take k l) = lines_of w @ rest \<and> length rest \<le> 1"
  proof (cases "k \<le> length ?s")
    case True
    let ?u = "p @ take k ?s"
    have "newline \<notin> set ?u" "return \<notin> set ?u"
      using assms(3,4) plain by (auto dest: in_set_takeD)
    moreover have "take k l = take k ?s" using True by (simp add: l)
    ultimately show ?thesis
      using lines_of_append(1) [OF assms(2), of ?u] by (cases "?u = []") auto
  next
    case False
    then have "take k l = ?s @ [newline]" by (simp add: l)
    moreover have "newline \<notin> set (p @ ?s)" "return \<notin> set (p @ ?s)" "p @ ?s \<noteq> []"
      using assms(3,4) plain s(4) by auto
    ultimately show ?thesis using lines_of_append(2) [OF assms(2), of "p @ ?s"] by auto
  qed
  then obtain rest where rest: "lines_of (w @ p @ take k l) = lines_of w @ rest" "length rest \<le> 1" by blast
  have "those (map line_of (lines_of w) @ ys) = map_option ((@) ls) (those ys)" for ys
    by (rule those_append2 [OF assms(5)])
  then have "history_of_bytes (Some (bs @ take k (ascii_bytes l))) =
      map_option (\<lambda>h. HLines (ls @ h)) (those (map line_of rest))"
    using history_of_text [OF read] rest(1) by (simp add: option.map_comp comp_def)
  with read rest show ?thesis by blast
qed

text \<open>C27. However the recording of an event ends, with an error or a kill anywhere, the complete lines of
  the history file stay its first lines and are read back as before. The text of the file is the
  complete lines \<open>w\<close> and an unfinished last line \<open>p\<close>, without a line end in it, which is empty unless an
  earlier recording was cut short; the event is a JSON value whose finite floats read back. After the lines of \<open>w\<close> there is then at most one line, which begins with \<open>p\<close>. When \<open>p\<close> is
  empty, that line is the event's own or a malformed one, and a recording that completed has left
  the event's line; when it is not, the event shares the line of \<open>p\<close>. A recording that completed
  leaves no unfinished line.\<close>

theorem append_keeps_history:
  assumes "fs path = Some bs" "json_text bs = Inr (w @ p)" "whole w" "newline \<notin> set p" "return \<notin> set p"
    and "those (map line_of (lines_of w)) = Some ls" "json_ok pr (entry_to_dict x)"
    and "entry_line pr x = Inr l" "run_calls out (append_calls path l) fs = (e, fs')"
  shows "\<exists>bs' q rest. fs' path = Some bs' \<and> json_text bs' = Inr (w @ p @ q) \<and>
    lines_of (w @ p @ q) = lines_of w @ rest \<and> length rest \<le> 1 \<and>
    history_of_bytes (Some bs') = map_option (\<lambda>h. HLines (ls @ h)) (those (map line_of rest)) \<and>
    (p = [] \<longrightarrow> those (map line_of rest) \<in>
       {Some [], Some [BadLine], Some [JsonLine (entry_to_dict x)]}) \<and>
    (e = Completed \<longrightarrow> whole (w @ p @ q) \<and>
       (p = [] \<longrightarrow> those (map line_of rest) = Some [JsonLine (entry_to_dict x)]))"
proof -
  note s = event_text [OF assms(7)] and take = cut_append_lines [OF assms(2-8)]
  have l: "l = event_text pr x @ [newline]" using s(5) assms(8) by simp
  have old: "holds_lines bs ls" if "p = []"
    using that assms(2,3,6) history_of_text [of bs w] by (auto simp: holds_lines_def)
  have inj: "map_option (\<lambda>h. HLines (ls @ h)) o1 = Some (HLines (ls @ h)) \<longleftrightarrow> o1 = Some h" for o1 h
    by (cases o1) auto
  obtain k where k: "fs' path = Some (bs @ take k (ascii_bytes l))" "e = Completed \<longrightarrow> length l \<le> k"
  proof -
    have "\<exists>k. fs' path = Some (bs @ take k (ascii_bytes l)) \<and> (e = Completed \<longrightarrow> length l \<le> k)"
    proof (cases "out 0 = Done \<and> out (Suc 0) = Done")
      case True
      then show ?thesis
        using assms(1,9) by (intro exI [of _ "length l"])
          (auto simp: append_calls_def contents_def ascii_bytes_def)
    next
      case False
      have "take 0 (ascii_bytes l) = []" by simp
      with False assms(1,9) show ?thesis
        by (cases "out 0"; cases "out (Suc 0)")
          (auto simp: append_calls_def failed_def killed_def contents_def intro: exI [of _ 0] split: if_splits)
    qed
    then show ?thesis using that by blast
  qed
  obtain rest where rest: "json_text (bs @ take k (ascii_bytes l)) = Inr (w @ p @ take k l)"
      "lines_of (w @ p @ take k l) = lines_of w @ rest" "length rest \<le> 1"
      "history_of_bytes (Some (bs @ take k (ascii_bytes l))) =
        map_option (\<lambda>h. HLines (ls @ h)) (those (map line_of rest))"
    using take [of k] by blast
  have own: "those (map line_of rest) \<in> {Some [], Some [BadLine], Some [JsonLine (entry_to_dict x)]}"
    if "p = []"
    using cut_append [OF old [OF that] assms(7,8), of k] rest(4) by (auto simp: inj)
  have finished: "whole (w @ p @ take k l) \<and>
      (p = [] \<longrightarrow> those (map line_of rest) = Some [JsonLine (entry_to_dict x)])" if "e = Completed"
  proof -
    have full: "take k l = l" "take k (ascii_bytes l) = ascii_bytes l"
      using k(2) that by (simp_all add: ascii_bytes_def)
    have "those (map line_of rest) = Some [JsonLine (entry_to_dict x)]" if "p = []"
      using holds_append(2) [OF old [OF that] s(2,4,3)] rest(4) [symmetric] unfolding full
      by (simp add: l holds_lines_def inj)
    with full show ?thesis by (simp add: whole_def l)
  qed
  show ?thesis
    using k(1) rest own finished
    by (intro exI [of _ "bs @ take k (ascii_bytes l)"] exI [of _ "take k l"] exI [of _ rest]) blast
qed

text \<open>An event, for examples.\<close>

definition demo_event :: entry where
  "demo_event = \<lparr>e_ts = Fin 0, e_uid = 0, e_user = ''(auto)'', e_cmd = ''daemon_started'', e_args = PDict [],
     e_ok = True, e_error = PNone, e_note = PNone\<rparr>"

lemma demo_event_ok: "json_ok round_floats (entry_to_dict demo_event)"
  using round_floats_print by (simp add: demo_event_def entry_to_dict_def)

lemma empty_lines: "holds_lines [] []"
  by (simp add: holds_lines_def json_text_def whole_def history_of_bytes_def lines_of_def)

theorem append_keeps_history_witness:
  "\<exists>bs q rest. snd (run_calls (\<lambda>i. if i = 0 then Done else Killed 5)
       (append_calls ''h'' (event_text round_floats demo_event @ [newline])) [''h'' \<mapsto> []]) ''h'' = Some bs \<and>
     json_text bs = Inr q \<and> lines_of q = rest \<and> length rest \<le> 1 \<and>
     those (map line_of rest) \<in> {Some [], Some [BadLine], Some [JsonLine (entry_to_dict demo_event)]}"
proof -
  let ?r = "run_calls (\<lambda>i. if i = 0 then Done else Killed 5)
    (append_calls ''h'' (event_text round_floats demo_event @ [newline])) [''h'' \<mapsto> []]"
  have empty: "json_text [] = Inr ([] @ [])" "whole []" "those (map line_of (lines_of [])) = Some []"
    by (simp_all add: json_text_def whole_def lines_of_def)
  have "?r = (fst ?r, snd ?r)" by simp
  from append_keeps_history [OF _ empty(1,2) _ _ empty(3) demo_event_ok event_text(5) [OF demo_event_ok] this]
  show ?thesis by (auto simp: lines_of_def [of "[]"])
qed

section \<open>Compaction\<close>

lemma ascii_concat: "concat (map ascii_bytes ls) = ascii_bytes (concat ls)"
  by (induction ls) (simp_all add: ascii_bytes_def)

text \<open>Compaction leaves the file it had, or one with the entries of the ring.\<close>

theorem compact_atomic:
  assumes "\<forall>x \<in> set es. json_ok pr (entry_to_dict x)" "rmap (entry_line pr) es = Inr ls"
    and "run_calls out (compact_calls path ls) fs = (e, fs')"
  shows "(fs' path = fs path \<and> e \<noteq> Completed \<or> history_of_bytes (fs' path) = Some (file_of es) \<and> e \<noteq> Raised) \<and>
    (\<forall>q. q \<noteq> path \<longrightarrow> q \<noteq> tmp_of path \<longrightarrow> fs' q = fs q)"
proof -
  let ?cs = "Create (tmp_of path) # map (\<lambda>l. Write (tmp_of path) (ascii_bytes l)) ls @
    [Sync (tmp_of path), Chmod (tmp_of path)]"
  have calls: "compact_calls path ls = ?cs @ [Rename (tmp_of path) path]" by (simp add: compact_calls_def)
  have written: "history_text pr es = Inr (concat ls)" by (simp add: history_text_def assms(2))
  have "fold effect ?cs fs (tmp_of path) = Some (ascii_bytes (concat ls))"
    using writes_contents [of "tmp_of path" "map ascii_bytes ls" "fs(tmp_of path \<mapsto> [])"]
    by (simp add: comp_def contents_def ascii_concat)
      (cases ls; simp add: ascii_bytes_def)
  then have "history_of_bytes (fold effect ?cs fs (tmp_of path)) = Some (file_of es)"
    using history_text_read [OF assms(1)] written by auto
  moreover have "\<forall>c \<in> set ?cs. only_on (tmp_of path) c" by auto
  ultimately show ?thesis
    using replace_calls [OF _ tmp_other(1) assms(3) [unfolded calls]] by metis
qed

section \<open>A line without its end\<close>

text \<open>When all of an event is written but the end of its line, a restart reads the event; but the
  next event recorded goes to the same line, and from then on both are lost.\<close>

theorem line_end_lost:
  assumes "fs path = Some bs" "holds_lines bs ls" "json_ok pr (entry_to_dict x)" "json_ok pr (entry_to_dict y)"
    and "out 0 = Done" "out 1 = Killed (length (event_text pr x)) \<or> out 1 = Fails (length (event_text pr x))"
    and "run_calls out (append_calls path (event_text pr x @ [newline])) fs = (e, fs1)"
    and "run_calls out' (append_calls path (event_text pr y @ [newline])) fs1 = (Completed, fs2)"
  shows "history_of_bytes (fs1 path) = Some (HLines (ls @ [JsonLine (entry_to_dict x)])) \<and>
    history_of_bytes (fs2 path) = Some (HLines (ls @ [BadLine]))"
proof -
  note x = event_text [OF assms(3)] and y = event_text [OF assms(4)]
  have fs1: "fs1 path = Some (bs @ ascii_bytes (event_text pr x))"
    using assms(1,5,6,7) by (auto simp: append_calls_def failed_def killed_def contents_def ascii_bytes_def)
  let ?l = "event_text pr x @ event_text pr y"
  have fs2: "fs2 path = Some (bs @ ascii_bytes (?l @ [newline]))"
    using assms(8) fs1
    by (auto simp: append_calls_def failed_def killed_def contents_def ascii_bytes_def split: outcome.splits)
  obtain kvs kvs' where d: "entry_to_dict x = PDict kvs" "entry_to_dict y = PDict kvs'"
    by (simp add: entry_to_dict_def)
  have "loads ?l = Inl JSONDecodeError" using glued_objects x(1) y(1) assms(3,4) d by metis
  moreover have "strip ?l = ?l"
  proof -
    obtain b where s: "event_text pr x = CHR ''{'' # b"
      using object_text [of pr kvs "event_text pr x"] x(1) assms(3) d by metis
    have e: "last (event_text pr y) = CHR ''}''"
      using object_text [of pr kvs' "event_text pr y"] y(1) assms(4) d by metis
    have "\<not> is_space (CHR ''{'')" "\<not> is_space (CHR ''}'')" by code_simp+
    with s e y(4) show ?thesis by (intro strip_ends) simp_all
  qed
  ultimately have "line_of ?l = Some BadLine" using x(4) by (simp add: line_of_def beyond_model_def)
  moreover have "plain_ascii ?l" using x(2) y(2) by (simp add: plain_ascii_def ball_Un)
  ultimately have "holds_lines (bs @ ascii_bytes (?l @ [newline])) (ls @ [BadLine])"
    using holds_append(2) [OF assms(2), of ?l BadLine] x(4) by simp
  then show ?thesis
    using holds_append(1) [OF assms(2) x(2,4,3)] by (simp add: fs1 fs2 holds_lines_def)
qed

theorem line_end_lost_witness:
  "history_of_bytes (snd (run_calls (\<lambda>_. Done) (append_calls ''h'' (event_text round_floats demo_event @ [newline]))
     (snd (run_calls (\<lambda>i. if i = 0 then Done else Killed (length (event_text round_floats demo_event)))
       (append_calls ''h'' (event_text round_floats demo_event @ [newline])) [''h'' \<mapsto> []]))) ''h'') =
   Some (HLines [BadLine])"
proof -
  let ?l = "event_text round_floats demo_event"
  let ?out = "\<lambda>i. if i = 0 then Done else Killed (length ?l)"
  have "run_calls (\<lambda>_. Done) (append_calls ''h'' (?l @ [newline])) fs1 =
      (Completed, snd (run_calls (\<lambda>_. Done) (append_calls ''h'' (?l @ [newline])) fs1))" for fs1
    by (simp add: append_calls_def comp_def)
  from line_end_lost [of "[''h'' \<mapsto> []]" "''h''" "[]" "[]" round_floats demo_event demo_event ?out,
      OF _ empty_lines demo_event_ok demo_event_ok _ _ _ this] show ?thesis
    by (auto simp: prod_eq_iff)
qed

theorem persist_atomic_witness:
  "\<exists>io. state_of_bytes (snd (run_calls (\<lambda>i. if i < 2 then Done else Killed 3)
      (persist_calls round_floats ''/run/ocp'' ''s'' []) (\<lambda>_. None)) ''s'') =
    Some (ls_disk (snd (persist io \<lparr>ls_leases = [], ls_disk = SNoFile\<rparr>)))"
proof -
  let ?out = "\<lambda>i. if i < 2 then Done else Killed 3"
  let ?r = "run_calls ?out (persist_calls round_floats ''/run/ocp'' ''s'' []) (\<lambda>_. None)"
  have "fst ?r = Dead" by (simp add: persist_calls_def comp_def)
  then have r: "run_calls ?out (persist_calls round_floats ''/run/ocp'' ''s''
      (ls_leases \<lparr>ls_leases = [], ls_disk = SNoFile\<rparr>)) (\<lambda>_. None) = (Dead, snd ?r)"
    by (simp add: prod_eq_iff)
  show ?thesis
    by (rule persist_atomic [OF _ _ r, THEN conjunct2, unfolded run_end.case])
      (simp_all add: state_of_bytes_def state_doc_def)
qed

end
