(* ===== verification/WorkerArgs.thy ===== *)
theory WorkerArgs
  imports Workers Argparse
begin

text \<open>
  \<open>_parse_args\<close> of \<open>src/src/ocp/worker/main.py\<close>: the command line of a worker process, and how it
  fits the one \<open>WorkerManager._build_argv\<close> writes.

  The lemmas: a namespace always has a GPU and never two memory sizes; the worker reads back
  exactly the values of the configuration; a configuration whose \<open>util_target\<close> is a float passes
  validation, but every worker started under it exits at once.
\<close>

record worker_ns =
  wa_gpu :: "int option"
  wa_workloads :: string
  wa_mem_frac :: "pyfloat option"
  wa_mem_mb :: "int option"
  wa_util_target :: int
  wa_mem_noise_frac :: pyfloat
  wa_mem_noise_period_s :: pyfloat
  wa_util_noise_frac :: pyfloat
  wa_util_noise_period_s :: pyfloat
  wa_nice :: "int option"

definition worker_defaults :: worker_ns where
  "worker_defaults =
     \<lparr>wa_gpu = None, wa_workloads = ''mem,util'', wa_mem_frac = None, wa_mem_mb = None,
      wa_util_target = 90, wa_mem_noise_frac = Fin (1/20), wa_mem_noise_period_s = Fin 5,
      wa_util_noise_frac = Fin (1/20), wa_util_noise_period_s = Fin 5, wa_nice = None\<rparr>"

definition store_int :: "(int \<Rightarrow> 'n \<Rightarrow> 'n) \<Rightarrow> 'n action" where
  "store_int f = Store (\<lambda>s ns. rbind (py_int_of_str s) (\<lambda>i. Inr (f i ns)))"

definition store_float :: "(pyfloat \<Rightarrow> 'n \<Rightarrow> 'n) \<Rightarrow> 'n action" where
  "store_float f = Store (\<lambda>s ns. rbind (py_float_of_str s) (\<lambda>x. Inr (f x ns)))"

definition worker_parser :: "worker_ns parser" where
  "worker_parser =
     \<lparr>ap_options = help_options @
        [(''--gpu'', store_int (\<lambda>i ns. ns\<lparr>wa_gpu := Some i\<rparr>)),
         (''--workloads'', Store (\<lambda>s ns. Inr (ns\<lparr>wa_workloads := s\<rparr>))),
         (''--mem-frac'', store_float (\<lambda>x ns. ns\<lparr>wa_mem_frac := Some x\<rparr>)),
         (''--mem-mb'', store_int (\<lambda>i ns. ns\<lparr>wa_mem_mb := Some i\<rparr>)),
         (''--util-target'', store_int (\<lambda>i ns. ns\<lparr>wa_util_target := i\<rparr>)),
         (''--mem-noise-frac'', store_float (\<lambda>x ns. ns\<lparr>wa_mem_noise_frac := x\<rparr>)),
         (''--mem-noise-period-s'', store_float (\<lambda>x ns. ns\<lparr>wa_mem_noise_period_s := x\<rparr>)),
         (''--util-noise-frac'', store_float (\<lambda>x ns. ns\<lparr>wa_util_noise_frac := x\<rparr>)),
         (''--util-noise-period-s'', store_float (\<lambda>x ns. ns\<lparr>wa_util_noise_period_s := x\<rparr>)),
         (''--nice'', store_int (\<lambda>i ns. ns\<lparr>wa_nice := Some i\<rparr>))],
      ap_required = [''--gpu''],
      ap_exclusive = [(''--mem-frac'', ''--mem-mb'')]\<rparr>"

definition parse_worker_args :: "string list \<Rightarrow> worker_ns parsed" where
  "parse_worker_args argv = parse_args worker_parser worker_defaults argv"

text \<open>What the interpreter leaves in \<open>sys.argv[1:]\<close> of \<open>python -m module ...\<close>.\<close>

definition worker_sys_argv :: "string list \<Rightarrow> string list" where
  "worker_sys_argv argv = drop 3 argv"

section \<open>What a namespace holds\<close>

definition ns_inv :: "string list \<Rightarrow> worker_ns \<Rightarrow> bool" where
  "ns_inv seen ns \<longleftrightarrow>
     (''--gpu'' \<in> set seen \<longrightarrow> wa_gpu ns \<noteq> None) \<and>
     (wa_mem_frac ns \<noteq> None \<longrightarrow> ''--mem-frac'' \<in> set seen) \<and>
     (wa_mem_mb ns \<noteq> None \<longrightarrow> ''--mem-mb'' \<in> set seen) \<and>
     (wa_mem_frac ns = None \<or> wa_mem_mb ns = None)"

lemma worker_options:
  "map_of (ap_options worker_parser) n = Some (Store f) \<Longrightarrow> f v ns = Inr ns' \<Longrightarrow>
   \<not> clash worker_parser seen n \<Longrightarrow> ns_inv seen ns \<Longrightarrow> ns_inv (n # seen) ns'"
  by (auto simp: worker_parser_def help_options_def store_int_def store_float_def res_simps
      ns_inv_def clash_def split: if_splits)

text \<open>C36. A namespace that \<open>_parse_args\<close> returns has the types the worker relies on: the GPU is there, and
  of the two memory sizes, which \<open>_run\<close> hands on, at most one is.\<close>

theorem worker_args_typed:
  assumes "parse_worker_args argv = Namespace ns"
  shows "wa_gpu ns \<noteq> None \<and> (wa_mem_frac ns = None \<or> wa_mem_mb ns = None)"
proof -
  have "keeps_flags worker_parser ns_inv"
    by (auto simp: keeps_flags_def worker_parser_def help_options_def store_int_def store_float_def
        split: if_splits)
  moreover have "keeps_stores worker_parser ns_inv"
    unfolding keeps_stores_def using worker_options by blast
  moreover have "ns_inv [] worker_defaults"
    by (simp add: ns_inv_def worker_defaults_def)
  ultimately obtain seen where "set (ap_required worker_parser) \<subseteq> set seen" "ns_inv seen ns"
    using assms consume_invariant [of worker_parser _ "[]" False worker_defaults ns ns_inv]
    by (auto simp: parse_worker_args_def parse_args_def Let_def split: if_splits)
  then show ?thesis by (simp add: ns_inv_def worker_parser_def)
qed

theorem worker_args_typed_witness:
  "\<exists>ns. parse_worker_args [''--gpu'', ''7'', ''--mem-mb'', ''512''] = Namespace ns \<and> wa_gpu ns \<noteq> None \<and>
     wa_mem_frac ns = None"
proof -
  have "parse_worker_args [''--gpu'', ''7'', ''--mem-mb'', ''512''] =
      Namespace (worker_defaults\<lparr>wa_gpu := Some 7, wa_mem_mb := Some 512\<rparr>)"
    by code_simp
  from this worker_args_typed [OF this] show ?thesis by (simp add: worker_defaults_def)
qed

section \<open>The round trip from the configuration\<close>

text \<open>
  \<open>v\<close> prints as an integer numeral if it is an integer, and as a text without a leading dash that
  \<open>float\<close> reads back if it is a float. That \<open>float(str(x)) == x\<close> is documented of the standard
  library; which texts those are is the formatter's affair.
\<close>

definition prints :: "formatter \<Rightarrow> pyval \<Rightarrow> pyfloat \<Rightarrow> bool" where
  "prints F v x \<longleftrightarrow>
     argument_like (fmt_str F v) \<and> py_float_of_str (fmt_str F v) = Inr x"

definition prints_int :: "formatter \<Rightarrow> pyval \<Rightarrow> int \<Rightarrow> bool" where
  "prints_int F v i \<longleftrightarrow> fmt_str F v = dec_int i"

lemma worker_names: "long_names (dkeys (ap_options worker_parser))"
  by (simp add: long_names_def worker_parser_def help_options_def)

abbreviation worker_tokens :: "string list \<Rightarrow> token list" where
  "worker_tokens \<equiv> tokens (dkeys (ap_options worker_parser))"

lemma tokens_option:
  "n \<in> set (dkeys (ap_options worker_parser)) \<Longrightarrow> n \<noteq> ''--'' \<Longrightarrow> hd n = CHR ''-'' \<Longrightarrow> n \<noteq> [] \<Longrightarrow>
   worker_tokens (n # ss) = Option n None # worker_tokens ss"
  by (simp add: classify_def)

lemma worker_option:
  "worker_tokens (''--gpu'' # ss) = Option ''--gpu'' None # worker_tokens ss"
  "worker_tokens (''--workloads'' # ss) = Option ''--workloads'' None # worker_tokens ss"
  "worker_tokens (''--mem-frac'' # ss) = Option ''--mem-frac'' None # worker_tokens ss"
  "worker_tokens (''--mem-mb'' # ss) = Option ''--mem-mb'' None # worker_tokens ss"
  "worker_tokens (''--util-target'' # ss) = Option ''--util-target'' None # worker_tokens ss"
  "worker_tokens (''--mem-noise-frac'' # ss) = Option ''--mem-noise-frac'' None # worker_tokens ss"
  "worker_tokens (''--mem-noise-period-s'' # ss) = Option ''--mem-noise-period-s'' None # worker_tokens ss"
  "worker_tokens (''--util-noise-frac'' # ss) = Option ''--util-noise-frac'' None # worker_tokens ss"
  "worker_tokens (''--util-noise-period-s'' # ss) = Option ''--util-noise-period-s'' None # worker_tokens ss"
  "worker_tokens (''--nice'' # ss) = Option ''--nice'' None # worker_tokens ss"
  by (rule tokens_option; simp add: worker_parser_def help_options_def)+

lemma worker_action:
  "py_int_of_str s = Inr i \<Longrightarrow>
   consume worker_parser (Option ''--gpu'' None # Value s # ts) seen extra ns =
     consume worker_parser ts (''--gpu'' # seen) extra (ns\<lparr>wa_gpu := Some i\<rparr>)"
  "consume worker_parser (Option ''--workloads'' None # Value s # ts) seen extra ns =
     consume worker_parser ts (''--workloads'' # seen) extra (ns\<lparr>wa_workloads := s\<rparr>)"
  "''--mem-mb'' \<notin> set seen \<Longrightarrow> py_float_of_str s = Inr x \<Longrightarrow>
   consume worker_parser (Option ''--mem-frac'' None # Value s # ts) seen extra ns =
     consume worker_parser ts (''--mem-frac'' # seen) extra (ns\<lparr>wa_mem_frac := Some x\<rparr>)"
  "''--mem-frac'' \<notin> set seen \<Longrightarrow> py_int_of_str s = Inr i \<Longrightarrow>
   consume worker_parser (Option ''--mem-mb'' None # Value s # ts) seen extra ns =
     consume worker_parser ts (''--mem-mb'' # seen) extra (ns\<lparr>wa_mem_mb := Some i\<rparr>)"
  "py_int_of_str s = Inr i \<Longrightarrow>
   consume worker_parser (Option ''--util-target'' None # Value s # ts) seen extra ns =
     consume worker_parser ts (''--util-target'' # seen) extra (ns\<lparr>wa_util_target := i\<rparr>)"
  "py_float_of_str s = Inr x \<Longrightarrow>
   consume worker_parser (Option ''--mem-noise-frac'' None # Value s # ts) seen extra ns =
     consume worker_parser ts (''--mem-noise-frac'' # seen) extra (ns\<lparr>wa_mem_noise_frac := x\<rparr>)"
  "py_float_of_str s = Inr x \<Longrightarrow>
   consume worker_parser (Option ''--mem-noise-period-s'' None # Value s # ts) seen extra ns =
     consume worker_parser ts (''--mem-noise-period-s'' # seen) extra (ns\<lparr>wa_mem_noise_period_s := x\<rparr>)"
  "py_float_of_str s = Inr x \<Longrightarrow>
   consume worker_parser (Option ''--util-noise-frac'' None # Value s # ts) seen extra ns =
     consume worker_parser ts (''--util-noise-frac'' # seen) extra (ns\<lparr>wa_util_noise_frac := x\<rparr>)"
  "py_float_of_str s = Inr x \<Longrightarrow>
   consume worker_parser (Option ''--util-noise-period-s'' None # Value s # ts) seen extra ns =
     consume worker_parser ts (''--util-noise-period-s'' # seen) extra (ns\<lparr>wa_util_noise_period_s := x\<rparr>)"
  "py_int_of_str s = Inr i \<Longrightarrow>
   consume worker_parser (Option ''--nice'' None # Value s # ts) seen extra ns =
     consume worker_parser ts (''--nice'' # seen) extra (ns\<lparr>wa_nice := Some i\<rparr>)"
  by (simp_all add: worker_parser_def help_options_def store_int_def store_float_def clash_def)

lemma argument_join:
  assumes "\<forall>w \<in> set ws. argument_like w \<and> w \<noteq> []"
  shows "argument_like (join '','' ws)"
proof (cases ws)
  case (Cons w vs)
  with assms obtain c cs where "w = c # cs" "c \<noteq> CHR ''-''" by (cases w) (auto simp: argument_like_def)
  with Cons show ?thesis by (cases vs) (auto simp: argument_like_def)
qed (simp add: argument_like_def)

lemma join_strs_PStr: "join_strs sep (PList (map PStr ws)) = Inr (join sep ws)"
proof -
  have "rmap (\<lambda>x. case x of PStr s \<Rightarrow> Inr s | _ \<Rightarrow> Inl TypeError) (map PStr ws) = Inr ws"
    by (induction ws) auto
  then show ?thesis by (simp add: join_strs_def)
qed

text \<open>
  \<open>seen_by F w g ns\<close>: the namespace \<open>ns\<close> holds what section \<open>w\<close> says, for the worker of GPU \<open>g\<close>.
\<close>

definition seen_by :: "formatter \<Rightarrow> worker_cfg \<Rightarrow> int \<Rightarrow> worker_ns \<Rightarrow> bool" where
  "seen_by F w g ns \<longleftrightarrow>
     wa_gpu ns = Some g \<and>
     (\<exists>ws. workloads w = PList (map PStr ws) \<and> wa_workloads ns = join '','' ws) \<and>
     prints_int F (util_target w) (wa_util_target ns) \<and>
     prints F (mem_noise_frac w) (wa_mem_noise_frac ns) \<and>
     prints F (mem_noise_period_s w) (wa_mem_noise_period_s ns) \<and>
     prints F (util_noise_frac w) (wa_util_noise_frac ns) \<and>
     prints F (util_noise_period_s w) (wa_util_noise_period_s ns) \<and>
     (case wa_mem_mb ns of
        None \<Rightarrow> mem_mb w = PNone \<and> (\<exists>x. wa_mem_frac ns = Some x \<and> prints F (mem_frac w) x)
      | Some m \<Rightarrow> mem_mb w \<noteq> PNone \<and> prints_int F (mem_mb w) m \<and> wa_mem_frac ns = None) \<and>
     (case wa_nice ns of
        None \<Rightarrow> nice w = PNone | Some n \<Rightarrow> nice w \<noteq> PNone \<and> prints_int F (nice w) n)"

lemma worker_args_lemma:
  assumes "seen_by F w g ns" "argument_like (wa_workloads ns)" "build_argv F exe w g = Inr argv"
  shows "parse_worker_args (worker_sys_argv argv) = Namespace ns"
proof -
  have loads: "join_strs '','' (workloads w) = Inr (wa_workloads ns)"
    using assms(1) by (auto simp: seen_by_def join_strs_PStr)
  let ?mem = "if mem_mb w \<noteq> PNone then [''--mem-mb'', fmt_str F (mem_mb w)]
    else [''--mem-frac'', fmt_str F (mem_frac w)]"
  let ?nice = "if nice w \<noteq> PNone then [''--nice'', fmt_str F (nice w)] else []"
  have argv: "worker_sys_argv argv =
      [''--gpu'', dec_int g, ''--workloads'', wa_workloads ns,
       ''--util-target'', fmt_str F (util_target w),
       ''--mem-noise-frac'', fmt_str F (mem_noise_frac w),
       ''--mem-noise-period-s'', fmt_str F (mem_noise_period_s w),
       ''--util-noise-frac'', fmt_str F (util_noise_frac w),
       ''--util-noise-period-s'', fmt_str F (util_noise_period_s w)] @ ?mem @ ?nice"
    using assms(3) loads by (auto simp: build_argv_def Let_def worker_sys_argv_def)
  have required: "set (ap_required worker_parser) = {''--gpu''}"
    by (simp add: worker_parser_def)
  have final: "consume worker_parser [] seen extra r = Namespace r"
    if "\<not> extra" "''--gpu'' \<in> set seen" for seen extra r
    using that by (simp add: required)
  have eq: "ns = r" if "wa_gpu ns = wa_gpu r" "wa_workloads ns = wa_workloads r"
    "wa_mem_frac ns = wa_mem_frac r" "wa_mem_mb ns = wa_mem_mb r"
    "wa_util_target ns = wa_util_target r" "wa_mem_noise_frac ns = wa_mem_noise_frac r"
    "wa_mem_noise_period_s ns = wa_mem_noise_period_s r"
    "wa_util_noise_frac ns = wa_util_noise_frac r"
    "wa_util_noise_period_s ns = wa_util_noise_period_s r" "wa_nice ns = wa_nice r" for r
    using that by simp
  show ?thesis
    unfolding parse_worker_args_def parse_args_def argv Let_def
    using assms(1,2)
    by (cases "wa_mem_mb ns"; cases "wa_nice ns")
      (auto simp: seen_by_def prints_def prints_int_def worker_option tokens_dec_int [OF worker_names]
        worker_action final worker_defaults_def
        simp del: tokens.simps(2) consume.simps intro!: eq [symmetric])
qed

text \<open>
  What the worker makes of a section, whatever its values are: each of the texts on the command line
  is read as the type the parser gives it, or the process ends with the usage error 2.
\<close>

definition worker_section :: "formatter \<Rightarrow> worker_cfg \<Rightarrow> int \<Rightarrow> string \<Rightarrow> worker_ns res" where
  "worker_section F w g loads =
     rbind (py_int_of_str (fmt_str F (util_target w))) (\<lambda>target.
     rbind (py_float_of_str (fmt_str F (mem_noise_frac w))) (\<lambda>mnf.
     rbind (py_float_of_str (fmt_str F (mem_noise_period_s w))) (\<lambda>mnp.
     rbind (py_float_of_str (fmt_str F (util_noise_frac w))) (\<lambda>unf.
     rbind (py_float_of_str (fmt_str F (util_noise_period_s w))) (\<lambda>unp.
     rbind (if mem_mb w = PNone then Inr None
            else rbind (py_int_of_str (fmt_str F (mem_mb w))) (\<lambda>i. Inr (Some i))) (\<lambda>mb.
     rbind (if mem_mb w \<noteq> PNone then Inr None
            else rbind (py_float_of_str (fmt_str F (mem_frac w))) (\<lambda>x. Inr (Some x))) (\<lambda>frac.
     rbind (if nice w = PNone then Inr None
            else rbind (py_int_of_str (fmt_str F (nice w))) (\<lambda>i. Inr (Some i))) (\<lambda>ni.
     Inr \<lparr>wa_gpu = Some g, wa_workloads = loads, wa_mem_frac = frac, wa_mem_mb = mb,
          wa_util_target = target, wa_mem_noise_frac = mnf, wa_mem_noise_period_s = mnp,
          wa_util_noise_frac = unf, wa_util_noise_period_s = unp, wa_nice = ni\<rparr>))))))))"

text \<open>A text that \<open>argparse\<close> takes for a value and not for an option, as it does any number.\<close>

definition value_text :: "string \<Rightarrow> bool" where
  "value_text s \<longleftrightarrow> s \<noteq> ''--'' \<and> classify (dkeys (ap_options worker_parser)) s = Value s"

definition plain_texts :: "formatter \<Rightarrow> worker_cfg \<Rightarrow> bool" where
  "plain_texts F w \<longleftrightarrow>
     (\<forall>v \<in> {util_target w, mem_noise_frac w, mem_noise_period_s w, util_noise_frac w,
       util_noise_period_s w, if mem_mb w = PNone then mem_frac w else mem_mb w}.
       value_text (fmt_str F v)) \<and>
     (nice w \<noteq> PNone \<longrightarrow> value_text (fmt_str F (nice w)))"

lemma value_tokens: "value_text s \<Longrightarrow> worker_tokens (s # ss) = Value s # worker_tokens ss"
  by (simp add: value_text_def)

lemma value_text_plain: "argument_like s \<Longrightarrow> value_text s" "value_text (dec_int i)"
proof -
  show "argument_like s \<Longrightarrow> value_text s"
    by (simp add: value_text_def argument_not_separator)
  have "worker_tokens [dec_int i] = [Value (dec_int i)]"
    using tokens_dec_int [OF worker_names, of i "[]"] by simp
  then show "value_text (dec_int i)" by (auto simp: value_text_def split: if_splits)
qed

lemma worker_store:
  "consume worker_parser (Option ''--gpu'' None # Value s # ts) seen extra ns =
     (case py_int_of_str s of Inl e \<Rightarrow> Exit 2
      | Inr i \<Rightarrow> consume worker_parser ts (''--gpu'' # seen) extra (ns\<lparr>wa_gpu := Some i\<rparr>))"
  "consume worker_parser (Option ''--util-target'' None # Value s # ts) seen extra ns =
     (case py_int_of_str s of Inl e \<Rightarrow> Exit 2
      | Inr i \<Rightarrow> consume worker_parser ts (''--util-target'' # seen) extra (ns\<lparr>wa_util_target := i\<rparr>))"
  "consume worker_parser (Option ''--mem-noise-frac'' None # Value s # ts) seen extra ns =
     (case py_float_of_str s of Inl e \<Rightarrow> Exit 2
      | Inr x \<Rightarrow> consume worker_parser ts (''--mem-noise-frac'' # seen) extra (ns\<lparr>wa_mem_noise_frac := x\<rparr>))"
  "consume worker_parser (Option ''--mem-noise-period-s'' None # Value s # ts) seen extra ns =
     (case py_float_of_str s of Inl e \<Rightarrow> Exit 2
      | Inr x \<Rightarrow> consume worker_parser ts (''--mem-noise-period-s'' # seen) extra
          (ns\<lparr>wa_mem_noise_period_s := x\<rparr>))"
  "consume worker_parser (Option ''--util-noise-frac'' None # Value s # ts) seen extra ns =
     (case py_float_of_str s of Inl e \<Rightarrow> Exit 2
      | Inr x \<Rightarrow> consume worker_parser ts (''--util-noise-frac'' # seen) extra (ns\<lparr>wa_util_noise_frac := x\<rparr>))"
  "consume worker_parser (Option ''--util-noise-period-s'' None # Value s # ts) seen extra ns =
     (case py_float_of_str s of Inl e \<Rightarrow> Exit 2
      | Inr x \<Rightarrow> consume worker_parser ts (''--util-noise-period-s'' # seen) extra
          (ns\<lparr>wa_util_noise_period_s := x\<rparr>))"
  "''--mem-frac'' \<notin> set seen \<Longrightarrow>
   consume worker_parser (Option ''--mem-mb'' None # Value s # ts) seen extra ns =
     (case py_int_of_str s of Inl e \<Rightarrow> Exit 2
      | Inr i \<Rightarrow> consume worker_parser ts (''--mem-mb'' # seen) extra (ns\<lparr>wa_mem_mb := Some i\<rparr>))"
  "''--mem-mb'' \<notin> set seen \<Longrightarrow>
   consume worker_parser (Option ''--mem-frac'' None # Value s # ts) seen extra ns =
     (case py_float_of_str s of Inl e \<Rightarrow> Exit 2
      | Inr x \<Rightarrow> consume worker_parser ts (''--mem-frac'' # seen) extra (ns\<lparr>wa_mem_frac := Some x\<rparr>))"
  "consume worker_parser (Option ''--nice'' None # Value s # ts) seen extra ns =
     (case py_int_of_str s of Inl e \<Rightarrow> Exit 2
      | Inr i \<Rightarrow> consume worker_parser ts (''--nice'' # seen) extra (ns\<lparr>wa_nice := Some i\<rparr>))"
  by (cases "py_int_of_str s"; cases "py_float_of_str s";
      simp add: worker_parser_def help_options_def store_int_def store_float_def clash_def)+

lemma worker_section_read:
  assumes "plain_texts F w" "argument_like loads" "build_argv F exe w g = Inr argv"
    and "join_strs '','' (workloads w) = Inr loads"
  shows "parse_worker_args (worker_sys_argv argv) =
    (case worker_section F w g loads of Inl e \<Rightarrow> Exit 2 | Inr ns \<Rightarrow> Namespace ns)"
proof -
  let ?mem = "if mem_mb w \<noteq> PNone then [''--mem-mb'', fmt_str F (mem_mb w)]
    else [''--mem-frac'', fmt_str F (mem_frac w)]"
  let ?nice = "if nice w \<noteq> PNone then [''--nice'', fmt_str F (nice w)] else []"
  have argv: "worker_sys_argv argv =
      [''--gpu'', dec_int g, ''--workloads'', loads,
       ''--util-target'', fmt_str F (util_target w),
       ''--mem-noise-frac'', fmt_str F (mem_noise_frac w),
       ''--mem-noise-period-s'', fmt_str F (mem_noise_period_s w),
       ''--util-noise-frac'', fmt_str F (util_noise_frac w),
       ''--util-noise-period-s'', fmt_str F (util_noise_period_s w)] @ ?mem @ ?nice"
    using assms(3,4) by (auto simp: build_argv_def Let_def worker_sys_argv_def)
  have required: "set (ap_required worker_parser) = {''--gpu''}"
    by (simp add: worker_parser_def)
  have final: "consume worker_parser [] seen extra r = Namespace r"
    if "\<not> extra" "''--gpu'' \<in> set seen" for seen extra r
    using that by (simp add: required)
  note tok = worker_option value_tokens value_text_plain(2) value_text_plain(1) [OF assms(2)]
  have texts: "value_text (fmt_str F (util_target w))" "value_text (fmt_str F (mem_noise_frac w))"
    "value_text (fmt_str F (mem_noise_period_s w))" "value_text (fmt_str F (util_noise_frac w))"
    "value_text (fmt_str F (util_noise_period_s w))"
    "mem_mb w = PNone \<Longrightarrow> value_text (fmt_str F (mem_frac w))"
    "mem_mb w \<noteq> PNone \<Longrightarrow> value_text (fmt_str F (mem_mb w))"
    "nice w \<noteq> PNone \<Longrightarrow> value_text (fmt_str F (nice w))"
    using assms(1) by (auto simp: plain_texts_def)
  show ?thesis
    unfolding parse_worker_args_def parse_args_def argv Let_def worker_section_def
    using texts
    by (cases "mem_mb w = PNone"; cases "nice w = PNone")
      (simp_all add: tok worker_store worker_action(2) final worker_defaults_def
        del: tokens.simps(2) consume.simps split: sum.split)
qed

text \<open>The numbers of the default configuration, printed as Python prints them, for examples.\<close>

definition demo_fmt :: formatter where
  "demo_fmt = plain_fmt\<lparr>fmt_str := (\<lambda>v.
     case v of
       PInt i \<Rightarrow> dec_int i
     | PFloat x \<Rightarrow> (if x = Fin (1/20) then ''0.05'' else if x = Fin 5 then ''5.0''
                    else if x = Fin (1/2) then ''0.5'' else ''90.5'')
     | _ \<Rightarrow> [])\<rparr>"

lemmas float_text_simps = py_float_of_str_def num_strip_def strip_by_def num_space_def ascii_space_def
  code_def py_unsigned_float_def lower_def lower_char_def py_mantissa_def opt_digits_def
  is_digit_def undec_def scale10_def Let_def

lemma demo_floats:
  "py_float_of_str ''0.05'' = Inr (Fin (1/20))" "py_float_of_str ''5.0'' = Inr (Fin 5)"
  "py_float_of_str ''0.5'' = Inr (Fin (1/2))"
  by (simp_all add: float_text_simps)

definition demo_ns :: worker_ns where
  "demo_ns = worker_defaults\<lparr>wa_gpu := Some 7, wa_mem_frac := Some (Fin (1/2)), wa_nice := Some 19\<rparr>"

lemma demo_seen_by: "seen_by demo_fmt (WorkerCfg []) 7 demo_ns"
  by (auto simp: seen_by_def demo_ns_def worker_defaults_def WorkerCfg_def kwarg_def prints_def
      prints_int_def demo_fmt_def demo_floats argument_like_def
      intro: exI [of _ "[''mem'', ''util'']"])

lemma demo_argv: "\<exists>argv. build_argv demo_fmt ''python'' (worker default_config) 7 = Inr argv"
  by (simp add: build_argv_def join_strs_def default_config_def WorkerCfg_def kwarg_def Let_def)

lemma loads_argument:
  assumes "all_elems (\<lambda>x. x = PStr ''mem'' \<or> x = PStr ''util'') v" "join_strs '','' v = Inr loads"
  shows "argument_like loads"
proof -
  obtain xs ss where xs: "py_iter v = Inr xs" "\<forall>x \<in> set xs. x = PStr ''mem'' \<or> x = PStr ''util''"
      "rmap (\<lambda>x. case x of PStr s \<Rightarrow> Inr s | _ \<Rightarrow> Inl TypeError) xs = Inr ss" "loads = join '','' ss"
    using assms by (auto simp: all_elems_def join_strs_def res_simps split: sum.splits)
  have "set ss \<subseteq> {''mem'', ''util''}"
    using xs(2,3) by (induction xs arbitrary: ss) (auto simp: res_simps)
  then have "\<forall>w \<in> set ss. argument_like w \<and> w \<noteq> []" by (auto simp: argument_like_def)
  with xs(4) show ?thesis by (simp add: argument_join)
qed

lemma config_ok_loads:
  "config_ok cfg \<Longrightarrow> all_elems (\<lambda>x. x = PStr ''mem'' \<or> x = PStr ''util'') (workloads (worker cfg))"
  by (simp add: config_ok_def Let_def)

text \<open>The command line the pool writes for a worker means to the worker what the configuration
  says: under a validated configuration whose numbers print as numerals that read back, the worker
  parses exactly the GPU, workloads, targets, noise, memory size and nice value of its section.\<close>

theorem worker_args_roundtrip:
  assumes "config_ok cfg" "seen_by F (worker cfg) g ns"
    and "build_argv F exe (worker cfg) g = Inr argv"
  shows "parse_worker_args (worker_sys_argv argv) = Namespace ns"
proof -
  have "join_strs '','' (workloads (worker cfg)) = Inr (wa_workloads ns)"
    using assms(2) by (auto simp: seen_by_def join_strs_PStr)
  with loads_argument [OF config_ok_loads [OF assms(1)]] assms(2,3) show ?thesis
    using worker_args_lemma by blast
qed

theorem worker_args_roundtrip_witness:
  "\<exists>argv. build_argv demo_fmt ''python'' (worker default_config) 7 = Inr argv \<and>
     parse_worker_args (worker_sys_argv argv) = Namespace demo_ns"
proof -
  obtain argv where argv: "build_argv demo_fmt ''python'' (worker default_config) 7 = Inr argv"
    using demo_argv by blast
  have "seen_by demo_fmt (worker default_config) 7 demo_ns"
    using demo_seen_by by (simp add: default_config_def)
  from worker_args_roundtrip [OF default_config_ok this argv] argv show ?thesis by blast
qed

section \<open>A float where the worker wants an integer\<close>

lemma tokens_value: "worker_tokens (s # ss) = Value v # ts \<Longrightarrow> v = s"
  by (auto simp: classify_def split: if_splits list.splits)

lemma util_target_action:
  "map_of (ap_options worker_parser) ''--util-target'' = Some (store_int (\<lambda>i ns. ns\<lparr>wa_util_target := i\<rparr>))"
  by (simp add: worker_parser_def help_options_def)

lemma consume_bad_int:
  assumes "\<And>v ts'. ts = Value v # ts' \<Longrightarrow> py_int_of_str v = Inl e"
  shows "consume worker_parser (Option ''--util-target'' None # ts) seen extra ns = Exit 2"
proof (cases ts)
  case (Cons t ts')
  with assms show ?thesis
    by (cases t) (auto simp: util_target_action store_int_def)
qed (simp add: util_target_action store_int_def)

text \<open>A \<open>util_target\<close> that does not print as an integer is accepted by the validation when it is
  a number between 0 and 100, but every worker started under it exits with the usage error 2
  before it does anything.\<close>

theorem float_target_rejected:
  assumes "config_ok cfg" "py_int_of_str (fmt_str F (util_target (worker cfg))) = Inl e"
    and "build_argv F exe (worker cfg) g = Inr argv"
  shows "parse_worker_args (worker_sys_argv argv) = Exit 2"
proof -
  obtain loads where loads: "join_strs '','' (workloads (worker cfg)) = Inr loads"
    using assms(3) by (auto simp: build_argv_def res_simps)
  then have arg: "argument_like loads"
    using loads_argument [OF config_ok_loads [OF assms(1)]] by blast
  from loads assms(3) obtain rest where argv: "worker_sys_argv argv =
      ''--gpu'' # dec_int g # ''--workloads'' # loads # ''--util-target'' #
      fmt_str F (util_target (worker cfg)) # rest"
    by (auto simp: build_argv_def Let_def worker_sys_argv_def)
  let ?ts = "worker_tokens (fmt_str F (util_target (worker cfg)) # rest)"
  have "py_int_of_str v = Inl e" if "?ts = Value v # ts'" for v ts'
    using tokens_value [OF that] assms(2) by simp
  then have bad: "consume worker_parser (Option ''--util-target'' None # ?ts) seen extra ns = Exit 2"
    for seen extra ns
    by (rule consume_bad_int)
  show ?thesis
    unfolding parse_worker_args_def parse_args_def argv Let_def
    using arg
    by (simp add: bad worker_option tokens_dec_int [OF worker_names] worker_action
        del: tokens.simps(2) consume.simps)
qed

definition float_target :: config where
  "float_target = default_config\<lparr>worker := (worker default_config)\<lparr>util_target := PFloat (Fin (181/2))\<rparr>\<rparr>"

lemma float_target_ok: "config_ok float_target"
  by (simp add: float_target_def config_ok_def default_config_def GeneralCfg_def GpuCfg_def
      ThresholdsCfg_def WorkerCfg_def MultiuserCfg_def PauseCfg_def HistoryCfg_def kwarg_def
      num_sat_def all_elems_def Let_def)

theorem float_target_rejected_witness:
  "\<exists>argv. build_argv demo_fmt ''python'' (worker float_target) 7 = Inr argv \<and>
     parse_worker_args (worker_sys_argv argv) = Exit 2"
proof -
  obtain argv where argv: "build_argv demo_fmt ''python'' (worker float_target) 7 = Inr argv"
    by (simp add: build_argv_def join_strs_def float_target_def default_config_def WorkerCfg_def
        kwarg_def Let_def)
  have "fmt_str demo_fmt (util_target (worker float_target)) = ''90.5''"
    by (simp add: demo_fmt_def float_target_def)
  moreover have "py_int_of_str ''90.5'' = Inl ValueError" by code_simp
  ultimately have "py_int_of_str (fmt_str demo_fmt (util_target (worker float_target))) = Inl ValueError"
    by simp
  from float_target_rejected [OF float_target_ok this argv] argv show ?thesis by blast
qed

end
