(* ===== verification/UtilLoad.thy ===== *)
theory UtilLoad
  imports MemLoad
begin

text \<open>
  \<open>src/src/ocp/worker/compute.py\<close>: the duty cycle of the matrix multiplications. The matrices and
  the device are outside: a cycle is told the clock, a number to draw from, whether allocating the
  first and the second matrix of a given size succeeds, and what multiplying them raises. What
  matters for the rest of the process is whether a cycle awaits, since only then does the event loop
  run anything else, and whether an exception ends the coroutine.
\<close>

record util_ctl =
  uc_gpu :: int
  uc_target :: int
  uc_noise :: pyfloat
  uc_period :: pyfloat

definition util_controller :: "int \<Rightarrow> int \<Rightarrow> pyfloat \<Rightarrow> pyfloat \<Rightarrow> util_ctl" where
  "util_controller g target noise period =
     \<lparr>uc_gpu = g, uc_target = max 0 (min 100 target), uc_noise = fmax (Fin 0) noise,
      uc_period = fmax (Fin (1/2)) period\<rparr>"

definition base_size :: int where
  "base_size = 4096"

definition cycle_s :: real where
  "cycle_s = 1/10"

definition util_size :: "util_ctl \<Rightarrow> int \<Rightarrow> int \<Rightarrow> int res" where
  "util_size u base r =
     (if uc_noise u = Fin 0 then Inr base
      else rbind (int_of_float (fscale base (spread (uc_noise u)))) (\<lambda>upper.
        Inr (randint base (max base upper) r)))"

definition duty :: "util_ctl \<Rightarrow> real" where
  "duty u = max (1/20) (min 1 (real_of_int (uc_target u) / 100 * (21/20)))"

definition sleep_for :: "util_ctl \<Rightarrow> real" where
  "sleep_for u = max 0 (cycle_s * (1 - duty u))"

text \<open>The loop's variables: \<open>us_a\<close> and \<open>us_b\<close> are the sides of the matrices \<open>a\<close> and \<open>b\<close>.\<close>

record util_state =
  us_a :: int
  us_b :: int
  us_size :: int
  us_reshaped :: real
  us_step :: nat

text \<open>What one cycle of the loop meets: the clock, a number to draw with, the allocator when it is asked
  for \<open>a\<close> and for \<open>b\<close>, and what the first multiplication of the cycle that fails raises, if any, for
  matrices of given sides.\<close>

record util_env =
  ue_now :: real
  ue_draw :: int
  ue_alloc_a :: "int \<Rightarrow> bool"
  ue_alloc_b :: "int \<Rightarrow> bool"
  ue_matmul :: "int \<Rightarrow> int \<Rightarrow> exn option"

text \<open>New matrices of side \<open>n\<close>: \<open>a\<close> is rebound before \<open>b\<close> is allocated.\<close>

definition realloc :: "util_env \<Rightarrow> int \<Rightarrow> util_state \<Rightarrow> util_state" where
  "realloc env n s =
     (if \<not> ue_alloc_a env n then s
      else if \<not> ue_alloc_b env n then s\<lparr>us_a := n\<rparr>
      else s\<lparr>us_a := n, us_b := n, us_size := n\<rparr>)"

definition reshape :: "util_ctl \<Rightarrow> util_env \<Rightarrow> util_state \<Rightarrow> exn option \<times> util_state" where
  "reshape u env s =
     (if uc_period u \<le> Fin (ue_now env - us_reshaped s)
      then (case util_size u base_size (ue_draw env) of
              Inl e \<Rightarrow> (Some e, s)
            | Inr n \<Rightarrow>
                (None, (realloc env n s)\<lparr>us_reshaped := ue_now env\<rparr>))
      else (None, s))"

text \<open>One cycle, and whether it awaits.\<close>

definition util_cycle :: "util_ctl \<Rightarrow> util_env \<Rightarrow> util_state \<Rightarrow> exn option \<times> util_state \<times> bool" where
  "util_cycle u env s =
     (case reshape u env s of
        (Some e, s') \<Rightarrow> (Some e, s', False)
      | (None, s') \<Rightarrow>
          (case ue_matmul env (us_a s') (us_b s') of
             Some e \<Rightarrow> (Some e, s', False)
           | None \<Rightarrow> (None, s'\<lparr>us_step := Suc (us_step s')\<rparr>, 0 < sleep_for u)))"

text \<open>
  \<open>run\<close> before its loop: without CUDA, or when the first allocation fails, the coroutine returns;
  with a target of 0 it only waits for the stop.
\<close>

datatype util_start = Returns | Waits | Loops util_state

definition util_begin :: "util_ctl \<Rightarrow> cuda \<Rightarrow> util_env \<Rightarrow> util_start" where
  "util_begin u c env =
     (case c of
        Cuda tot \<Rightarrow>
          if uc_target u \<le> 0 then Waits
          else if ue_alloc_a env base_size \<and> ue_alloc_b env base_size
          then Loops \<lparr>us_a = base_size, us_b = base_size, us_size = base_size,
                  us_reshaped = ue_now env, us_step = 0\<rparr>
          else Returns
      | _ \<Rightarrow> Returns)"

section \<open>The duty cycle\<close>

lemma target_range: "0 \<le> uc_target (util_controller g t noise p) \<and> uc_target (util_controller g t noise p) \<le> 100"
  by (simp add: util_controller_def)

lemma duty_range: "1/20 \<le> duty u \<and> duty u \<le> 1"
  by (simp add: duty_def)

text \<open>The duty cycle is strictly above the target for every target from 1 to 99, as the mean
  utilization is meant to be, and the cycle sleeps exactly when the target is at most 95.\<close>

theorem duty_above_target:
  assumes "u = util_controller g t noise p" "1 \<le> t" "t \<le> 100"
  shows "(t < 100 \<longrightarrow> real_of_int t / 100 < duty u) \<and> (t = 100 \<longrightarrow> duty u = real_of_int t / 100) \<and>
    (0 < sleep_for u \<longleftrightarrow> t \<le> 95)"
proof -
  have target: "uc_target u = t" using assms by (simp add: util_controller_def)
  have "real_of_int t * 21 < 2000 \<longleftrightarrow> t * 21 < 2000"
    by linarith
  also have "\<dots> \<longleftrightarrow> t \<le> 95" by presburger
  finally have "real_of_int t * 21 < 2000 \<longleftrightarrow> t \<le> 95" .
  then show ?thesis
    using assms(2,3) by (auto simp: duty_def sleep_for_def cycle_s_def target max_def min_def)
qed

theorem duty_above_target_witness:
  "(90::real) / 100 < duty (util_controller 7 90 (Fin (1/20)) (Fin 5)) \<and>
   0 < sleep_for (util_controller 7 90 (Fin (1/20)) (Fin 5))"
  using duty_above_target [OF refl, of 90 7 "Fin (1/20)" "Fin 5"] by simp

section \<open>Sizes\<close>

lemma util_size_bounds:
  assumes "uc_noise u = Fin n" "0 \<le> n" "0 \<le> base"
  shows "\<exists>sz. util_size u base r = Inr sz \<and> base \<le> sz \<and> sz \<le> upper_bound base n"
proof -
  have "base \<le> upper_bound base n"
    using trunc_mono [of "real_of_int base" "real_of_int base * (1 + 2 * n)"] assms(2,3)
    by (simp add: upper_bound_def mult_left_mono algebra_simps)
  with assms randint_range [of base "upper_bound base n" r] show ?thesis
    by (auto simp: util_size_def upper_bound_def)
qed

text \<open>A cycle whose multiplications do not fail goes on, with matrices between the base size and the
  upper bound.\<close>

definition sides_ok :: "real \<Rightarrow> util_state \<Rightarrow> bool" where
  "sides_ok n s \<longleftrightarrow> (\<forall>x \<in> {us_a s, us_b s, us_size s}. base_size \<le> x \<and> x \<le> upper_bound base_size n)"

lemma realloc_ok: "sides_ok n (realloc env k s)"
  if "sides_ok n s" "base_size \<le> k" "k \<le> upper_bound base_size n"
  using that by (auto simp: sides_ok_def realloc_def)

lemma reshape_ok:
  assumes "uc_noise u = Fin n" "0 \<le> n" "sides_ok n s"
  shows "\<exists>s'. reshape u env s = (None, s') \<and> sides_ok n s'"
proof -
  obtain k where "util_size u base_size (ue_draw env) = Inr k" "base_size \<le> k" "k \<le> upper_bound base_size n"
    using util_size_bounds [OF assms(1,2), of base_size "ue_draw env"] by (auto simp: base_size_def)
  with realloc_ok [OF assms(3), of k env] assms(3) show ?thesis
    by (auto simp: reshape_def) (auto simp: sides_ok_def)
qed

lemma util_cycle_ok:
  assumes "uc_noise u = Fin n" "0 \<le> n" "sides_ok n s" "\<forall>x y. ue_matmul env x y = None"
  shows "\<exists>s'. util_cycle u env s = (None, s', 0 < sleep_for u) \<and> sides_ok n s'"
  using reshape_ok [OF assms(1-3), of env] assms(4)
  by (auto simp: util_cycle_def sides_ok_def)

section \<open>A reshape that fails half way\<close>

text \<open>When a reshape gets its first matrix but not the second, the RuntimeError of the allocator is
  caught and logged, but \<open>a\<close> and \<open>b\<close> then have different sides; the multiplication that follows
  raises, as torch documents for shapes that do not match, and nothing catches that.\<close>

theorem half_reshape_fatal:
  assumes "uc_period u \<le> Fin (ue_now env - us_reshaped s)"
    and "util_size u base_size (ue_draw env) = Inr n" "us_b s \<noteq> n"
    and "ue_alloc_a env n" "\<not> ue_alloc_b env n"
    and "\<And>x y. x \<noteq> y \<Longrightarrow> \<exists>t. ue_matmul env x y = Some (RuntimeError t)"
  shows "\<exists>t s'. util_cycle u env s = (Some (RuntimeError t), s', False)"
proof -
  have "reshape u env s = (None, s\<lparr>us_a := n, us_reshaped := ue_now env\<rparr>)"
    using assms(1,2,4,5) by (simp add: reshape_def realloc_def)
  with assms(6) [of n "us_b s"] assms(3) show ?thesis by (auto simp: util_cycle_def)
qed

theorem half_reshape_fatal_witness:
  "\<exists>t s'. util_cycle (util_controller 7 90 (Fin (1/20)) (Fin 5))
     \<lparr>ue_now = 5, ue_draw = 7, ue_alloc_a = (\<lambda>_. True), ue_alloc_b = (\<lambda>_. False),
      ue_matmul = (\<lambda>x y. if x = y then None else Some (RuntimeError ''shapes''))\<rparr>
     \<lparr>us_a = 4096, us_b = 4096, us_size = 4096, us_reshaped = 0, us_step = 0\<rparr> =
     (Some (RuntimeError t), s', False)"
  by (rule half_reshape_fatal [where n = 4103])
    (simp_all add: util_controller_def fmax_def util_size_def base_size_def randint_def trunc_def)

end
