(* ===== verification/WorkerRun.thy ===== *)
theory WorkerRun
  imports WorkerArgs UtilLoad
begin

text \<open>
  \<open>_run\<close> and \<open>main\<close> of \<open>src/src/ocp/worker/main.py\<close>: one worker process. Its event loop is
  cooperative: the two controllers and the handler of SIGTERM run one at a time, and a coroutine
  that does not await keeps the processor (\<open>wr_busy\<close>). \<open>worker_act\<close> is one thing that happens, if it
  can happen; the loop may choose any order.

  The lemmas: the process ends after SIGTERM when its utilization target is at most 95 (or 0); with
  a higher target the compute coroutine never awaits, so the process cannot be stopped by SIGTERM
  and its memory controller stands still; without CUDA the process stays alive and holds nothing.
\<close>

datatype 's wtask = Absent | Created | Live 's | Parked | Over "exn option"

record worker_conf =
  wc_mem :: mem_ctl
  wc_util :: util_ctl
  wc_cuda :: cuda

record worker_run =
  wr_mem :: "(int \<times> mem_state) wtask"
  wr_util :: "util_state wtask"
  wr_stop :: bool
  wr_signal :: bool
  wr_busy :: bool
  wr_exit :: "int option"

section \<open>Starting\<close>

definition requested_loads :: "worker_ns \<Rightarrow> string list" where
  "requested_loads ns =
     filter (\<lambda>w. w \<noteq> []) (map strip (split_on (CHR '','') (wa_workloads ns)))"

text \<open>The device the process is bound to: a value inherited from the environment wins.\<close>

definition visible_devices :: "(string \<times> string) list \<Rightarrow> int \<Rightarrow> string" where
  "visible_devices environ g =
     (case map_of environ ''CUDA_VISIBLE_DEVICES'' of None \<Rightarrow> dec_int g | Some v \<Rightarrow> v)"

definition worker_conf_of :: "worker_ns \<Rightarrow> int \<Rightarrow> cuda \<Rightarrow> worker_conf" where
  "worker_conf_of ns g c =
     \<lparr>wc_mem = mem_controller g (wa_mem_frac ns) (wa_mem_mb ns) (wa_mem_noise_frac ns)
        (wa_mem_noise_period_s ns),
      wc_util = util_controller g (wa_util_target ns) (wa_util_noise_frac ns)
        (wa_util_noise_period_s ns),
      wc_cuda = c\<rparr>"

definition worker_begin :: "worker_ns \<Rightarrow> int + worker_run" where
  "worker_begin ns =
     (let loads = requested_loads ns in
      if \<exists>w \<in> set loads. w \<noteq> ''mem'' \<and> w \<noteq> ''util'' then Inl 2
      else if loads = [] then Inl 0
      else Inr
        \<lparr>wr_mem = (if ''mem'' \<in> set loads then Created else Absent),
         wr_util = (if ''util'' \<in> set loads then Created else Absent),
         wr_stop = False, wr_signal = False, wr_busy = False, wr_exit = None\<rparr>)"

text \<open>Lowering the priority: what \<open>os.nice\<close> raises is swallowed when it is an OSError or a
  ValueError.\<close>

definition set_nice :: "(int \<Rightarrow> exn option) \<Rightarrow> int option \<Rightarrow> exn option" where
  "set_nice os_nice n =
     (case n of
        None \<Rightarrow> None
      | Some k \<Rightarrow>
          (case os_nice k of
             None \<Rightarrow> None
           | Some e \<Rightarrow> if e = OSError \<or> e = ValueError then None else Some e))"

text \<open>From the arguments to the start of the controllers, or to the exit code of a process that
  ends before.\<close>

definition worker_boot :: "(int \<Rightarrow> exn option) \<Rightarrow> string list \<Rightarrow> int + worker_ns \<times> worker_run" where
  "worker_boot os_nice argv =
     (case parse_worker_args argv of
        Exit k \<Rightarrow> Inl k
      | Namespace ns \<Rightarrow>
          (case set_nice os_nice (wa_nice ns) of
             Some e \<Rightarrow> Inl 1
           | None \<Rightarrow> (case worker_begin ns of Inl k \<Rightarrow> Inl k | Inr w \<Rightarrow> Inr (ns, w))))"

section \<open>Running\<close>

datatype worker_action =
    Sigterm
  | RunHandler
  | MemStep mem_env
  | UtilStep util_env
  | Finish

definition mem_step ::
    "worker_conf \<Rightarrow> bool \<Rightarrow> mem_env \<Rightarrow> int \<times> mem_state \<Rightarrow> (int \<times> mem_state) wtask" where
  "mem_step cf stop env x =
     (if stop then Over None
      else (case mem_round (wc_mem cf) (fst x) env (snd x) of
              (Some e, s) \<Rightarrow> Over (Some e) | (None, s) \<Rightarrow> Live (fst x, s)))"

definition mem_first ::
    "worker_conf \<Rightarrow> bool \<Rightarrow> mem_env \<Rightarrow> (int \<times> mem_state) wtask" where
  "mem_first cf stop env =
     (case wc_cuda cf of
        Cuda tot \<Rightarrow>
          (case mem_target (wc_mem cf) tot of
             Inl e \<Rightarrow> Over (Some e)
           | Inr target \<Rightarrow>
               mem_step cf stop env (target, \<lparr>ms_cap = vram_cap tot, ms_held = None\<rparr>))
      | _ \<Rightarrow> Over None)"

definition util_step :: "worker_conf \<Rightarrow> util_env \<Rightarrow> util_state \<Rightarrow> worker_run \<Rightarrow> worker_run" where
  "util_step cf env s w =
     (if wr_stop w then w\<lparr>wr_util := Over None, wr_busy := False\<rparr>
      else (case util_cycle (wc_util cf) env s of
              (Some e, _) \<Rightarrow> w\<lparr>wr_util := Over (Some e), wr_busy := False\<rparr>
            | (None, s', awaits) \<Rightarrow> w\<lparr>wr_util := Live s', wr_busy := \<not> awaits\<rparr>))"

definition util_first :: "worker_conf \<Rightarrow> util_env \<Rightarrow> worker_run \<Rightarrow> worker_run" where
  "util_first cf env w =
     (case util_begin (wc_util cf) (wc_cuda cf) env of
        Returns \<Rightarrow> w\<lparr>wr_util := Over None\<rparr>
      | Waits \<Rightarrow> w\<lparr>wr_util := Parked\<rparr>
      | Loops s \<Rightarrow> w\<lparr>wr_util := Live s, wr_busy := True\<rparr>)"

text \<open>The exception of a task that failed leaves \<open>_run\<close> when the task is awaited at the end.\<close>

definition failed_task :: "'s wtask \<Rightarrow> bool" where
  "failed_task t \<longleftrightarrow> (case t of Over (Some e) \<Rightarrow> True | _ \<Rightarrow> False)"

definition exit_code :: "worker_run \<Rightarrow> int" where
  "exit_code w = (if failed_task (wr_mem w) \<or> failed_task (wr_util w) then 1 else 0)"

definition worker_act :: "worker_conf \<Rightarrow> worker_action \<Rightarrow> worker_run \<Rightarrow> worker_run option" where
  "worker_act cf a w =
     (if wr_exit w \<noteq> None then None
      else case a of
        Sigterm \<Rightarrow> Some (w\<lparr>wr_signal := True\<rparr>)
      | RunHandler \<Rightarrow>
          if wr_busy w \<or> \<not> wr_signal w then None
          else Some (w\<lparr>wr_signal := False, wr_stop := True\<rparr>)
      | MemStep env \<Rightarrow>
          if wr_busy w then None
          else (case wr_mem w of
                  Created \<Rightarrow> Some (w\<lparr>wr_mem := mem_first cf (wr_stop w) env\<rparr>)
                | Live x \<Rightarrow> Some (w\<lparr>wr_mem := mem_step cf (wr_stop w) env x\<rparr>)
                | _ \<Rightarrow> None)
      | UtilStep env \<Rightarrow>
          (case wr_util w of
             Created \<Rightarrow> if wr_busy w then None else Some (util_first cf env w)
           | Live s \<Rightarrow> Some (util_step cf env s w)
           | Parked \<Rightarrow>
               if wr_busy w \<or> \<not> wr_stop w then None else Some (w\<lparr>wr_util := Over None\<rparr>)
           | _ \<Rightarrow> None)
      | Finish \<Rightarrow>
          if wr_busy w \<or> \<not> wr_stop w then None else Some (w\<lparr>wr_exit := Some (exit_code w)\<rparr>))"

fun worker_acts :: "worker_conf \<Rightarrow> worker_action list \<Rightarrow> worker_run \<Rightarrow> worker_run option" where
  "worker_acts cf [] w = Some w"
| "worker_acts cf (a # as) w =
     (case worker_act cf a w of None \<Rightarrow> None | Some w' \<Rightarrow> worker_acts cf as w')"

definition reaches :: "worker_conf \<Rightarrow> worker_ns \<Rightarrow> worker_run \<Rightarrow> bool" where
  "reaches cf ns w \<longleftrightarrow> (\<exists>w0 as. worker_begin ns = Inr w0 \<and> worker_acts cf as w0 = Some w)"

lemma worker_acts_append:
  "worker_acts cf (as @ bs) w =
   (case worker_acts cf as w of None \<Rightarrow> None | Some w' \<Rightarrow> worker_acts cf bs w')"
  by (induction as arbitrary: w) (auto split: option.splits)

lemma worker_acts_invariant:
  assumes "worker_acts cf as w = Some w'" "I w"
    and "\<And>a u u'. a \<in> set as \<Longrightarrow> worker_act cf a u = Some u' \<Longrightarrow> I u \<Longrightarrow> I u'"
  shows "I w'"
  using assms by (induction as arbitrary: w) (fastforce split: option.splits)+

text \<open>While the coroutine of the compute controller runs, nothing else does.\<close>

definition control_ok :: "worker_run \<Rightarrow> bool" where
  "control_ok w \<longleftrightarrow> wr_busy w \<longrightarrow> wr_exit w = None \<and> (\<exists>s. wr_util w = Live s)"

lemma control_ok_util:
  "control_ok (util_step cf env s w)" if "wr_exit w = None"
  using that by (auto simp: control_ok_def util_step_def split: prod.splits option.splits)

lemma control_ok_first: "wr_exit w = None \<Longrightarrow> \<not> wr_busy w \<Longrightarrow> control_ok (util_first cf env w)"
  by (auto simp: control_ok_def util_first_def split: util_start.splits)

text \<open>What each action does when it can happen.\<close>

lemma worker_act_cases:
  assumes "worker_act cf a w = Some w'"
  shows "wr_exit w = None \<and>
    (case a of
       Sigterm \<Rightarrow> w' = w\<lparr>wr_signal := True\<rparr>
     | RunHandler \<Rightarrow> \<not> wr_busy w \<and> wr_signal w \<and> w' = w\<lparr>wr_signal := False, wr_stop := True\<rparr>
     | MemStep env \<Rightarrow> \<not> wr_busy w \<and>
         (wr_mem w = Created \<and> w' = w\<lparr>wr_mem := mem_first cf (wr_stop w) env\<rparr> \<or>
          (\<exists>x. wr_mem w = Live x \<and> w' = w\<lparr>wr_mem := mem_step cf (wr_stop w) env x\<rparr>))
     | UtilStep env \<Rightarrow>
         wr_util w = Created \<and> \<not> wr_busy w \<and> w' = util_first cf env w \<or>
         (\<exists>s. wr_util w = Live s \<and> w' = util_step cf env s w) \<or>
         wr_util w = Parked \<and> \<not> wr_busy w \<and> wr_stop w \<and> w' = w\<lparr>wr_util := Over None\<rparr>
     | Finish \<Rightarrow> \<not> wr_busy w \<and> wr_stop w \<and> w' = w\<lparr>wr_exit := Some (exit_code w)\<rparr>)"
  using assms
  by (cases a; cases "wr_mem w"; cases "wr_util w") (simp_all add: worker_act_def split: if_splits)

lemma control_ok_free: "\<not> wr_busy w \<Longrightarrow> control_ok w"
  by (simp add: control_ok_def)

lemma control_ok_act:
  assumes "worker_act cf a w = Some w'" "control_ok w"
  shows "control_ok w'"
proof (cases a)
  case Sigterm
  have "w' = w\<lparr>wr_signal := True\<rparr>"
    using worker_act_cases [OF assms(1)] Sigterm by simp
  with assms(2) show ?thesis by (simp add: control_ok_def)
next
  case RunHandler
  have "\<not> wr_busy w'"
    using worker_act_cases [OF assms(1)] RunHandler by auto
  then show ?thesis by (rule control_ok_free)
next
  case (MemStep env)
  have "\<not> wr_busy w'"
    using worker_act_cases [OF assms(1)] MemStep by auto
  then show ?thesis by (rule control_ok_free)
next
  case (UtilStep env)
  with worker_act_cases [OF assms(1)] show ?thesis
    by (elim conjE disjE exE) (auto simp: control_ok_util control_ok_first control_ok_free)
next
  case Finish
  have "\<not> wr_busy w'"
    using worker_act_cases [OF assms(1)] Finish by auto
  then show ?thesis by (rule control_ok_free)
qed

lemma worker_begin_Inr:
  assumes "worker_begin ns = Inr w"
  shows "w = \<lparr>wr_mem = (if ''mem'' \<in> set (requested_loads ns) then Created else Absent),
    wr_util = (if ''util'' \<in> set (requested_loads ns) then Created else Absent),
    wr_stop = False, wr_signal = False, wr_busy = False, wr_exit = None\<rparr>"
  using assms unfolding worker_begin_def Let_def
  by (simp only: sum.inject sum.distinct split: if_split_asm)

lemma control_ok_begin: "worker_begin ns = Inr w \<Longrightarrow> control_ok w"
  by (drule worker_begin_Inr) (simp add: control_ok_def)

lemma reaches_control: "reaches cf ns w \<Longrightarrow> control_ok w"
  using worker_acts_invariant [of cf _ _ w control_ok] control_ok_begin control_ok_act
  unfolding reaches_def by blast

section \<open>A process that can be stopped\<close>

lemma sleeps_iff: "0 < sleep_for (util_controller g t noise p) \<longleftrightarrow> t \<le> 95"
proof (cases "1 \<le> t \<and> t \<le> 100")
  case True
  have "real_of_int t * 21 < 2000 \<longleftrightarrow> t \<le> 95" by linarith
  with True show ?thesis
    by (auto simp: duty_def sleep_for_def cycle_s_def util_controller_def max_def min_def)
next
  case False
  then show ?thesis
    by (auto simp: duty_def sleep_for_def cycle_s_def util_controller_def max_def min_def)
qed

lemma yielding_cycle:
  assumes "0 < sleep_for (wc_util cf)"
  shows "\<not> wr_busy (util_step cf env s w)"
  using assms by (auto simp: util_step_def util_cycle_def split: prod.splits option.splits)

text \<open>C22. A worker whose utilization target is at most 95 can always be stopped: the compute
  coroutine gives the processor back after one cycle, and once SIGTERM has arrived, wherever the
  process is, at most three things have to happen until it has exited.\<close>

theorem worker_stops:
  assumes "reaches cf ns w" "cf = worker_conf_of ns g c" "wa_util_target ns \<le> 95"
    and "wr_exit w = None" "wr_signal w"
  shows "(\<forall>a w'. wr_busy w \<longrightarrow> a \<noteq> Sigterm \<longrightarrow> worker_act cf a w = Some w' \<longrightarrow> \<not> wr_busy w') \<and>
    (\<exists>as w' k. length as \<le> 3 \<and> worker_acts cf as w = Some w' \<and> wr_exit w' = Some k)"
proof -
  have sleeps: "0 < sleep_for (wc_util cf)"
    using assms(2,3) by (simp add: worker_conf_of_def sleeps_iff)
  have free: "\<exists>as w' k. length as \<le> 2 \<and> worker_acts cf as v = Some w' \<and> wr_exit w' = Some k"
    if "\<not> wr_busy v" "wr_exit v = None" "wr_signal v" for v
    using that by (intro exI [of _ "[RunHandler, Finish]"]) (simp add: worker_act_def)
  show ?thesis
  proof (cases "wr_busy w")
    case False
    with free [OF False assms(4,5)] show ?thesis by (fastforce intro: le_trans)
  next
    case True
    then obtain s where s: "wr_util w = Live s"
      using reaches_control [OF assms(1)] by (auto simp: control_ok_def)
    then have step: "worker_act cf (UtilStep env) w = Some (util_step cf env s w)" for env
      using assms(4) by (simp add: worker_act_def)
    have after: "\<not> wr_busy (util_step cf env s w)" "wr_exit (util_step cf env s w) = None"
      "wr_signal (util_step cf env s w)" for env
      using yielding_cycle [OF sleeps] assms(4,5)
      by (auto simp: util_step_def split: prod.splits option.splits)
    let ?env = "\<lparr>ue_now = 0, ue_draw = 0, ue_alloc_a = (\<lambda>_. True), ue_alloc_b = (\<lambda>_. True),
     ue_matmul = (\<lambda>_ _. None)\<rparr>"
    from free [OF after, of ?env] obtain as w' k where
      "length as \<le> 2" "worker_acts cf as (util_step cf ?env s w) = Some w'" "wr_exit w' = Some k"
      by blast
    then have "\<exists>as w' k. length as \<le> 3 \<and> worker_acts cf as w = Some w' \<and> wr_exit w' = Some k"
      using step [of ?env] by (intro exI [of _ "UtilStep ?env # as"]) auto
    moreover have "\<not> wr_busy w'" if "a \<noteq> Sigterm" "worker_act cf a w = Some w'" for a w'
      using that True s after(1) assms(4)
      by (auto simp: worker_act_def split: worker_action.splits)
    ultimately show ?thesis by blast
  qed
qed

text \<open>A worker for examples: both workloads on a device of 100 bytes.\<close>

definition idle_util :: util_env where
  "idle_util = \<lparr>ue_now = 0, ue_draw = 0, ue_alloc_a = (\<lambda>_. True), ue_alloc_b = (\<lambda>_. True),
     ue_matmul = (\<lambda>_ _. None)\<rparr>"

definition demo_conf :: "int \<Rightarrow> worker_conf" where
  "demo_conf t = worker_conf_of (demo_ns\<lparr>wa_util_target := t\<rparr>) 7 (Cuda 100)"

definition demo_begun :: worker_run where
  "demo_begun = \<lparr>wr_mem = Created, wr_util = Created, wr_stop = False, wr_signal = False,
     wr_busy = False, wr_exit = None\<rparr>"

lemma demo_loads: "requested_loads (demo_ns\<lparr>wa_util_target := t\<rparr>) = [''mem'', ''util'']"
  by (simp add: requested_loads_def demo_ns_def worker_defaults_def strip_by_def is_space_def code_def)

lemma demo_begin: "worker_begin (demo_ns\<lparr>wa_util_target := t\<rparr>) = Inr demo_begun"
  by (simp add: worker_begin_def demo_loads demo_begun_def)

definition demo_busy :: worker_run where
  "demo_busy = demo_begun\<lparr>wr_util := Live \<lparr>us_a = 4096, us_b = 4096, us_size = 4096, us_reshaped = 0, us_step = 0\<rparr>,
     wr_busy := True\<rparr>"

lemma demo_first: "1 \<le> t \<Longrightarrow> worker_act (demo_conf t) (UtilStep idle_util) demo_begun = Some demo_busy"
  by (simp add: worker_act_def demo_begun_def demo_busy_def util_first_def util_begin_def
      demo_conf_def worker_conf_of_def util_controller_def idle_util_def base_size_def)

lemma demo_reaches:
  "1 \<le> t \<Longrightarrow> reaches (demo_conf t) (demo_ns\<lparr>wa_util_target := t\<rparr>) demo_busy"
  "1 \<le> t \<Longrightarrow> reaches (demo_conf t) (demo_ns\<lparr>wa_util_target := t\<rparr>) (demo_busy\<lparr>wr_signal := True\<rparr>)"
proof -
  assume t: "1 \<le> t"
  then have "worker_acts (demo_conf t) [UtilStep idle_util] demo_begun = Some demo_busy"
    by (simp add: demo_first)
  then show "reaches (demo_conf t) (demo_ns\<lparr>wa_util_target := t\<rparr>) demo_busy"
    unfolding reaches_def using demo_begin by blast
  have "worker_acts (demo_conf t) [UtilStep idle_util, Sigterm] demo_begun = Some (demo_busy\<lparr>wr_signal := True\<rparr>)"
    using t by (simp add: demo_first) (simp add: worker_act_def demo_busy_def demo_begun_def)
  then show "reaches (demo_conf t) (demo_ns\<lparr>wa_util_target := t\<rparr>) (demo_busy\<lparr>wr_signal := True\<rparr>)"
    unfolding reaches_def using demo_begin by blast
qed

theorem worker_stops_witness:
  "\<exists>as w' k. length as \<le> 3 \<and>
     worker_acts (demo_conf 90) as (demo_busy\<lparr>wr_signal := True\<rparr>) = Some w' \<and> wr_exit w' = Some k"
  by (rule worker_stops [where ns = "demo_ns\<lparr>wa_util_target := 90\<rparr>" and g = 7 and c = "Cuda 100",
        THEN conjunct2])
    (simp_all add: demo_reaches, simp_all add: demo_conf_def demo_busy_def demo_begun_def)

section \<open>A process that cannot be stopped\<close>

definition starved :: "(int \<times> mem_state) wtask \<Rightarrow> worker_run \<Rightarrow> bool" where
  "starved m w \<longleftrightarrow> wr_busy w \<and> \<not> wr_stop w \<and> wr_exit w = None \<and> wr_mem w = m \<and>
     (\<exists>s. wr_util w = Live s)"

lemma starved_act:
  assumes "\<not> 0 < sleep_for (wc_util cf)" "uc_noise (wc_util cf) = Fin n" "0 \<le> n"
    and "\<forall>env x y. a = UtilStep env \<longrightarrow> ue_matmul env x y = None"
    and "worker_act cf a w = Some w'" "starved m w"
  shows "starved m w'"
proof -
  obtain s where s: "wr_util w = Live s" "wr_busy w" "\<not> wr_stop w" "wr_exit w = None" "wr_mem w = m"
    using assms(6) by (auto simp: starved_def)
  have cycle: "\<exists>s'. util_cycle (wc_util cf) env s = (None, s', False)" if "a = UtilStep env" for env
    using util_size_bounds [OF assms(2,3), of base_size "ue_draw env"] assms(1)
      assms(4) that
    by (auto simp: util_cycle_def reshape_def base_size_def)
  have "starved m (util_step cf env s w)" if "a = UtilStep env" for env
    using cycle [OF that] s by (auto simp: util_step_def starved_def)
  with worker_act_cases [OF assms(5)] s show ?thesis
    by (cases a) (auto simp: starved_def)
qed

text \<open>C39. With a utilization target of 96 or more the compute coroutine never awaits: once it runs,
  and as long as its multiplications succeed, whatever happens, SIGTERM included, the process does not exit, never sees the stop and never
  lets the memory controller act again, so only SIGKILL ends it.\<close>

theorem high_target_starves:
  assumes "reaches cf ns w" "cf = worker_conf_of ns g c" "96 \<le> wa_util_target ns"
    and "wa_util_noise_frac ns = Fin n" "wr_busy w" "\<not> wr_stop w"
    and "\<forall>env x y. UtilStep env \<in> set as \<longrightarrow> ue_matmul env x y = None"
    and "worker_acts cf as w = Some w'"
  shows "wr_exit w' = None \<and> wr_busy w' \<and> \<not> wr_stop w' \<and> wr_mem w' = wr_mem w"
proof -
  have "\<not> 0 < sleep_for (wc_util cf)"
    using assms(2,3) by (simp add: worker_conf_of_def sleeps_iff)
  moreover have "uc_noise (wc_util cf) = Fin (max 0 n)"
    using assms(2,4) by (auto simp: worker_conf_of_def util_controller_def fmax_def)
  moreover have "starved (wr_mem w) w"
    using reaches_control [OF assms(1)] assms(5,6) by (simp add: control_ok_def starved_def)
  ultimately have "starved (wr_mem w) u'"
    if "a \<in> set as" "worker_act cf a u = Some u'" "starved (wr_mem w) u" for a u u'
    using starved_act [of cf "max 0 n" a u u' "wr_mem w"] assms(7) that by auto
  with \<open>starved (wr_mem w) w\<close> have "starved (wr_mem w) w'"
    using worker_acts_invariant [OF assms(8), of "starved (wr_mem w)"] by blast
  then show ?thesis by (simp add: starved_def)
qed

theorem high_target_starves_witness:
  "\<exists>w'. worker_acts (demo_conf 96) [Sigterm, UtilStep idle_util, Sigterm, UtilStep idle_util] demo_busy = Some w' \<and>
     wr_exit w' = None"
proof -
  have cycle: "util_step (demo_conf 96) idle_util s w = w\<lparr>wr_util := Live (s\<lparr>us_step := Suc (us_step s)\<rparr>), wr_busy := True\<rparr>"
    if "\<not> wr_stop w" "us_reshaped s = 0" for s w
    using that
    by (simp add: util_step_def util_cycle_def reshape_def demo_conf_def worker_conf_of_def
        util_controller_def sleep_for_def duty_def idle_util_def demo_ns_def worker_defaults_def fmax_def)
  obtain w' where run: "worker_acts (demo_conf 96) [Sigterm, UtilStep idle_util, Sigterm, UtilStep idle_util] demo_busy = Some w'"
    by (simp add: worker_act_def demo_busy_def demo_begun_def cycle)
  have "wr_exit w' = None"
    by (rule high_target_starves [OF demo_reaches(1) _ _ _ _ _ _ run, of 7 "Cuda 100" "1/20", THEN conjunct1])
      (simp_all add: demo_conf_def demo_busy_def demo_begun_def demo_ns_def worker_defaults_def idle_util_def)
  with run show ?thesis by blast
qed

section \<open>A process whose load has failed\<close>

text \<open>An exception that ends the compute coroutine does not end the process: until SIGTERM it stays
  alive without computing, and nothing reports the exception.\<close>

theorem dead_load_unnoticed:
  assumes "wr_util w = Over (Some e)" "wr_exit w = None" "\<not> wr_stop w" "\<not> wr_signal w" "\<not> wr_busy w"
    and "Sigterm \<notin> set as" "worker_acts cf as w = Some w'"
  shows "wr_exit w' = None \<and> wr_util w' = Over (Some e)"
proof -
  let ?I = "\<lambda>u. wr_util u = Over (Some e) \<and> wr_exit u = None \<and> \<not> wr_stop u \<and> \<not> wr_signal u \<and> \<not> wr_busy u"
  have "?I u'" if "a \<in> set as" "worker_act cf a u = Some u'" "?I u" for a u u'
    using worker_act_cases [OF that(2)] that(1,3) assms(6) by (cases a) auto
  with worker_acts_invariant [OF assms(7), of ?I] assms(1-5) show ?thesis by blast
qed

theorem dead_load_unnoticed_witness:
  "\<exists>t w'. wr_util (util_step (demo_conf 90) (idle_util\<lparr>ue_matmul := \<lambda>_ _. Some (RuntimeError t)\<rparr>)
        \<lparr>us_a = 4103, us_b = 4096, us_size = 4096, us_reshaped = 0, us_step = 0\<rparr> demo_busy) = Over (Some (RuntimeError t)) \<and>
     worker_acts (demo_conf 90) [MemStep (0, \<lambda>_. Backed)]
       (util_step (demo_conf 90) (idle_util\<lparr>ue_matmul := \<lambda>_ _. Some (RuntimeError t)\<rparr>)
        \<lparr>us_a = 4103, us_b = 4096, us_size = 4096, us_reshaped = 0, us_step = 0\<rparr> demo_busy) = Some w' \<and>
     wr_exit w' = None"
proof -
  define t where "t = ''shapes''"
  let ?w = "util_step (demo_conf 90) (idle_util\<lparr>ue_matmul := \<lambda>_ _. Some (RuntimeError t)\<rparr>)
        \<lparr>us_a = 4103, us_b = 4096, us_size = 4096, us_reshaped = 0, us_step = 0\<rparr> demo_busy"
  have w: "?w = demo_begun\<lparr>wr_util := Over (Some (RuntimeError t))\<rparr>"
    by (simp add: util_step_def util_cycle_def reshape_def demo_conf_def worker_conf_of_def
        util_controller_def idle_util_def demo_ns_def worker_defaults_def fmax_def demo_busy_def demo_begun_def)
  obtain w' where run: "worker_acts (demo_conf 90) [MemStep (0, \<lambda>_. Backed)] ?w = Some w'"
    unfolding w by (simp add: worker_act_def demo_begun_def)
  have "wr_exit w' = None"
    by (rule dead_load_unnoticed [OF _ _ _ _ _ _ run, of "RuntimeError t", THEN conjunct1])
      (simp_all add: w demo_begun_def)
  moreover have "wr_util ?w = Over (Some (RuntimeError t))" by (simp add: w)
  ultimately show ?thesis using run by (intro exI conjI)
qed

section \<open>A process without CUDA\<close>

definition holds_nothing :: "worker_run \<Rightarrow> bool" where
  "holds_nothing w \<longleftrightarrow>
     (case wr_mem w of Live x \<Rightarrow> ms_held (snd x) = None | _ \<Rightarrow> True)"

text \<open>Where torch is missing or reports no CUDA, the worker process stays alive without load:
  until SIGTERM it never exits and never holds memory nor computes, so the pool goes on counting
  it as a running worker.\<close>

theorem idle_without_cuda:
  assumes "worker_begin ns = Inr w0" "wc_cuda cf = NoTorch \<or> wc_cuda cf = NoCuda"
    and "Sigterm \<notin> set as" "worker_acts cf as w0 = Some w"
  shows "wr_exit w = None \<and> holds_nothing w \<and> \<not> wr_busy w"
proof -
  let ?I = "\<lambda>u. wr_exit u = None \<and> \<not> wr_busy u \<and> \<not> wr_stop u \<and> \<not> wr_signal u \<and>
    (\<forall>x. wr_mem u \<noteq> Live x) \<and> (\<forall>s. wr_util u \<noteq> Live s)"
  have "?I w0" using worker_begin_Inr [OF assms(1)] by simp
  moreover have "?I u'" if "a \<in> set as" "worker_act cf a u = Some u'" "?I u" for a u u'
  proof -
    have mem: "mem_first cf b env = Over None" for b env
      using assms(2) by (auto simp: mem_first_def)
    have util: "util_first cf env v = v\<lparr>wr_util := Over None\<rparr>" for env v
      using assms(2) by (auto simp: util_first_def util_begin_def)
    from worker_act_cases [OF that(2)] that(1,3) assms(3) show ?thesis
      by (cases a) (auto simp: mem util)
  qed
  ultimately have "?I w" by (rule worker_acts_invariant [OF assms(4)])
  then show ?thesis by (auto simp: holds_nothing_def split: wtask.splits)
qed

theorem idle_without_cuda_witness:
  "\<exists>w. worker_acts (demo_conf 90\<lparr>wc_cuda := NoTorch\<rparr>) [MemStep (0, \<lambda>_. Backed), UtilStep idle_util] demo_begun = Some w \<and>
     wr_exit w = None"
proof -
  obtain w where run: "worker_acts (demo_conf 90\<lparr>wc_cuda := NoTorch\<rparr>)
      [MemStep (0, \<lambda>_. Backed), UtilStep idle_util] demo_begun = Some w"
    by (simp add: worker_act_def demo_begun_def mem_first_def util_first_def util_begin_def)
  from idle_without_cuda [OF demo_begin [of 90] _ _ run] run show ?thesis by auto
qed

section \<open>Memory of a whole process\<close>

lemma mem_step_ok:
  assumes "mc_noise (wc_mem cf) = Fin n" "0 \<le> n" "0 \<le> t" "mem_ok t cap n s"
    and "mem_step cf stop env (t, s) = Live (t', s')"
  shows "t' = t \<and> mem_ok t cap n s'"
  using assms mem_round_ok [OF assms(1-4), of env]
  by (auto simp: mem_step_def split: if_splits prod.splits option.splits)

text \<open>C23. In every state a worker process can reach, however its tasks interleave, the memory it
  holds is between its target and both limits, and a retry never asks for less than the target.\<close>

theorem worker_memory_bounds:
  assumes "reaches cf ns w" "wr_mem w = Live (t, s)" "wc_cuda cf = Cuda tot"
    and "mc_noise (wc_mem cf) = Fin n" "0 \<le> n" "mem_target (wc_mem cf) tot = Inr target" "0 \<le> target"
  shows "t = target \<and> target \<le> ms_cap s \<and> ms_cap s \<le> vram_cap tot \<and>
    (ms_held s = None \<or> (\<exists>b. ms_held s = Some b \<and> target \<le> b \<and> b \<le> vram_cap tot \<and>
       b \<le> upper_bound target n))"
proof -
  let ?I = "\<lambda>u. \<forall>t s. wr_mem u = Live (t, s) \<longrightarrow> t = target \<and> mem_ok target (vram_cap tot) n s"
  obtain w0 as where run: "worker_begin ns = Inr w0" "worker_acts cf as w0 = Some w"
    using assms(1) by (auto simp: reaches_def)
  have "?I w0" using worker_begin_Inr [OF run(1)] by simp
  moreover have "?I u'" if "worker_act cf a u = Some u'" "?I u" for a u u'
  proof -
    have start: "mem_ok target (vram_cap tot) n \<lparr>ms_cap = vram_cap tot, ms_held = None\<rparr>"
      using target_le_cap [OF assms(6)] by (simp add: mem_ok_def)
    note step = mem_step_ok [OF assms(4,5,7)]
    have first: "t = target \<and> mem_ok target (vram_cap tot) n s"
      if "mem_first cf b env = Live (t, s)" for b env t s
      using that step [OF start] assms(3,6) by (auto simp: mem_first_def)
    have keep: "wr_mem (util_first cf env u) = wr_mem u" "wr_mem (util_step cf env v u) = wr_mem u" for env v
      by (auto simp: util_first_def util_step_def split: util_start.splits prod.splits option.splits)
    from worker_act_cases [OF that(1)] that(2) show ?thesis
      by (cases a) (auto simp: keep dest: first step)
  qed
  ultimately have "?I w" by (rule worker_acts_invariant [OF run(2)])
  with assms(2) show ?thesis by (auto simp: mem_ok_def split: option.splits)
qed

theorem worker_memory_bounds_witness:
  "\<exists>w s. reaches (demo_conf 90) (demo_ns\<lparr>wa_util_target := 90\<rparr>) w \<and> wr_mem w = Live (50, s) \<and>
     ms_held s = Some 53 \<and> ms_cap s \<le> vram_cap 100"
proof -
  let ?cf = "demo_conf 90" and ?s = "\<lparr>ms_cap = 95, ms_held = Some 53\<rparr>"
  let ?w = "demo_begun\<lparr>wr_mem := Live (50, ?s)\<rparr>"
  have target: "mem_target (wc_mem ?cf) 100 = Inr 50" "mc_noise (wc_mem ?cf) = Fin (1/20)" "wc_cuda ?cf = Cuda 100"
    by (simp_all add: demo_conf_def worker_conf_of_def mem_controller_def demo_ns_def
        worker_defaults_def mem_target_def target_bytes_def vram_cap_def fmax_def trunc_def)
  have "worker_acts ?cf [MemStep (3, \<lambda>_. Backed)] demo_begun = Some ?w"
    using target
    by (simp add: worker_act_def demo_begun_def mem_first_def mem_step_def mem_round_def
        mem_size_def demo_mem_simps randint_def trunc_def)
  then have reach: "reaches ?cf (demo_ns\<lparr>wa_util_target := 90\<rparr>) ?w"
    unfolding reaches_def using demo_begin by blast
  have "ms_cap ?s \<le> vram_cap 100"
    by (rule worker_memory_bounds [OF reach _ target(3,2) _ target(1), of 50 ?s, THEN conjunct2,
          THEN conjunct2, THEN conjunct1]) simp_all
  with reach show ?thesis by fastforce
qed

section \<open>A worker of the pool\<close>

text \<open>The exit code of a whole process, once it has one.\<close>

definition worker_main ::
    "(int \<Rightarrow> exn option) \<Rightarrow> cuda \<Rightarrow> string list \<Rightarrow> worker_action list \<Rightarrow> int option" where
  "worker_main os_nice c argv as =
     (case worker_boot os_nice argv of
        Inl k \<Rightarrow> Some k
      | Inr (ns, w) \<Rightarrow>
          (case worker_acts (worker_conf_of ns (the (wa_gpu ns)) c) as w of
             None \<Rightarrow> None | Some w' \<Rightarrow> wr_exit w'))"

lemma no_loads: "filter (\<lambda>w. w \<noteq> []) (map strip (split_on (CHR '','') [])) = []"
  by code_simp

lemma load_names: "strip ''mem'' = ''mem''" "strip ''util'' = ''util''"
  "CHR '','' \<notin> set ''mem''" "CHR '','' \<notin> set ''util''"
  by code_simp+

lemma configured_loads:
  assumes "set ws \<subseteq> {''mem'', ''util''}"
  shows "filter (\<lambda>w. w \<noteq> []) (map strip (split_on (CHR '','') (join '','' ws))) = ws"
proof (cases "ws = []")
  case True
  then show ?thesis using no_loads by simp
next
  case False
  have "\<forall>w \<in> set ws. CHR '','' \<notin> set w" using assms load_names(3,4) by blast
  then have "split_on (CHR '','') (join '','' ws) = ws" by (rule split_on_join [OF False])
  moreover have "strip w = w" "w \<noteq> []" if "w \<in> set ws" for w
    using assms that load_names(1,2) by auto
  then have "map strip ws = ws" "filter (\<lambda>w. w \<noteq> []) ws = ws"
    by (simp_all add: map_idI filter_id_conv)
  ultimately show ?thesis by simp
qed

lemma section_loads: "worker_section F w g loads = Inr ns \<Longrightarrow> wa_workloads ns = loads"
  by (auto simp: worker_section_def res_simps split: if_splits)

text \<open>C21. What becomes of a worker process that the pool starts under a validated configuration whose
  workloads are a list. Its command line can be built, and as long as the values on it do not look
  like options, each is read as the type the worker wants, \<open>int\<close> for \<open>util_target\<close>, \<open>mem_mb\<close> and \<open>nice\<close>
  and \<open>float\<close> for the others. If one cannot be read (a \<open>util_target\<close> of 90.5), the process exits with
  2; if \<open>os.nice\<close> raises something other than OSError or ValueError, with 1; with no workloads, with
  0; and otherwise it runs the controllers of exactly the listed workloads, with the numbers read.\<close>

theorem spawned_worker_boots:
  assumes "config_ok cfg" "workloads (worker cfg) = PList (map PStr ws)"
    and "plain_texts F (worker cfg)"
  shows "\<exists>argv. build_argv F exe (worker cfg) g = Inr argv \<and>
    worker_boot os_nice (worker_sys_argv argv) =
      (case worker_section F (worker cfg) g (join '','' ws) of
         Inl e \<Rightarrow> Inl 2
       | Inr ns \<Rightarrow>
           if set_nice os_nice (wa_nice ns) \<noteq> None then Inl 1
           else if ws = [] then Inl 0
           else Inr (ns,
             \<lparr>wr_mem = (if ''mem'' \<in> set ws then Created else Absent),
              wr_util = (if ''util'' \<in> set ws then Created else Absent),
              wr_stop = False, wr_signal = False, wr_busy = False, wr_exit = None\<rparr>))"
proof -
  have joined: "join_strs '','' (workloads (worker cfg)) = Inr (join '','' ws)"
    using assms(2) by (simp add: join_strs_PStr)
  then obtain argv where argv: "build_argv F exe (worker cfg) g = Inr argv"
    by (simp add: build_argv_def Let_def)
  have known: "set ws \<subseteq> {''mem'', ''util''}"
    using config_ok_loads [OF assms(1)] assms(2) by (auto simp: all_elems_def)
  then have "\<forall>w \<in> set ws. argument_like w \<and> w \<noteq> []" by (auto simp: argument_like_def)
  then have "argument_like (join '','' ws)" by (rule argument_join)
  note parse = worker_section_read [OF assms(3) this argv joined]
  have loads: "requested_loads ns = ws" if "worker_section F (worker cfg) g (join '','' ws) = Inr ns" for ns
    unfolding requested_loads_def section_loads [OF that] by (rule configured_loads [OF known])
  have started: "worker_begin ns = (if ws = [] then Inl 0 else Inr
       \<lparr>wr_mem = (if ''mem'' \<in> set ws then Created else Absent),
        wr_util = (if ''util'' \<in> set ws then Created else Absent),
        wr_stop = False, wr_signal = False, wr_busy = False, wr_exit = None\<rparr>)"
    if "worker_section F (worker cfg) g (join '','' ws) = Inr ns" for ns
  proof -
    have "\<not> (\<exists>w \<in> set ws. w \<noteq> ''mem'' \<and> w \<noteq> ''util'')" using known by blast
    then show ?thesis by (simp only: worker_begin_def loads [OF that] Let_def if_False)
  qed
  show ?thesis
  proof (intro exI conjI, rule argv)
    show "worker_boot os_nice (worker_sys_argv argv) =
      (case worker_section F (worker cfg) g (join '','' ws) of
         Inl e \<Rightarrow> Inl 2
       | Inr ns \<Rightarrow>
           if set_nice os_nice (wa_nice ns) \<noteq> None then Inl 1
           else if ws = [] then Inl 0
           else Inr (ns,
             \<lparr>wr_mem = (if ''mem'' \<in> set ws then Created else Absent),
              wr_util = (if ''util'' \<in> set ws then Created else Absent),
              wr_stop = False, wr_signal = False, wr_busy = False, wr_exit = None\<rparr>))"
      unfolding worker_boot_def parse
      by (cases "worker_section F (worker cfg) g (join '','' ws)")
        (auto simp only: sum.case parsed.case started split: option.split if_split)
  qed
qed

lemma demo_section:
  "worker_section demo_fmt (worker default_config) 7 (join '','' [''mem'', ''util'']) = Inr demo_ns"
  by (simp add: worker_section_def default_config_def WorkerCfg_def kwarg_def demo_fmt_def demo_floats
      demo_ns_def worker_defaults_def)

lemma demo_plain: "plain_texts demo_fmt (worker default_config)" "plain_texts demo_fmt (worker float_target)"
  by (auto simp: plain_texts_def float_target_def default_config_def WorkerCfg_def kwarg_def demo_fmt_def
      value_text_plain argument_like_def)

lemma demo_workloads: "workloads (worker default_config) = PList (map PStr [''mem'', ''util''])"
  "workloads (worker float_target) = PList (map PStr [''mem'', ''util''])"
  by (simp_all add: float_target_def default_config_def WorkerCfg_def kwarg_def)

theorem spawned_worker_boots_witness:
  "(\<exists>argv. build_argv demo_fmt ''python'' (worker default_config) 7 = Inr argv \<and>
     worker_boot (\<lambda>_. None) (worker_sys_argv argv) = Inr (demo_ns, demo_begun)) \<and>
   (\<exists>argv. build_argv demo_fmt ''python'' (worker float_target) 7 = Inr argv \<and>
     worker_boot (\<lambda>_. None) (worker_sys_argv argv) = Inl 2)"
proof
  show "\<exists>argv. build_argv demo_fmt ''python'' (worker default_config) 7 = Inr argv \<and>
     worker_boot (\<lambda>_. None) (worker_sys_argv argv) = Inr (demo_ns, demo_begun)"
    using spawned_worker_boots [OF default_config_ok demo_workloads(1) demo_plain(1), of "''python''" 7 "\<lambda>_. None"]
    unfolding demo_section by (simp add: set_nice_def demo_begun_def split: option.splits)
  have "fmt_str demo_fmt (util_target (worker float_target)) = ''90.5''"
    by (simp add: demo_fmt_def float_target_def)
  moreover have "py_int_of_str ''90.5'' = Inl ValueError" by code_simp
  ultimately have "worker_section demo_fmt (worker float_target) 7 loads = Inl ValueError" for loads
    by (simp add: worker_section_def)
  then show "\<exists>argv. build_argv demo_fmt ''python'' (worker float_target) 7 = Inr argv \<and>
     worker_boot (\<lambda>_. None) (worker_sys_argv argv) = Inl 2"
    using spawned_worker_boots [OF float_target_ok demo_workloads(2) demo_plain(2), of "''python''" 7 "\<lambda>_. None"]
    by simp
qed

end
