(* ===== verification/Duration.thy ===== *)
theory Duration
  imports PyText
begin

text \<open>
  \<open>src/src/ocp/duration.py\<close>: durations such as \<open>5m\<close> and \<open>1h30m\<close>. The scan is
  \<open>_TOKEN_RE.findall\<close> (leftmost matches of digits followed by a unit, skipping what does not
  match) and the code accepts the string only when the matches rebuild it. The lemmas relate
  that to a grammar of durations and show that formatting and parsing agree.
\<close>

definition is_unit_char :: "char \<Rightarrow> bool" where
  "is_unit_char u \<longleftrightarrow> u = CHR ''s'' \<or> u = CHR ''m'' \<or> u = CHR ''h''"

definition unit_s :: "char \<Rightarrow> int" where
  "unit_s u = (if u = CHR ''s'' then 1 else if u = CHR ''m'' then 60 else 3600)"

function find_tokens :: "string \<Rightarrow> (string \<times> char) list" where
  "find_tokens [] = []"
| "find_tokens (c # cs) =
     (let ds = takeWhile is_digit (c # cs); r = dropWhile is_digit (c # cs) in
      if ds \<noteq> [] \<and> r \<noteq> [] \<and> is_unit_char (hd r) then (ds, hd r) # find_tokens (tl r)
      else find_tokens cs)"
  by pat_completeness auto

termination
proof (relation "measure length", goal_cases)
  case 1
  then show ?case by simp
next
  case (2 c cs ds r)
  have "length (dropWhile is_digit (c # cs)) \<le> length (c # cs)"
    by (rule length_dropWhile_le)
  with 2 show ?case by (cases "dropWhile is_digit (c # cs)") auto
next
  case (3 c cs)
  then show ?case by simp
qed

definition rebuild :: "(string \<times> char) list \<Rightarrow> string" where
  "rebuild ts = concat (map (\<lambda>(n, u). n @ [u]) ts)"

definition total_seconds :: "(string \<times> char) list \<Rightarrow> int" where
  "total_seconds ts = sum_list (map (\<lambda>(n, u). int (undec n) * unit_s u) ts)"

definition parse_duration :: "pyval \<Rightarrow> int res" where
  "parse_duration v =
     (case v of
        PStr s0 \<Rightarrow>
          let s = lower (strip s0) in
          if s = [] then Inl (DurationError [Lit ''empty duration''])
          else let tokens = find_tokens s in
          if rebuild tokens \<noteq> s
          then Inl (DurationError [Lit ''unrecognized duration: '', Repr (PStr s)])
          else let total = total_seconds tokens in
          if total \<le> 0 then Inl (DurationError [Lit ''duration must be > 0: '', Repr (PStr s)])
          else Inr total
      | _ \<Rightarrow> Inl (DurationError [Lit ''duration must be a string'']))"

definition duration_parts :: "int \<Rightarrow> string list" where
  "duration_parts seconds =
     (let h = seconds div 3600; rem = seconds mod 3600; m = rem div 60; s = rem mod 60;
          p1 = (if h \<noteq> 0 then [dec_int h @ ''h''] else []);
          p2 = p1 @ (if m \<noteq> 0 then [dec_int m @ ''m''] else [])
      in p2 @ (if s \<noteq> 0 \<or> p2 = [] then [dec_int s @ ''s''] else []))"

definition format_duration :: "int \<Rightarrow> string" where
  "format_duration seconds =
     (if seconds \<le> 0 then ''0s'' else join '' '' (duration_parts seconds))"

section \<open>The grammar of durations\<close>

definition wf_token :: "string \<times> char \<Rightarrow> bool" where
  "wf_token t \<longleftrightarrow> fst t \<noteq> [] \<and> (\<forall>c \<in> set (fst t). is_digit c) \<and> is_unit_char (snd t)"

lemma unit_not_digit: "is_unit_char u \<Longrightarrow> \<not> is_digit u"
  by (auto simp: is_unit_char_def is_digit_def code_def)

lemma find_tokens_Cons:
  "find_tokens (c # cs) =
     (let ds = takeWhile is_digit (c # cs); r = dropWhile is_digit (c # cs) in
      if ds \<noteq> [] \<and> r \<noteq> [] \<and> is_unit_char (hd r) then (ds, hd r) # find_tokens (tl r)
      else find_tokens cs)"
  by (rule find_tokens.simps)

declare find_tokens.simps(2) [simp del]

lemma find_tokens_wf: "t \<in> set (find_tokens s) \<Longrightarrow> wf_token t"
proof (induction s rule: find_tokens.induct)
  case 1
  then show ?case by simp
next
  case (2 c cs)
  show ?case
  proof (cases "takeWhile is_digit (c # cs) \<noteq> [] \<and> dropWhile is_digit (c # cs) \<noteq> [] \<and>
      is_unit_char (hd (dropWhile is_digit (c # cs)))")
    case True
    have "wf_token (takeWhile is_digit (c # cs), hd (dropWhile is_digit (c # cs)))"
      using True by (auto simp del: takeWhile.simps dropWhile.simps simp: wf_token_def
          dest: set_takeWhileD)
    with True 2 show ?thesis
      by (auto simp del: takeWhile.simps dropWhile.simps simp: find_tokens_Cons Let_def)
  next
    case False
    with 2 show ?thesis
      by (auto simp del: takeWhile.simps dropWhile.simps simp: find_tokens_Cons Let_def)
  qed
qed

lemma find_tokens_step:
  assumes "wf_token (n, u)"
  shows "find_tokens (n @ u # rest) = (n, u) # find_tokens rest"
proof -
  obtain c cs where n: "n = c # cs" using assms by (cases n) (auto simp: wf_token_def)
  have digits: "\<forall>x \<in> set n. is_digit x" and u: "is_unit_char u" "\<not> is_digit u"
    using assms unit_not_digit by (auto simp: wf_token_def)
  then have "takeWhile is_digit (n @ u # rest) = n" "dropWhile is_digit (n @ u # rest) = u # rest"
    by (simp_all add: takeWhile_append dropWhile_append)
  with n u show ?thesis
    using find_tokens_Cons [of c "cs @ u # rest"] by (simp add: Let_def)
qed

lemma find_tokens_rebuild: "\<forall>t \<in> set ts. wf_token t \<Longrightarrow> find_tokens (rebuild ts) = ts"
  by (induction ts) (auto simp: rebuild_def find_tokens_step)

lemma rebuild_Nil [simp]: "rebuild [] = []"
  by (simp add: rebuild_def)

text \<open>C34. A string is accepted with the value \<open>n\<close> exactly when, blanks trimmed and lowered, it
  is a sequence of numbers each followed by a unit (repetitions and any order allowed) whose
  total is \<open>n\<close>, and that total is positive.\<close>

theorem parse_duration_grammar:
  "parse_duration (PStr s) = Inr n \<longleftrightarrow>
   (\<exists>ts. (\<forall>t \<in> set ts. wf_token t) \<and> rebuild ts = lower (strip s) \<and>
         total_seconds ts = n \<and> 0 < n)"
proof
  assume "parse_duration (PStr s) = Inr n"
  then have "rebuild (find_tokens (lower (strip s))) = lower (strip s)"
      "total_seconds (find_tokens (lower (strip s))) = n" "0 < n"
    by (auto simp: parse_duration_def Let_def split: if_splits)
  then show "\<exists>ts. (\<forall>t \<in> set ts. wf_token t) \<and> rebuild ts = lower (strip s) \<and>
      total_seconds ts = n \<and> 0 < n"
    by (blast intro: find_tokens_wf)
next
  assume "\<exists>ts. (\<forall>t \<in> set ts. wf_token t) \<and> rebuild ts = lower (strip s) \<and>
      total_seconds ts = n \<and> 0 < n"
  then obtain ts where ts: "\<forall>t \<in> set ts. wf_token t" "rebuild ts = lower (strip s)"
      "total_seconds ts = n" "0 < n"
    by blast
  then have tok: "find_tokens (lower (strip s)) = ts"
    using find_tokens_rebuild by metis
  have "lower (strip s) \<noteq> []"
    using tok ts by (auto simp: total_seconds_def)
  with tok ts show "parse_duration (PStr s) = Inr n"
    by (simp add: parse_duration_def Let_def)
qed

theorem parse_duration_grammar_witness:
  "parse_duration (PStr ''1h30m'') = Inr 5400"
proof -
  let ?ts = "[(''1'', CHR ''h''), (''30'', CHR ''m'')]"
  have "\<forall>t \<in> set ?ts. wf_token t" by code_simp
  moreover have "rebuild ?ts = lower (strip ''1h30m'')" by code_simp
  moreover have "total_seconds ?ts = 5400" by code_simp
  ultimately have "\<exists>ts. (\<forall>t \<in> set ts. wf_token t) \<and> rebuild ts = lower (strip ''1h30m'') \<and>
      total_seconds ts = 5400 \<and> 0 < (5400 :: int)"
    by (intro exI [of _ ?ts] conjI) simp_all
  then show ?thesis
    by (rule parse_duration_grammar [THEN iffD2])
qed

section \<open>Formatting and parsing agree\<close>

definition duration_tokens :: "int \<Rightarrow> (string \<times> char) list" where
  "duration_tokens n =
     (let h = n div 3600; m = n mod 3600 div 60; s = n mod 3600 mod 60 in
      (if h \<noteq> 0 then [(dec_int h, CHR ''h'')] else []) @
      (if m \<noteq> 0 then [(dec_int m, CHR ''m'')] else []) @
      (if s \<noteq> 0 \<or> h = 0 \<and> m = 0 then [(dec_int s, CHR ''s'')] else []))"

lemma dec_int_nonneg: "0 \<le> i \<Longrightarrow> dec_int i = dec (nat i)"
  by (simp add: dec_int_def)

lemma dec_token_wf: "0 \<le> i \<Longrightarrow> is_unit_char u \<Longrightarrow> wf_token (dec_int i, u)"
  by (simp add: wf_token_def dec_int_nonneg dec_digits)

lemma dec_token_total: "0 \<le> i \<Longrightarrow> total_seconds ((dec_int i, u) # ts) = i * unit_s u + total_seconds ts"
  by (simp add: total_seconds_def dec_int_nonneg)

text \<open>The three fields of a duration, named so that no rewriting of div and mod interferes.\<close>

lemma duration_fields:
  assumes "0 < n"
  obtains h m s where "duration_tokens n =
      (if h \<noteq> 0 then [(dec_int h, CHR ''h'')] else []) @
      (if m \<noteq> 0 then [(dec_int m, CHR ''m'')] else []) @
      (if s \<noteq> 0 \<or> h = 0 \<and> m = 0 then [(dec_int s, CHR ''s'')] else [])"
    "0 \<le> h" "0 \<le> m" "0 \<le> s" "3600 * h + 60 * m + s = n"
proof
  show "duration_tokens n =
      (if n div 3600 \<noteq> 0 then [(dec_int (n div 3600), CHR ''h'')] else []) @
      (if n mod 3600 div 60 \<noteq> 0 then [(dec_int (n mod 3600 div 60), CHR ''m'')] else []) @
      (if n mod 3600 mod 60 \<noteq> 0 \<or> n div 3600 = 0 \<and> n mod 3600 div 60 = 0
       then [(dec_int (n mod 3600 mod 60), CHR ''s'')] else [])"
    unfolding duration_tokens_def Let_def by (rule refl)
  show "0 \<le> n div 3600" using assms by simp
  show "0 \<le> n mod 3600 div 60" "0 \<le> n mod 3600 mod 60"
    by (rule pos_imp_zdiv_nonneg_iff [THEN iffD2] pos_mod_sign; simp)+
  have "n = 3600 * (n div 3600) + n mod 3600"
    "n mod 3600 = 60 * (n mod 3600 div 60) + n mod 3600 mod 60"
    by (rule mult_div_mod_eq [symmetric])+
  then show "3600 * (n div 3600) + 60 * (n mod 3600 div 60) + n mod 3600 mod 60 = n"
    by linarith
qed

lemma duration_tokens_wf: "0 < n \<Longrightarrow> t \<in> set (duration_tokens n) \<Longrightarrow> wf_token t"
  by (erule duration_fields) (auto simp: dec_token_wf is_unit_char_def split: if_splits)

lemma duration_tokens_total:
  assumes "0 < n"
  shows "total_seconds (duration_tokens n) = n"
  using assms
proof (rule duration_fields)
  fix h m s :: int
  assume tok: "duration_tokens n =
      (if h \<noteq> 0 then [(dec_int h, CHR ''h'')] else []) @
      (if m \<noteq> 0 then [(dec_int m, CHR ''m'')] else []) @
      (if s \<noteq> 0 \<or> h = 0 \<and> m = 0 then [(dec_int s, CHR ''s'')] else [])"
    and nonneg: "0 \<le> h" "0 \<le> m" "0 \<le> s" and n: "3600 * h + 60 * m + s = n"
  have nil: "total_seconds [] = 0" by (simp add: total_seconds_def)
  have "total_seconds (duration_tokens n) = 3600 * h + 60 * m + s"
    unfolding tok by (simp add: dec_token_total unit_s_def nonneg nil)
  with n show ?thesis by simp
qed

lemma parts_of_fields:
  fixes h m s :: int
  shows "((if h \<noteq> 0 then [dec_int h @ ''h''] else []) @ (if m \<noteq> 0 then [dec_int m @ ''m''] else [])) @
    (if s \<noteq> 0 \<or> (if h \<noteq> 0 then [dec_int h @ ''h''] else []) @
       (if m \<noteq> 0 then [dec_int m @ ''m''] else []) = [] then [dec_int s @ ''s''] else []) =
    map (\<lambda>(n, u). n @ [u])
      ((if h \<noteq> 0 then [(dec_int h, CHR ''h'')] else []) @
       (if m \<noteq> 0 then [(dec_int m, CHR ''m'')] else []) @
       (if s \<noteq> 0 \<or> h = 0 \<and> m = 0 then [(dec_int s, CHR ''s'')] else []))"
  by simp

lemma duration_parts_tokens: "duration_parts n = map (\<lambda>(n, u). n @ [u]) (duration_tokens n)"
  unfolding duration_parts_def duration_tokens_def Let_def by (rule parts_of_fields)

lemma filter_join:
  "\<forall>x \<in> set xs. CHR '' '' \<notin> set x \<Longrightarrow> filter (\<lambda>c. c \<noteq> CHR '' '') (join '' '' xs) = concat xs"
proof (induction "'' ''" xs rule: join.induct)
  case (2 x)
  then have "\<forall>c \<in> set x. c \<noteq> CHR '' ''" by auto
  then show ?case by (simp add: filter_id_conv)
next
  case (3 x y ys)
  then have "\<forall>c \<in> set x. c \<noteq> CHR '' ''" by auto
  then have "filter (\<lambda>c. c \<noteq> CHR '' '') x = x" by (simp add: filter_id_conv)
  with 3 show ?case by simp
qed simp

lemma wf_token_chars: "wf_token t \<Longrightarrow> c \<in> set (fst t @ [snd t]) \<Longrightarrow> is_digit c \<or> is_unit_char c"
  by (auto simp: wf_token_def)

lemma token_char_plain:
  assumes "is_digit c \<or> is_unit_char c"
  shows "\<not> is_space c" "lower_char c = c" "c \<noteq> CHR '' ''"
  using assms
  by (auto simp: is_digit_def is_unit_char_def is_space_def lower_char_def code_def Let_def)

lemma rebuild_plain:
  assumes "\<forall>t \<in> set ts. wf_token t"
  shows "lower (strip (rebuild ts)) = rebuild ts"
proof -
  have chars: "is_digit c \<or> is_unit_char c" if "c \<in> set (rebuild ts)" for c
    using that assms wf_token_chars by (fastforce simp: rebuild_def)
  then have "strip (rebuild ts) = rebuild ts"
    using token_char_plain by (blast intro: strip_by_none)
  moreover have "lower (rebuild ts) = rebuild ts"
    using chars token_char_plain by (simp add: lower_def map_idI)
  ultimately show ?thesis by simp
qed

lemma format_duration_tokens:
  assumes "0 < n"
  shows "filter (\<lambda>c. c \<noteq> CHR '' '') (format_duration n) = rebuild (duration_tokens n)"
proof -
  have "CHR '' '' \<notin> set p" if "p \<in> set (duration_parts n)" for p
  proof -
    from that obtain t where t: "t \<in> set (duration_tokens n)" "p = fst t @ [snd t]"
      by (auto simp: duration_parts_tokens)
    from duration_tokens_wf [OF assms t(1)] show ?thesis
      using wf_token_chars token_char_plain(3) t(2) by blast
  qed
  with assms show ?thesis
    by (simp add: format_duration_def filter_join rebuild_def duration_parts_tokens)
qed

text \<open>What \<open>format_duration\<close> prints for a positive number of seconds, its separating blanks
  taken out, parses back to exactly that number.\<close>

theorem parse_format_duration:
  "0 < n \<Longrightarrow> parse_duration (PStr (filter (\<lambda>c. c \<noteq> CHR '' '') (format_duration n))) = Inr n"
  unfolding parse_duration_grammar
  using duration_tokens_wf duration_tokens_total format_duration_tokens rebuild_plain by metis

theorem parse_format_duration_witness:
  "(0::int) < 9015 \<and>
   parse_duration (PStr (filter (\<lambda>c. c \<noteq> CHR '' '') (format_duration 9015))) = Inr 9015"
  using parse_format_duration [of 9015] by simp

end
