(* ===== verification/GpuSpec.thy ===== *)
theory GpuSpec
  imports PyText
begin

text \<open>
  \<open>src/src/ocp/gpuspec.py\<close>: GPU lists such as \<open>7\<close> and \<open>0,2,3\<close>. The model keeps the
  code's separate tests (empty parts first, then each part in turn with the set of indices
  seen); the lemmas show what they amount to together.
\<close>

fun spec_loop :: "string list \<Rightarrow> int set \<Rightarrow> int list \<Rightarrow> int list res" where
  "spec_loop [] seen out = Inr out"
| "spec_loop (p # ps) seen out =
     (case py_int_of_str p of
        Inl _ \<Rightarrow> Inl (GpuSpecError [Lit ''not a gpu index: '', Repr (PStr p)])
      | Inr idx \<Rightarrow>
          if idx < 0 then Inl (GpuSpecError [Lit ''negative gpu index: '', Val (PInt idx)])
          else if idx \<in> seen
          then Inl (GpuSpecError [Lit ''duplicate gpu index: '', Val (PInt idx)])
          else spec_loop ps (insert idx seen) (out @ [idx]))"

definition parse_gpu_spec :: "pyval \<Rightarrow> int list res" where
  "parse_gpu_spec v =
     (case v of
        PStr s \<Rightarrow>
          let raw = split_on (CHR '','') s; parts = map strip raw in
          if \<exists>p \<in> set parts. p = [] then
            (if \<forall>p \<in> set parts. p = []
             then Inl (GpuSpecError [Lit ''empty gpu spec: '', Repr (PStr s)])
             else Inl (GpuSpecError [Lit ''empty index in gpu spec: '', Repr (PStr s)]))
          else spec_loop parts {} []
      | _ \<Rightarrow> Inl (GpuSpecError [Lit ''gpu spec must be a string'']))"

lemma spec_loop_Inr:
  "spec_loop ps seen out = Inr xs \<longleftrightarrow>
   (\<exists>ys. rmap py_int_of_str ps = Inr ys \<and> distinct ys \<and> set ys \<inter> seen = {} \<and>
         (\<forall>y \<in> set ys. 0 \<le> y) \<and> xs = out @ ys)"
proof (induction ps arbitrary: seen out)
  case Nil
  then show ?case by auto
next
  case (Cons p ps)
  then show ?case
    by (cases "py_int_of_str p") (auto simp: res_simps)
qed

lemma spec_loop_Inl: "spec_loop ps seen out = Inl e \<Longrightarrow> \<exists>m. e = GpuSpecError m"
  by (induction ps seen out rule: spec_loop.induct) (auto split: sum.splits if_splits)

lemma py_int_of_empty: "py_int_of_str [] = Inl ValueError"
  by (simp add: py_int_of_str_def num_strip_def strip_by_def py_signed_def)

lemma rmap_Inr_each: "rmap f xs = Inr ys \<Longrightarrow> x \<in> set xs \<Longrightarrow> \<exists>y. f x = Inr y"
  by (induction xs arbitrary: ys) (auto simp: res_simps)

text \<open>C35. A GPU list is accepted exactly when every comma-separated part, blanks trimmed, is a
  non-negative integer and no index repeats; the result is those integers in the order written.
  Empty parts, leading and trailing commas included, are therefore rejected.\<close>

theorem parse_gpu_spec_iff:
  "parse_gpu_spec (PStr s) = Inr xs \<longleftrightarrow>
   rmap py_int_of_str (map strip (split_on (CHR '','') s)) = Inr xs \<and>
   distinct xs \<and> (\<forall>x \<in> set xs. 0 \<le> x)"
proof (cases "[] \<in> set (map strip (split_on (CHR '','') s))")
  case True
  then have "\<nexists>ys. rmap py_int_of_str (map strip (split_on (CHR '','') s)) = Inr ys"
    using rmap_Inr_each py_int_of_empty by fastforce
  with True show ?thesis by (auto simp: parse_gpu_spec_def Let_def)
next
  case False
  then have "parse_gpu_spec (PStr s) = spec_loop (map strip (split_on (CHR '','') s)) {} []"
    by (auto simp: parse_gpu_spec_def Let_def)
  then show ?thesis by (simp add: spec_loop_Inr)
qed

theorem parse_gpu_spec_iff_witness:
  "parse_gpu_spec (PStr ''0, 2,3'') = Inr [0, 2, 3]"
proof -
  have "rmap py_int_of_str (map strip (split_on (CHR '','') ''0, 2,3'')) = Inr [0, 2, 3]"
    by code_simp
  then show ?thesis
    using parse_gpu_spec_iff [of "''0, 2,3''" "[0, 2, 3]"] by simp
qed

lemma parse_gpu_spec_error: "parse_gpu_spec v = Inl e \<Longrightarrow> \<exists>m. e = GpuSpecError m"
  by (auto simp: parse_gpu_spec_def Let_def split: pyval.splits if_splits dest: spec_loop_Inl)

section \<open>Printing and parsing agree\<close>

definition show_gpu_spec :: "int list \<Rightarrow> string" where
  "show_gpu_spec xs = join '','' (map dec_int xs)"

lemma dec_no_comma: "CHR '','' \<notin> set (dec n)"
  using dec_digits [of n] by (auto simp: is_digit_def code_def)

lemma strip_dec: "strip (dec n) = dec n"
  using dec_digits [of n] digit_not_space by (blast intro: strip_by_none)

text \<open>Every non-empty list of distinct non-negative indices is expressible: writing it with
  commas and parsing it gives the list back.\<close>

theorem parse_show_gpu_spec:
  assumes "xs \<noteq> []" "distinct xs" "\<forall>x \<in> set xs. 0 \<le> x"
  shows "parse_gpu_spec (PStr (show_gpu_spec xs)) = Inr xs"
proof -
  have dec: "map dec_int xs = map (\<lambda>x. dec (nat x)) xs"
    using assms(3) by (auto simp: dec_int_def)
  have "split_on (CHR '','') (show_gpu_spec xs) = map (\<lambda>x. dec (nat x)) xs"
    unfolding show_gpu_spec_def dec
    using assms(1) dec_no_comma by (intro split_on_join) auto
  moreover have "rmap py_int_of_str (map (\<lambda>x. dec (nat x)) xs) = Inr xs"
    using assms(3) by (induction xs) (auto simp: res_simps)
  ultimately show ?thesis
    using assms(2,3) by (simp add: parse_gpu_spec_iff comp_def strip_dec)
qed

theorem parse_show_gpu_spec_witness:
  "parse_gpu_spec (PStr (show_gpu_spec [3, 0, 12])) = Inr [3, 0, 12]"
  by (rule parse_show_gpu_spec) simp_all

end
