(* ===== verification/Cli.thy ===== *)
theory Cli
  imports Service Duration GpuSpec
begin

text \<open>
  \<open>src/src/ocp/cli.py\<close>: the commands. What a command does is a list of outputs and effects and the
  way it ends: normally, with \<open>typer.Exit\<close>, or with an exception that typer reports as a traceback.
  The option parsing of typer, a library, is outside: a command gets its options. \<open>call\<close> is the IPC
  client (\<open>Ipc.client_call\<close>): what a command and its arguments give.

  A line is kept as its cells, since the layout of floats is a matter of the formatter: the text of
  a value, the value padded to a width, a number of megabytes shown as gigabytes.

  What the commands achieve against the daemon is in \<open>CliRuns\<close>.
\<close>

datatype cell =
    Txt string
  | Said message
  | Shown pyval
  | Padded nat pyval
  | Gib pyval

type_synonym line = "cell list"

datatype out = Out line | Err line | Json pyval | Launch "string list" | Kill int int

datatype cli_end = Done | Fails int | Raised exn

type_synonym cli = "out list \<times> cli_end"

type_synonym ipc_call = "string \<Rightarrow> table \<Rightarrow> pyval res"

section \<open>Sequencing\<close>

definition emit :: "out list \<Rightarrow> cli \<Rightarrow> cli" where
  "emit os c = (os @ fst c, snd c)"

definition try_res :: "'a res \<Rightarrow> ('a \<Rightarrow> cli) \<Rightarrow> cli" where
  "try_res r k = (case r of Inl e \<Rightarrow> ([], Raised e) | Inr x \<Rightarrow> k x)"

fun print_each :: "('a \<Rightarrow> out res) \<Rightarrow> 'a list \<Rightarrow> cli" where
  "print_each f [] = ([], Done)"
| "print_each f (x # xs) =
     (case f x of Inl e \<Rightarrow> ([], Raised e) | Inr o1 \<Rightarrow> emit [o1] (print_each f xs))"

definition fail_with :: "line \<Rightarrow> cli" where
  "fail_with msg = ([Err (Txt ''error: '' # msg)], Fails 1)"

definition fail_code :: "line \<Rightarrow> pyval \<Rightarrow> cli" where
  "fail_code msg errcode =
     (if truthy errcode
      then ([Err (Txt ''error: '' # msg @ [Txt (CHR 0x0A # ''       (''), Shown errcode, Txt '')''])], Fails 1)
      else fail_with msg)"

section \<open>Reading a response\<close>

text \<open>\<open>v.get(k, dflt)\<close>: only a dict has a \<open>get\<close>.\<close>

definition py_get :: "pyval \<Rightarrow> string \<Rightarrow> pyval \<Rightarrow> pyval res" where
  "py_get v k dflt = (case v of PDict kvs \<Rightarrow> Inr (dict_get v k dflt) | _ \<Rightarrow> Inl AttributeError)"

definition get_or :: "pyval \<Rightarrow> string \<Rightarrow> pyval \<Rightarrow> pyval res" where
  "get_or v k alt = rbind (py_get v k PNone) (\<lambda>x. Inr (if truthy x then x else alt))"

definition err_info :: "formatter \<Rightarrow> pyval \<Rightarrow> (string \<times> string) res" where
  "err_info F resp =
     rbind (get_or resp ''error'' (PDict [])) (\<lambda>err.
     rbind (py_get err ''code'' (PStr ''E_UNKNOWN'')) (\<lambda>c.
     rbind (py_get err ''msg'' (PStr ''unknown error'')) (\<lambda>m.
     Inr (py_str F c, py_str F m))))"

definition do_call :: "pyval res \<Rightarrow> (pyval \<Rightarrow> cli) \<Rightarrow> cli" where
  "do_call r k =
     (case r of
        Inr v \<Rightarrow> k v
      | Inl (DaemonDown m) \<Rightarrow>
          fail_with [Txt ''daemon is not running ('', Said m, Txt ''). Try: sudo ocp daemon on'']
      | Inl (IPCClientError m) \<Rightarrow> fail_with [Txt ''IPC error: '', Said m]
      | Inl e \<Rightarrow> ([], Raised e))"

text \<open>\<open>if not resp.get("ok"): code, msg = _err_info(resp); _fail(msg, code=code)\<close>.\<close>

definition require_ok :: "formatter \<Rightarrow> pyval \<Rightarrow> cli \<Rightarrow> cli" where
  "require_ok F resp k =
     try_res (py_get resp ''ok'' PNone) (\<lambda>ok.
       if truthy ok then k
       else try_res (err_info F resp) (\<lambda>(c, m). fail_code [Txt m] (PStr c)))"

definition print_json :: "pyval \<Rightarrow> cli" where
  "print_json v = ([Json v], Done)"

section \<open>Status\<close>

text \<open>A format specification like \<open>>3\<close> is for numbers and strings; None has none.\<close>

definition padded :: "nat \<Rightarrow> pyval \<Rightarrow> cell res" where
  "padded n v =
     (case v of PNone \<Rightarrow> Inl TypeError | PList _ \<Rightarrow> Inl TypeError | PDict _ \<Rightarrow> Inl TypeError
      | _ \<Rightarrow> Inr (Padded n v))"

definition gib :: "pyval \<Rightarrow> cell res" where
  "gib v = (if num_of v = None then Inl TypeError else Inr (Gib v))"

definition duration_text :: "pyval \<Rightarrow> string res" where
  "duration_text v = rbind (py_int v) (\<lambda>s. Inr (format_duration s))"

definition worker_cells :: "pyval \<Rightarrow> line res" where
  "worker_cells w =
     (if truthy w then rbind (py_item w ''pid'') (\<lambda>p. Inr [Txt ''up pid='', Shown p])
      else Inr [Txt ''down''])"

definition health_cells :: "pyval \<Rightarrow> line res" where
  "health_cells g =
     rbind (py_get g ''monitor_error'' PNone) (\<lambda>err.
     if truthy err then Inr [Txt ''NVML error: '', Shown err]
     else
       rbind (py_get g ''util_pct'' PNone) (\<lambda>util.
       rbind (get_or g ''mem_used_mb'' (PInt 0)) (\<lambda>used.
       rbind (get_or g ''mem_total_mb'' (PInt 0)) (\<lambda>tot.
       rbind (padded 3 util) (\<lambda>u.
       rbind (gib used) (\<lambda>ug.
       rbind (gib tot) (\<lambda>tg.
       rbind (py_get g ''worker'' PNone) (\<lambda>w.
       rbind (worker_cells w) (\<lambda>wc.
       Inr ([Txt ''util '', u, Txt ''%, mem '', ug, Txt '' GB / '', tg, Txt '' GB'', Txt ''  | worker: ''] @ wc))))))))))"

definition lease_cells :: "pyval \<Rightarrow> line res" where
  "lease_cells l =
     (if \<not> truthy l then Inr []
      else
        rbind (py_item l ''user'') (\<lambda>user.
        rbind (py_item l ''uid'') (\<lambda>uid.
        rbind (py_item l ''remaining_s'') (\<lambda>rem.
        rbind (duration_text rem) (\<lambda>d.
        Inr [Txt ''  | paused by '', Shown user, Txt '' (uid '', Shown uid, Txt '') for '', Txt d, Txt '' more''])))))"

definition gpu_line :: "pyval \<Rightarrow> out res" where
  "gpu_line g =
     rbind (py_item g ''gpu'') (\<lambda>n.
     rbind (health_cells g) (\<lambda>h.
     rbind (py_get g ''lease'' PNone) (\<lambda>l.
     rbind (lease_cells l) (\<lambda>lc.
     Inr (Out ([Txt ''gpu '', Shown n, Txt '': ''] @ h @ lc))))))"

definition status_cmd :: "formatter \<Rightarrow> ipc_call \<Rightarrow> bool \<Rightarrow> cli" where
  "status_cmd F call as_json =
     do_call (call ''GET_STATUS'' []) (\<lambda>resp.
     require_ok F resp (
       if as_json then print_json resp
       else
         try_res (get_or resp ''data'' (PDict [])) (\<lambda>data.
         try_res (get_or data ''daemon'' (PDict [])) (\<lambda>d.
         try_res (py_get d ''pid'' PNone) (\<lambda>pid.
         try_res (rbind (py_get d ''uptime_s'' (PInt 0)) duration_text) (\<lambda>up.
         emit [Out [Txt ''daemon:  up (pid '', Shown pid, Txt '', uptime '', Txt up, Txt '')'']] (
         try_res (py_get d ''nvml_ok'' (PBool True)) (\<lambda>ok.
         emit (if truthy ok then [] else [Out [Txt ''         NVML unavailable; monitoring is disabled'']]) (
         try_res (get_or data ''gpus'' (PList [])) (\<lambda>gpus.
         if \<not> truthy gpus then ([Out [Txt ''(no GPUs being watched)'']], Done)
         else try_res (py_iter gpus) (print_each gpu_line)))))))))))"

section \<open>Pause and resume\<close>

text \<open>\<open>strftime\<close> of \<open>localtime(v)\<close>, where None stands for now.\<close>

definition wall_clock :: "formatter \<Rightarrow> real \<Rightarrow> pyval \<Rightarrow> string res" where
  "wall_clock F now v =
     (case v of
        PNone \<Rightarrow> clock_text F (Fin now)
      | _ \<Rightarrow> (case num_of v of None \<Rightarrow> Inl TypeError | Some t \<Rightarrow> clock_text F t))"

definition paused_line :: "formatter \<Rightarrow> real \<Rightarrow> pyval \<Rightarrow> out res" where
  "paused_line F now l =
     rbind (rbind (py_item l ''expires_at'') (wall_clock F now)) (\<lambda>exp.
     rbind (py_item l ''gpu'') (\<lambda>g.
     rbind (rbind (py_item l ''remaining_s'') duration_text) (\<lambda>d.
     Inr (Out [Txt ''ok: paused gpu '', Shown g, Txt '' until '', Txt exp, Txt '' ('', Txt d, Txt '')'']))))"

text \<open>Only the parser's own exception is reported as an error.\<close>

definition or_fail :: "'a res \<Rightarrow> ('a \<Rightarrow> cli) \<Rightarrow> cli" where
  "or_fail r k =
     (case r of
        Inr x \<Rightarrow> k x
      | Inl (GpuSpecError m) \<Rightarrow> fail_with [Said m]
      | Inl (DurationError m) \<Rightarrow> fail_with [Said m]
      | Inl e \<Rightarrow> ([], Raised e))"

definition pause_args_of :: "int list \<Rightarrow> int \<Rightarrow> table" where
  "pause_args_of gpus dur = [(''gpus'', ints gpus), (''duration_s'', PInt dur)]"

definition pause_cmd :: "formatter \<Rightarrow> real \<Rightarrow> ipc_call \<Rightarrow> string \<Rightarrow> string \<Rightarrow> bool \<Rightarrow> cli" where
  "pause_cmd F now call spec duration as_json =
     or_fail (parse_gpu_spec (PStr spec)) (\<lambda>gpus.
     or_fail (parse_duration (PStr duration)) (\<lambda>dur.
     do_call (call ''PAUSE'' (pause_args_of gpus dur)) (\<lambda>resp.
     if as_json then print_json resp
     else require_ok F resp (
       try_res (get_or resp ''data'' (PDict [])) (\<lambda>data.
       try_res (get_or data ''leases'' (PList [])) (\<lambda>leases.
       try_res (py_iter leases) (print_each (paused_line F now))))))))"

definition resume_error_line :: "pyval \<Rightarrow> out res" where
  "resume_error_line e =
     rbind (py_item e ''gpu'') (\<lambda>g.
     rbind (py_get e ''code'' PNone) (\<lambda>c.
     Inr (Err [Txt ''  gpu '', Shown g, Txt '': '', Shown c])))"

definition resume_cmd :: "formatter \<Rightarrow> ipc_call \<Rightarrow> string \<Rightarrow> bool \<Rightarrow> cli" where
  "resume_cmd F call spec as_json =
     or_fail (parse_gpu_spec (PStr spec)) (\<lambda>gpus.
     do_call (call ''RESUME'' [(''gpus'', ints gpus)]) (\<lambda>resp.
     if as_json then print_json resp
     else require_ok F resp (
       try_res (get_or resp ''data'' (PDict [])) (\<lambda>data.
       try_res (get_or data ''released'' (PList [])) (\<lambda>released.
       try_res (get_or data ''errors'' (PList [])) (\<lambda>errors.
       try_res (py_iter released) (\<lambda>rs.
       emit (if truthy released
             then [Out [Txt ''ok: released gpu(s): '', Txt (join '', '' (map (py_str F) rs))]] else []) (
       try_res (py_iter errors) (print_each resume_error_line)))))))))"

section \<open>History and configuration\<close>

text \<open>\<open>" ".join(f"{k}={v}" ...)\<close>.\<close>

definition args_cells :: "formatter \<Rightarrow> pyval \<Rightarrow> line res" where
  "args_cells F v =
     (case v of
        PDict kvs \<Rightarrow> Inr [Txt (join '' '' (map (\<lambda>(k, x). k @ ''='' @ py_str F x) kvs))]
      | _ \<Rightarrow> Inl AttributeError)"

text \<open>The outcome of an entry: its error, if it failed, and its note.\<close>

definition entry_suffix :: "pyval \<Rightarrow> line res" where
  "entry_suffix e =
     rbind (py_get e ''ok'' (PBool True)) (\<lambda>ok.
     rbind (py_get e ''error'' PNone) (\<lambda>err.
     rbind (py_get e ''note'' PNone) (\<lambda>note.
     Inr ((if truthy ok then [] else [Txt ''  ['', Shown err, Txt '']'']) @
          (if truthy note then [Txt ''  ('', Shown note, Txt '')''] else [])))))"

definition entry_time :: "formatter \<Rightarrow> real \<Rightarrow> pyval \<Rightarrow> (string \<times> string) res" where
  "entry_time F now e =
     rbind (py_item e ''ts'') (\<lambda>ts.
     rbind (wall_clock F now ts) (\<lambda>clk.
     case num_of ts of
       None \<Rightarrow> Inl TypeError
     | Some t \<Rightarrow> rbind (format_relative t now) (\<lambda>rel. Inr (clk, rel))))"

definition history_line :: "formatter \<Rightarrow> real \<Rightarrow> pyval \<Rightarrow> out res" where
  "history_line F now e =
     rbind (entry_time F now e) (\<lambda>(clk, rel).
     rbind (entry_suffix e) (\<lambda>suffix.
     rbind (py_item e ''user'') (\<lambda>user.
     rbind (padded 10 user) (\<lambda>u.
     rbind (py_item e ''cmd'') (\<lambda>cmd.
     rbind (get_or e ''args'' (PDict [])) (\<lambda>args.
     rbind (args_cells F args) (\<lambda>ac.
     Inr (Out ([Txt clk, Txt ''  ('', Padded 7 (PStr rel), Txt '')  '', u, Txt ''  '', Shown cmd, Txt '' ''] @
       ac @ suffix)))))))))"

text \<open>An absent or empty \<open>--since\<close> or \<open>--user\<close> is not sent.\<close>

definition history_request :: "int \<Rightarrow> string option \<Rightarrow> string option \<Rightarrow> bool \<Rightarrow> table res" where
  "history_request n since user mine =
     rbind (case since of
              None \<Rightarrow> Inr []
            | Some s \<Rightarrow> if s = [] then Inr [] else
                rbind (parse_duration (PStr s)) (\<lambda>d. Inr [(''since_s'', PInt d)])) (\<lambda>sa.
     Inr ([(''n'', PInt n)] @ sa @
       (case user of None \<Rightarrow> [] | Some u \<Rightarrow> if u = [] then [] else [(''user'', PStr u)]) @
       (if mine then [(''mine'', PBool True)] else [])))"

definition history_cmd ::
    "formatter \<Rightarrow> real \<Rightarrow> ipc_call \<Rightarrow> int \<Rightarrow> string option \<Rightarrow> string option \<Rightarrow> bool \<Rightarrow> bool \<Rightarrow> cli" where
  "history_cmd F now call n since user mine as_json =
     or_fail (history_request n since user mine) (\<lambda>args.
     do_call (call ''HISTORY_GET'' args) (\<lambda>resp.
     require_ok F resp (
       if as_json then print_json resp
       else
         try_res (get_or resp ''data'' (PDict [])) (\<lambda>data.
         try_res (get_or data ''entries'' (PList [])) (\<lambda>entries.
         try_res (py_iter entries) (print_each (history_line F now)))))))"

definition config_list_cmd :: "formatter \<Rightarrow> ipc_call \<Rightarrow> bool \<Rightarrow> cli" where
  "config_list_cmd F call as_json =
     do_call (call ''CONFIG_LIST'' []) (\<lambda>resp.
     require_ok F resp (
       if as_json then print_json resp
       else
         try_res (get_or resp ''data'' (PDict [])) (\<lambda>data.
         try_res (get_or data ''config'' (PDict [])) print_json)))"

definition config_reload_cmd :: "formatter \<Rightarrow> ipc_call \<Rightarrow> cli" where
  "config_reload_cmd F call =
     do_call (call ''CONFIG_RELOAD'' []) (\<lambda>resp.
     require_ok F resp ([Out [Txt ''ok: config reloaded'']], Done))"

definition config_path_cmd :: "string \<Rightarrow> cli" where
  "config_path_cmd path = ([Out [Txt path]], Done)"

section \<open>Starting and stopping the daemon\<close>

text \<open>
  What the commands see of the machine, each at its \<open>i\<close>-th look: the text of the pid file, if it can
  be read, and what the kernel says to a signal.
\<close>

datatype kill_result = Delivered | NoProcess | NoPermission

record machine_view =
  mv_euid :: int
  mv_text :: "nat \<Rightarrow> string option"
  mv_kill :: "nat \<Rightarrow> int \<Rightarrow> kill_result"
  mv_launch :: bool

definition read_pidfile :: "string option \<Rightarrow> int option" where
  "read_pidfile text =
     (case text of
        None \<Rightarrow> None
      | Some s \<Rightarrow> (case py_int_of_str (strip s) of Inl e \<Rightarrow> None | Inr p \<Rightarrow> Some p))"

text \<open>\<open>os.kill(pid, 0)\<close>: an OSError is a dead process, a pid beyond a C int is an OverflowError.\<close>

definition pid_alive :: "int \<Rightarrow> kill_result \<Rightarrow> bool res" where
  "pid_alive p k =
     (if - (2 ^ 31) \<le> p \<and> p < 2 ^ 31 then Inr (k = Delivered) else Inl OverflowError)"

text \<open>\<open>if pid and _pid_alive(pid)\<close>, at the \<open>i\<close>-th look.\<close>

definition live_pid :: "machine_view \<Rightarrow> nat \<Rightarrow> int option res" where
  "live_pid m i =
     (case read_pidfile (mv_text m i) of
        None \<Rightarrow> Inr None
      | Some p \<Rightarrow>
          if p = 0 then Inr None
          else rbind (pid_alive p (mv_kill m i p)) (\<lambda>alive. Inr (if alive then Some p else None)))"

definition require_root :: "machine_view \<Rightarrow> string \<Rightarrow> cli \<Rightarrow> cli" where
  "require_root m action k =
     (if mv_euid m \<noteq> 0
      then fail_with [Txt (''ocp daemon '' @ action @ '' requires root (try: sudo ocp daemon '' @ action @ '')'')]
      else k)"

definition pid_line :: "string \<Rightarrow> int \<Rightarrow> out" where
  "pid_line s p = Out [Txt s, Shown (PInt p), Txt '')'']"

text \<open>Waiting for the new daemon: fifty looks.\<close>

fun wait_up :: "machine_view \<Rightarrow> nat \<Rightarrow> nat \<Rightarrow> cli" where
  "wait_up m 0 i =
     fail_with [Txt ''ocpd may have failed to start; check /var/log/ocp/ocpd.log or run `ocpd` in the foreground'']"
| "wait_up m (Suc k) i =
     try_res (live_pid m i) (\<lambda>pid. case pid of
        Some p \<Rightarrow> ([pid_line ''ok: ocpd started (pid '' p], Done)
      | None \<Rightarrow> wait_up m k (Suc i))"

definition daemon_on :: "machine_view \<Rightarrow> string \<Rightarrow> cli" where
  "daemon_on m exe =
     require_root m ''on'' (
       try_res (live_pid m 0) (\<lambda>pid. case pid of
         Some p \<Rightarrow> ([pid_line ''ok: ocpd already running (pid '' p], Done)
       | None \<Rightarrow>
           if mv_launch m then emit [Launch [exe, ''-m'', ''ocp.daemon'']] (wait_up m 50 1)
           else ([], Raised OSError)))"

fun wait_down :: "machine_view \<Rightarrow> int \<Rightarrow> nat \<Rightarrow> nat \<Rightarrow> cli" where
  "wait_down m p 0 i =
     fail_with [Txt ''ocpd (pid '', Shown (PInt p), Txt '') did not exit within 5s'']"
| "wait_down m p (Suc k) i =
     try_res (pid_alive p (mv_kill m i p)) (\<lambda>alive.
       if \<not> alive then ([Out [Txt ''ok: ocpd stopped'']], Done)
       else wait_down m p k (Suc i))"

definition daemon_off :: "machine_view \<Rightarrow> cli" where
  "daemon_off m =
     require_root m ''off'' (
       try_res (live_pid m 0) (\<lambda>pid. case pid of
         None \<Rightarrow> ([Out [Txt ''ok: ocpd is not running'']], Done)
       | Some p \<Rightarrow>
           (case mv_kill m 1 p of
              NoProcess \<Rightarrow> ([Out [Txt ''ok: ocpd is not running'']], Done)
            | NoPermission \<Rightarrow> ([], Raised (OtherExn ''PermissionError''))
            | Delivered \<Rightarrow> emit [Kill p 15] (wait_down m p 50 2))))"

definition daemon_status :: "machine_view \<Rightarrow> string \<Rightarrow> cli" where
  "daemon_status m socket =
     try_res (live_pid m 0) (\<lambda>pid. case pid of
        Some p \<Rightarrow> ([Out [Txt ''up    pid='', Shown (PInt p), Txt (''    socket='' @ socket)]], Done)
      | None \<Rightarrow> ([Out [Txt (''down  socket='' @ socket)]], Done))"

end
