(* ===== verification/CliRuns.thy ===== *)
theory CliRuns
  imports Cli Runs
begin

text \<open>
  The commands of \<open>cli.py\<close> against the daemon: what the exit code of \<open>ocp pause\<close> says about the
  leases, what \<open>--json\<close> hides, which answers \<open>ocp status\<close> can print, and what \<open>ocp daemon on\<close> and
  \<open>off\<close> do to processes. That the request and the answer arrive unchanged is \<open>call_end_to_end\<close>.
\<close>

definition cli_request :: "string \<Rightarrow> table \<Rightarrow> request" where
  "cli_request cmd args = \<lparr>rq_cmd = cmd, rq_args = args, rq_id = ''cli'', rq_v = PROTOCOL_VERSION\<rparr>"

definition daemon_call :: "serve_env \<Rightarrow> caller \<Rightarrow> daemon \<Rightarrow> ipc_call" where
  "daemon_call env c d cmd args =
     rbind (fst (dispatch env c (cli_request cmd args) d)) (\<lambda>r. Inr (response_to_dict r))"

definition daemon_after :: "serve_env \<Rightarrow> caller \<Rightarrow> daemon \<Rightarrow> string \<Rightarrow> table \<Rightarrow> daemon" where
  "daemon_after env c d cmd args = snd (dispatch env c (cli_request cmd args) d)"

section \<open>Ends of a command\<close>

lemma fail_end [simp]: "snd (fail_with m) = Fails 1" "snd (fail_code m k) = Fails 1"
  by (simp_all add: fail_with_def fail_code_def)

lemma emit_end [simp]: "snd (emit os c) = snd c"
  by (simp add: emit_def)

lemma try_done: "snd (try_res r k) = Done \<longleftrightarrow> (\<exists>x. r = Inr x \<and> snd (k x) = Done)"
  by (cases r) (simp_all add: try_res_def)

lemma or_fail_done: "snd (or_fail r k) = Done \<longleftrightarrow> (\<exists>x. r = Inr x \<and> snd (k x) = Done)"
proof (cases r)
  case (Inl e)
  then show ?thesis by (cases e) (simp_all add: or_fail_def)
qed (simp add: or_fail_def)

lemma do_call_done: "snd (do_call r k) = Done \<longleftrightarrow> (\<exists>x. r = Inr x \<and> snd (k x) = Done)"
proof (cases r)
  case (Inl e)
  then show ?thesis by (cases e) (simp_all add: do_call_def)
qed (simp add: do_call_def)

lemma response_ok: "py_get (response_to_dict r) ''ok'' PNone = Inr (PBool (rs_ok r))"
  by (simp add: py_get_def response_to_dict_def dict_get_def)

lemma built_error:
  assumes "built r" "\<not> rs_ok r"
  shows "\<exists>x. err_info F (response_to_dict r) = Inr x"
  using assms
  by (auto simp: err_info_def get_or_def py_get_def response_to_dict_def dict_get_def built_def
      or_empty_def)

lemma require_ok_response:
  assumes "built r"
  shows "snd (require_ok F (response_to_dict r) k) = (if rs_ok r then snd k else Fails 1)"
  using built_error [OF assms, of F]
  by (auto simp: require_ok_def response_ok try_res_def)

section \<open>Pausing\<close>

lemma plain_ints_ints: "plain_ints (map PInt gs) = Some gs"
  by (induction gs) simp_all

lemma gpu_list_ints: "gpu_list (ints gs) = (if gs = [] then None else Some gs)"
  by (simp add: gpu_list_def ints_def plain_ints_ints)

lemma pause_upper: "upper ''PAUSE'' = ''PAUSE''"
  by code_simp

text \<open>C18. What the exit code 0 of \<open>ocp pause SPEC DURATION\<close> says, for any call that returns the
  daemon's answer or fails. The two arguments were a GPU list and a duration, and the daemon answered
  the PAUSE. Without \<open>--json\<close> every GPU of the list is then leased to the user for at least that
  duration; with \<open>--json\<close> that is so if the answer printed says ok, and a refusal is printed and
  exits with 0 as well.\<close>

theorem pause_cmd_promise:
  assumes "daemon_run d"
    and "\<And>args v. call ''PAUSE'' args = Inr v \<Longrightarrow> daemon_call env c d ''PAUSE'' args = Inr v"
    and "snd (pause_cmd F now call spec duration as_json) = Done"
  shows "\<exists>gs t r. parse_gpu_spec (PStr spec) = Inr gs \<and> parse_duration (PStr duration) = Inr t \<and>
    call ''PAUSE'' (pause_args_of gs t) = Inr (response_to_dict r) \<and>
    (if rs_ok r
     then \<forall>g \<in> set gs. leased_until (c_uid c) g (sv_now env + real_of_int t)
       (y_leases (dm_sys (daemon_after env c d ''PAUSE'' (pause_args_of gs t))))
     else as_json \<and> fst (pause_cmd F now call spec duration as_json) = [Json (response_to_dict r)])"
proof -
  obtain gs t v where parsed: "parse_gpu_spec (PStr spec) = Inr gs" "parse_duration (PStr duration) = Inr t"
      and v: "call ''PAUSE'' (pause_args_of gs t) = Inr v"
      and ok: "\<not> as_json \<Longrightarrow> snd (require_ok F v (try_res (get_or v ''data'' (PDict [])) (\<lambda>data.
        try_res (get_or data ''leases'' (PList [])) (\<lambda>leases.
        try_res (py_iter leases) (print_each (paused_line F now)))))) = Done"
    using assms(3) by (auto simp: pause_cmd_def or_fail_done do_call_done split: if_splits)
  let ?req = "cli_request ''PAUSE'' (pause_args_of gs t)"
  obtain r d' where r: "dispatch env c ?req d = (Inr r, d')" "v = response_to_dict r"
    using assms(2) [OF v] by (auto simp: daemon_call_def res_simps) (metis prod.collapse)
  then have "built r" using dispatch_replies [of ?req env c d] by (simp add: replies_def)
  then have refused: "as_json" if "\<not> rs_ok r"
    using ok r(2) that by (auto simp: require_ok_response split: if_splits)
  have printed: "fst (pause_cmd F now call spec duration True) = [Json v]"
    using parsed v by (simp add: pause_cmd_def or_fail_def do_call_def print_json_def)
  have granted: "\<forall>g \<in> set gs. leased_until (c_uid c) g (sv_now env + real_of_int t)
       (y_leases (dm_sys (daemon_after env c d ''PAUSE'' (pause_args_of gs t))))" if rs: "rs_ok r"
  proof -
    have up: "upper (rq_cmd ?req) = ''PAUSE''" by (simp add: cli_request_def pause_upper)
    obtain gs' t' where granted:
        "gpu_list (dict_get (PDict (rq_args ?req)) ''gpus'' PNone) = Some gs'"
        "py_int (dict_get (PDict (rq_args ?req)) ''duration_s'' PNone) = Inr t'"
        "\<forall>g \<in> set gs'. leased_until (c_uid c) g (sv_now env + real_of_int t') (y_leases (dm_sys d'))"
      using pause_granted_lemma [OF assms(1) up r(1) rs] by blast
    then have "gs' = gs" "t' = t"
      by (auto simp: cli_request_def pause_args_of_def dict_get_def gpu_list_ints split: if_splits)
    with granted(3) r(1) show ?thesis by (auto simp: daemon_after_def)
  qed
  show ?thesis
    using parsed v r(2) refused granted printed by (intro exI [of _ gs] exI [of _ t] exI [of _ r]) auto
qed

lemma demo_args: "parse_gpu_spec (PStr ''7'') = Inr [7]" "parse_duration (PStr ''10m'') = Inr 600"
  by code_simp+

definition demo_lease_dict :: pyval where
  "demo_lease_dict = PDict [(''user'', PStr ''root''), (''uid'', PInt 0), (''gpu'', PInt 7),
     (''expires_at'', PFloat (Fin 600)), (''remaining_s'', PInt 600)]"

lemma demo_cli_check:
  "check_pause F (cli_request ''PAUSE'' (pause_args_of [7] 600)) demo_daemon = Inr (Inr ([7], 600))"
  by (simp add: check_pause_def cli_request_def pause_args_of_def ints_def dict_get_def gpu_list_def
      demo_fields default_config_def PauseCfg_def kwarg_def py_cmp_def)

abbreviation pause_answer :: response where
  "pause_answer \<equiv> success ''cli'' (PDict [(''leases'', PList [demo_lease_dict])])"

lemma demo_cli_dispatch:
  "fst (dispatch (demo_env 0) root_user (cli_request ''PAUSE'' (pause_args_of [7] 600)) demo_daemon) =
     Inr pause_answer"
proof -
  let ?req = "cli_request ''PAUSE'' (pause_args_of [7] 600)"
  have "fst (handle_pause (demo_env 0) root_user ?req demo_daemon) = Inr pause_answer"
    using demo_cli_check demo_granted
    by (simp add: handle_pause_def root_user_def demo_env_def clock_text_def lease_reply_def
        remaining_s_def trunc_def demo_lease_dict_def cli_request_def Let_def)
  moreover have "fst (dispatch (demo_env 0) root_user ?req demo_daemon) =
      Inr r" if "fst (handle_pause (demo_env 0) root_user ?req demo_daemon) = Inr r" for r
    using that
    by (auto simp: dispatch_def run_cmd_def all_cmds_def root_cmds_def whitelist_cmds_def any_cmds_def
        is_whitelisted_def is_root_def root_user_def cli_request_def pause_upper split: prod.splits)
  ultimately show ?thesis by simp
qed

lemma demo_cli_answer:
  "daemon_call (demo_env 0) root_user demo_daemon ''PAUSE'' (pause_args_of [7] 600) =
     Inr (response_to_dict pause_answer)"
  by (simp add: daemon_call_def demo_cli_dispatch)

lemma demo_cli_leased:
  "leased_until 0 7 600 (y_leases (dm_sys
     (daemon_after (demo_env 0) root_user demo_daemon ''PAUSE'' (pause_args_of [7] 600))))"
proof -
  let ?req = "cli_request ''PAUSE'' (pause_args_of [7] 600)"
  obtain d' where d': "dispatch (demo_env 0) root_user ?req demo_daemon = (Inr pause_answer, d')"
    using demo_cli_dispatch by (metis prod.collapse)
  have "upper (rq_cmd ?req) = ''PAUSE''" by (simp add: cli_request_def pause_upper)
  from pause_granted_lemma [OF demo_run this d'] d' show ?thesis
    by (auto simp: success_def cli_request_def pause_args_of_def dict_get_def gpu_list_ints
        daemon_after_def demo_env_def root_user_def)
qed

lemma demo_cli_pause:
  "snd (pause_cmd plain_fmt 0 (daemon_call (demo_env 0) root_user demo_daemon) ''7'' ''10m'' False) = Done"
  by (simp add: pause_cmd_def or_fail_def demo_args do_call_def demo_cli_answer require_ok_def
      try_res_def py_get_def get_or_def dict_get_def response_to_dict_def success_def or_empty_def
      paused_line_def py_item_def demo_lease_dict_def wall_clock_def clock_text_def duration_text_def)

theorem pause_cmd_promise_witness:
  "\<exists>gs t r. parse_gpu_spec (PStr ''7'') = Inr gs \<and> parse_duration (PStr ''10m'') = Inr t \<and>
     daemon_call (demo_env 0) root_user demo_daemon ''PAUSE'' (pause_args_of gs t) = Inr (response_to_dict r) \<and>
     rs_ok r \<and> (\<forall>g \<in> set gs. leased_until 0 g (real_of_int t)
       (y_leases (dm_sys (daemon_after (demo_env 0) root_user demo_daemon ''PAUSE'' (pause_args_of gs t)))))"
  using pause_cmd_promise [OF demo_run _ demo_cli_pause, of "demo_env 0" root_user]
  by (auto simp: demo_env_def root_user_def split: if_splits)

section \<open>What \<open>--json\<close> hides\<close>

text \<open>\<open>ocp pause\<close> reports a refusal with exit code 1, but with \<open>--json\<close> the same refusal exits
  with 0: the exit code then says nothing about the pause.\<close>

theorem json_hides_refusal:
  assumes "parse_gpu_spec (PStr spec) = Inr gs" "parse_duration (PStr duration) = Inr t"
    and "call ''PAUSE'' (pause_args_of gs t) = Inr (response_to_dict r)" "built r" "\<not> rs_ok r"
  shows "snd (pause_cmd F now call spec duration False) = Fails 1 \<and>
    pause_cmd F now call spec duration True = ([Json (response_to_dict r)], Done)"
  using assms
  by (simp add: pause_cmd_def or_fail_def do_call_def require_ok_response print_json_def)

theorem json_hides_refusal_witness:
  "snd (pause_cmd plain_fmt 0 (\<lambda>_ _. Inr (response_to_dict (failure plain_fmt ''cli'' ''E_PAUSE_HELD'' [] PNone)))
     ''7'' ''10m'' False) = Fails 1"
  using json_hides_refusal [OF demo_args, of "\<lambda>_ _. Inr (response_to_dict (failure plain_fmt ''cli'' ''E_PAUSE_HELD'' [] PNone))"
      "failure plain_fmt ''cli'' ''E_PAUSE_HELD'' [] PNone" plain_fmt 0]
  by simp

section \<open>Printing the status\<close>

lemma rmap_all2: "rmap f xs = Inr ys \<Longrightarrow> list_all2 (\<lambda>x y. f x = Inr y) xs ys"
  by (induction xs arbitrary: ys) (auto simp: res_simps)

lemma print_each_end:
  assumes "list_all2 (\<lambda>x y. if P x then \<exists>o1. f y = Inr o1 else f y = Inl e) xs ys"
  shows "snd (print_each f ys) = (if \<forall>x \<in> set xs. P x then Done else Raised e)"
  using assms by induction (auto split: if_splits)

text \<open>A GPU has a line exactly when it has been sampled.\<close>

lemma gpu_line_sampled:
  assumes "gpu_status now s (g, st) = Inr v"
  shows "if d_last_sample st \<noteq> None then \<exists>o1. gpu_line v = Inr o1 else gpu_line v = Inl TypeError"
proof -
  obtain ls where ls: "lease_status now (lease_get (y_leases s) g) = Inr ls"
    using assms by (auto simp: gpu_status_def Let_def res_simps)
  then have lease: "\<exists>c. lease_cells ls = Inr c"
    by (auto simp: lease_status_def lease_cells_def py_item_def duration_text_def res_simps
        split: option.splits)
  have worker: "\<exists>c. worker_cells (worker_status now w) = Inr c" for w
    by (auto simp: worker_cells_def worker_status_def opt_val_def py_item_def split: option.splits)
  note defs = gpu_line_def health_cells_def py_item_def py_get_def get_or_def dict_get_def padded_def
    gib_def opt_val_def
  show ?thesis
  proof (cases "d_last_sample st")
    case None
    with assms ls show ?thesis by (auto simp: gpu_status_def Let_def defs)
  next
    case (Some x)
    obtain lc wc where "lease_cells ls = Inr lc" "worker_cells (worker_status now (worker_get (y_pool s) g)) = Inr wc"
      using lease worker by blast
    with assms ls Some show ?thesis
      by (auto simp: gpu_status_def Let_def defs split: option.splits)
  qed
qed

text \<open>\<open>ocp status\<close> prints the daemon's answer exactly when every watched GPU has been sampled at
  least once; otherwise, as between a reload that adds a GPU and the next tick, it ends with a
  TypeError, since None has no width.\<close>

theorem status_needs_samples:
  assumes "handle_status env d = Inr v"
  shows "snd (status_cmd F (\<lambda>_ _. Inr (response_to_dict (success ''cli'' v))) False) =
    (if \<forall>(g, st) \<in> set (k_states (y_ctl (dm_sys d))). d_last_sample st \<noteq> None then Done
     else Raised TypeError)"
proof -
  let ?s = "dm_sys d" and ?now = "sv_now env"
  let ?sts = "sort_key fst (k_states (y_ctl ?s))"
  obtain gpus where gpus: "rmap (gpu_status ?now ?s) ?sts = Inr gpus"
      and v: "v = PDict [(''daemon'', PDict [(''pid'', PInt (dm_pid d)),
            (''uptime_s'', PInt (trunc (?now - dm_started_at d))),
            (''socket'', PStr (sv_socket env)), (''nvml_ok'', PBool (dm_nvml_ok d))]),
         (''watched'', PList (map PInt (k_watched (y_ctl ?s)))), (''gpus'', PList gpus)]"
    using assms by (auto simp: handle_status_def Let_def res_simps)
  have all: "list_all2 (\<lambda>x y. if d_last_sample (snd x) \<noteq> None then \<exists>o1. gpu_line y = Inr o1
      else gpu_line y = Inl TypeError) ?sts gpus"
  proof (rule list_all2_mono [OF rmap_all2 [OF gpus]])
    fix x y
    assume "gpu_status ?now ?s x = Inr y"
    then show "if d_last_sample (snd x) \<noteq> None then \<exists>o1. gpu_line y = Inr o1
        else gpu_line y = Inl TypeError"
      using gpu_line_sampled [of ?now ?s "fst x" "snd x" y] by simp
  qed
  have ends: "snd (print_each gpu_line gpus) =
      (if \<forall>x \<in> set ?sts. d_last_sample (snd x) \<noteq> None then Done else Raised TypeError)"
    by (rule print_each_end [OF all])
  have "snd (status_cmd F (\<lambda>_ _. Inr (response_to_dict (success ''cli'' v))) False) =
      snd (print_each gpu_line gpus)"
    by (simp add: status_cmd_def do_call_def require_ok_def try_res_def py_get_def get_or_def
        dict_get_def response_to_dict_def success_def or_empty_def v duration_text_def)
  with ends show ?thesis by (auto split: prod.splits)
qed

lemma no_leases_status:
  assumes "ls_leases (y_leases (dm_sys d)) = []"
  shows "\<exists>v. handle_status env d = Inr v"
proof -
  have "gpu_status now (dm_sys d) x = Inr (projr (gpu_status now (dm_sys d) x))" for now x
    using assms by (auto simp: gpu_status_def lease_status_def lease_get_def Let_def split: prod.splits)
  then have "rmap (gpu_status now (dm_sys d)) xs = Inr (map (\<lambda>x. projr (gpu_status now (dm_sys d) x)) xs)" for now xs
    by (rule rmap_Inr_all)
  then show ?thesis by (simp add: handle_status_def Let_def)
qed

theorem status_needs_samples_witness:
  "\<exists>v. handle_status (demo_env 0) demo_daemon = Inr v \<and>
     snd (status_cmd plain_fmt (\<lambda>_ _. Inr (response_to_dict (success ''cli'' v))) False) = Raised TypeError"
proof -
  have states: "map_of (k_states (y_ctl (dm_sys demo_daemon))) 7 = Some (new_device 7)"
    by (simp add: demo_daemon_def startup_def demo_simps resolve_watched_def default_config_def
        GpuCfg_def kwarg_def load_history_def load_leases_def set_watched_states dm_record_def
        controller_init_def Let_def)
  have none: "\<not> (\<forall>(g, st) \<in> set (k_states (y_ctl (dm_sys demo_daemon))). d_last_sample st \<noteq> None)"
  proof
    assume "\<forall>(g, st) \<in> set (k_states (y_ctl (dm_sys demo_daemon))). d_last_sample st \<noteq> None"
    from bspec [OF this map_of_SomeD [OF states]] show False by (simp add: new_device_def)
  qed
  obtain v where v: "handle_status (demo_env 0) demo_daemon = Inr v"
    using no_leases_status [of demo_daemon "demo_env 0"] by (auto simp: demo_fields)
  from status_needs_samples [OF v, of plain_fmt] none v show ?thesis by auto
qed

section \<open>Starting and stopping\<close>

lemma wait_up_done: "snd (wait_up m k i) = Done \<Longrightarrow> \<exists>j < k. \<exists>p. live_pid m (i + j) = Inr (Some p)"
proof (induction k arbitrary: i)
  case (Suc k)
  then obtain x where x: "live_pid m i = Inr x"
    "snd (case x of Some p \<Rightarrow> ([pid_line ''ok: ocpd started (pid '' p], Done)
       | None \<Rightarrow> wait_up m k (Suc i)) = Done"
    by (auto simp: try_done)
  then consider p where "live_pid m i = Inr (Some p)"
    | "live_pid m i = Inr None" "snd (wait_up m k (Suc i)) = Done"
    by (cases x) auto
  then show ?case
  proof cases
    case 2
    from Suc.IH [OF 2(2)] obtain j p where "j < k" "live_pid m (Suc i + j) = Inr (Some p)" by blast
    then show ?thesis by (intro exI [of _ "Suc j"]) simp
  qed auto
qed simp

lemma wait_up_effects: "Launch a \<notin> set (fst (wait_up m k i))" "Kill p s \<notin> set (fst (wait_up m k i))"
  by (induction k arbitrary: i)
    (auto simp: fail_with_def pid_line_def try_res_def split: option.splits sum.splits)

lemma wait_down_done:
  "snd (wait_down m p k i) = Done \<Longrightarrow> \<exists>j < k. mv_kill m (i + j) p \<noteq> Delivered"
proof (induction k arbitrary: i)
  case (Suc k)
  then consider "mv_kill m i p \<noteq> Delivered" | "snd (wait_down m p k (Suc i)) = Done"
    by (auto simp: try_done pid_alive_def split: if_splits)
  then show ?case
  proof cases
    case 2
    from Suc.IH [OF 2] obtain j where "j < k" "mv_kill m (Suc i + j) p \<noteq> Delivered" by blast
    then show ?thesis by (intro exI [of _ "Suc j"]) simp
  qed auto
qed simp

lemma wait_down_effects: "Kill q s \<notin> set (fst (wait_down m p k i))"
  by (induction k arbitrary: i) (auto simp: fail_with_def try_res_def split: sum.splits)

text \<open>C38. \<open>ocp daemon on\<close> starts a process only for root and only when the pid file names no live
  one, and exits with 0 only after it has seen the pid file name a live one, at once or at one of 50
  looks. \<open>ocp daemon off\<close> signals only for root, only the live process the pid file names and only with
  SIGTERM; it exits with 0 only for root, and only when the pid file named no live process, or that
  process no longer existed when it was to be signalled, or it was signalled and at one of 50 looks
  no longer found alive. A process is live here when the kernel lets the command signal it.\<close>

theorem daemon_on_off:
  "(\<forall>a. Launch a \<in> set (fst (daemon_on m exe)) \<longrightarrow> mv_euid m = 0 \<and> live_pid m 0 = Inr None) \<and>
   (snd (daemon_on m exe) = Done \<longrightarrow>
      mv_euid m = 0 \<and> (\<exists>j \<le> 50. \<exists>p. live_pid m j = Inr (Some p))) \<and>
   (\<forall>p s. Kill p s \<in> set (fst (daemon_off m)) \<longrightarrow>
      mv_euid m = 0 \<and> live_pid m 0 = Inr (Some p) \<and> s = 15) \<and>
   (snd (daemon_off m) = Done \<longrightarrow> mv_euid m = 0 \<and>
      (live_pid m 0 = Inr None \<or>
       (\<exists>p. live_pid m 0 = Inr (Some p) \<and>
          (mv_kill m 1 p = NoProcess \<or>
           Kill p 15 \<in> set (fst (daemon_off m)) \<and> (\<exists>j < 50. mv_kill m (2 + j) p \<noteq> Delivered)))))"
proof (intro conjI allI impI)
  fix a
  assume "Launch a \<in> set (fst (daemon_on m exe))"
  then show "mv_euid m = 0" "live_pid m 0 = Inr None"
    by (auto simp: daemon_on_def require_root_def fail_with_def pid_line_def try_res_def
        split: if_splits option.splits sum.splits)
next
  assume fin: "snd (daemon_on m exe) = Done"
  then show "mv_euid m = 0" by (auto simp: daemon_on_def require_root_def split: if_splits)
  then consider p where "live_pid m 0 = Inr (Some p)" | "snd (wait_up m 50 1) = Done"
    using fin by (auto simp: daemon_on_def require_root_def try_done split: if_splits option.splits)
  then show "\<exists>j \<le> 50. \<exists>p. live_pid m j = Inr (Some p)"
  proof cases
    case 2
    from wait_up_done [OF this] obtain j p where "j < 50" "live_pid m (1 + j) = Inr (Some p)" by blast
    then show ?thesis by (intro exI [of _ "1 + j"]) auto
  qed auto
next
  fix p s
  assume "Kill p s \<in> set (fst (daemon_off m))"
  then show "mv_euid m = 0" "live_pid m 0 = Inr (Some p)" "s = 15"
    using wait_down_effects
    by (auto simp: daemon_off_def require_root_def fail_with_def emit_def try_res_def
        split: if_splits option.splits sum.splits kill_result.splits)
next
  assume fin: "snd (daemon_off m) = Done"
  then show root: "mv_euid m = 0" by (auto simp: daemon_off_def require_root_def split: if_splits)
  show "live_pid m 0 = Inr None \<or>
       (\<exists>p. live_pid m 0 = Inr (Some p) \<and>
          (mv_kill m 1 p = NoProcess \<or>
           Kill p 15 \<in> set (fst (daemon_off m)) \<and> (\<exists>j < 50. mv_kill m (2 + j) p \<noteq> Delivered)))"
    using fin root wait_down_done [of m _ 50 2]
    by (auto simp: daemon_off_def require_root_def try_done try_res_def emit_def
        split: option.splits kill_result.splits sum.splits)
qed

text \<open>A machine on which daemon 42 runs and goes away at the third look, and one on which it comes up
  at the second.\<close>

definition stopping_view :: machine_view where
  "stopping_view = \<lparr>mv_euid = 0, mv_text = (\<lambda>_. Some (''42'' @ [CHR 0x0A])),
     mv_kill = (\<lambda>i p. if i < 3 then Delivered else NoProcess), mv_launch = True\<rparr>"

definition starting_view :: machine_view where
  "starting_view = \<lparr>mv_euid = 0, mv_text = (\<lambda>i. if i < 2 then None else Some (''42'' @ [CHR 0x0A])),
     mv_kill = (\<lambda>i p. Delivered), mv_launch = True\<rparr>"

lemma view_pids:
  "live_pid stopping_view i = Inr (if i < 3 then Some 42 else None)"
  "live_pid starting_view i = Inr (if i < 2 then None else Some 42)"
proof -
  have pid: "read_pidfile (Some (''42'' @ [CHR 0x0A])) = Some 42" "read_pidfile None = None" by code_simp+
  show "live_pid stopping_view i = Inr (if i < 3 then Some 42 else None)"
    "live_pid starting_view i = Inr (if i < 2 then None else Some 42)"
    using pid by (auto simp: live_pid_def stopping_view_def starting_view_def pid_alive_def)
qed

lemma view_ends:
  "snd (daemon_on starting_view ''python'') = Done" "snd (daemon_off stopping_view) = Done"
proof -
  have "wait_up starting_view 50 1 = ([pid_line ''ok: ocpd started (pid '' 42], Done)"
    by (simp add: numeral_eq_Suc view_pids try_res_def)
  moreover have "mv_euid starting_view = 0" "mv_launch starting_view" by (simp_all add: starting_view_def)
  ultimately show "snd (daemon_on starting_view ''python'') = Done"
    by (simp add: daemon_on_def require_root_def view_pids try_res_def)
  have "mv_kill stopping_view i 42 = (if i < 3 then Delivered else NoProcess)" "mv_euid stopping_view = 0" for i
    by (simp_all add: stopping_view_def)
  moreover from this have "snd (wait_down stopping_view 42 50 2) = Done"
    by (simp add: numeral_eq_Suc try_res_def pid_alive_def)
  ultimately show "snd (daemon_off stopping_view) = Done"
    by (simp add: daemon_off_def require_root_def view_pids try_res_def)
qed

theorem daemon_on_off_witness:
  "(\<exists>j \<le> 50. \<exists>p. live_pid starting_view j = Inr (Some p)) \<and>
   Kill 42 15 \<in> set (fst (daemon_off stopping_view)) \<and>
   (\<exists>j < 50. mv_kill stopping_view (2 + j) 42 \<noteq> Delivered)"
proof -
  have "\<exists>j \<le> 50. \<exists>p. live_pid starting_view j = Inr (Some p)"
    using daemon_on_off [of starting_view "''python''"] view_ends(1) by blast
  moreover have "mv_kill stopping_view 1 42 \<noteq> NoProcess" by (simp add: stopping_view_def)
  ultimately show ?thesis
    using daemon_on_off [of stopping_view] view_ends(2) view_pids(1) [of 0] by auto
qed

end
