(* ===== verification/Wire.thy ===== *)
theory Wire
  imports Json CliRuns
begin

text \<open>
  A call of the command line over the socket: \<open>ipc/client.py\<close> and \<open>ipc/server.py\<close> with the JSON text
  of \<open>Json\<close> in between and the daemon's dispatcher behind. It is what \<open>daemon_call\<close> of \<open>CliRuns\<close>
  stands for.
\<close>

lemma call_dict_ok: "json_ok pr (call_dict cmd args) \<longleftrightarrow> json_ok pr (PDict args)"
  by (auto simp: call_dict_def)

text \<open>A client whose daemon has closed the connection without an answer.\<close>

lemma nothing_received:
  assumes "plain_chunks as" "arrived as = []"
  shows "call_reply C as = Inl (IPCClientError [Lit ''connection closed mid-frame''])"
proof -
  have "as = []" using assms by (cases as) (auto simp: plain_chunks_def)
  then show ?thesis by (simp add: call_reply_def recv_exact_def recv_loop.simps [of 4])
qed

text \<open>C16. A call over the wire is a call of the dispatcher. Let the request have at most 2^20 bytes, let
  request and answer be JSON values (no dates, no key twice) whose finite floats print as texts that
  read back, as \<open>repr\<close> documents, and let nothing time out. Then the daemon changes as it does for
  this one command of the user the kernel names. When the answer has at most 2^20 bytes, the command
  line gets exactly the daemon's answer, however its bytes are cut into pieces; when it has more, the
  ProtocolError of the server leaves the command line with the error of a closed connection, although
  the command has run.\<close>

theorem call_over_json:
  assumes "dispatch env (caller_from_creds getpwuid pid uid gid) (cli_request cmd args) d = (Inr r, d')"
    and "json_ok pr (PDict args)" "json_ok pr (response_to_dict r)"
    and "length (json_bytes pr (call_dict cmd args)) \<le> MAX_BODY_BYTES"
    and "on_client F (json_codec pr) uuid getpwuid (dispatch env) (Creds pid uid gid)
      (fst (client_call (json_codec pr) Connected path None cmd args as)) True d = ((out, err), t)"
    and "plain_chunks as" "arrived as = out"
  shows "t = daemon_after env (caller_from_creds getpwuid pid uid gid) d cmd args \<and>
    (if length (json_bytes pr (response_to_dict r)) \<le> MAX_BODY_BYTES
     then err = None \<and> snd (client_call (json_codec pr) Connected path None cmd args as) =
       daemon_call env (caller_from_creds getpwuid pid uid gid) d cmd args
     else (\<exists>m. err = Some (ProtocolError m)) \<and>
       snd (client_call (json_codec pr) Connected path None cmd args as) =
         Inl (IPCClientError [Lit ''connection closed mid-frame'']))"
proof -
  have ok: "json_ok pr (call_dict cmd args)" using assms(2) by (simp add: call_dict_ok)
  have handled: "dispatch env (caller_from_creds getpwuid pid uid gid)
      \<lparr>rq_cmd = cmd, rq_args = args, rq_id = ''cli'', rq_v = 1\<rparr> d = (Inr r, d')"
    using assms(1) by (simp add: cli_request_def PROTOCOL_VERSION_def)
  have reply: "response_to_bytes (json_codec pr) r = Inr (json_bytes pr (response_to_dict r))"
    using json_codec_lemma(1) [OF assms(3)] by (simp add: response_to_bytes_def encode_def)
  note request = json_codec_lemma [OF ok]
  note answer = json_codec_lemma [OF assms(3)]
  have after: "daemon_after env (caller_from_creds getpwuid pid uid gid) d cmd args = d'"
    using assms(1) by (simp add: daemon_after_def)
  show ?thesis
  proof (cases "length (json_bytes pr (response_to_dict r)) \<le> MAX_BODY_BYTES")
    case True
    have "t = d' \<and> err = None \<and>
        snd (client_call (json_codec pr) Connected path None cmd args as) = Inr (response_to_dict r)"
      by (rule call_lemma [OF request(1,2) assms(4) request(3) handled reply answer(2) True
            answer(3) assms(5-7)])
    with True assms(1) after show ?thesis by (simp add: daemon_call_def)
  next
    case False
    have small: "\<not> 2 ^ 32 \<le> length (json_bytes pr (call_dict cmd args))"
      using assms(4) by (simp add: MAX_BODY_BYTES_def)
    then have sent: "client_call (json_codec pr) Connected path None cmd args as =
        (frame (json_bytes pr (call_dict cmd args)), call_reply (json_codec pr) as)"
      using request(1) by (simp add: client_call_def)
    have read: "read_frame (frame (json_bytes pr (call_dict cmd args)) @ []) =
        (Inr (json_bytes pr (call_dict cmd args)), [])"
      by (rule frame_roundtrip_lemma [OF request(2) assms(4)])
    have "request_from_bytes F (json_codec pr) uuid (json_bytes pr (call_dict cmd args)) =
        Inr (cli_request cmd args)"
      using request(3) request_dict_roundtrip [of "cli_request cmd args"]
      by (simp add: request_from_bytes_def decode_def call_dict_def request_to_dict_def cli_request_def)
    then have "out = [] \<and> (\<exists>m. err = Some (ProtocolError m)) \<and> t = d'"
      using assms(1,5) read reply False
      by (auto simp: sent on_client_def send_response_def write_frame_def Let_def)
    with nothing_received [OF assms(6)] assms(7) after False sent show ?thesis by simp
  qed
qed

text \<open>An unknown command, for examples: the daemon's answer to it.\<close>

definition ping_answer :: response where
  "ping_answer = failure (hs_fmt plain_host) ''cli'' ''E_BAD_REQUEST'' [Lit ''unknown cmd: '', Lit ''PING''] PNone"

lemma ping_dispatch: "dispatch (demo_env 0) c (cli_request ''PING'' []) d = (Inr ping_answer, d)"
proof -
  have "upper ''PING'' = ''PING''" by code_simp
  then show ?thesis
    by (simp add: dispatch_def cli_request_def ping_answer_def all_cmds_def any_cmds_def
        whitelist_cmds_def root_cmds_def demo_env_def Let_def)
qed

lemma ping_dict:
  "response_to_dict ping_answer = PDict [(''v'', PInt 1), (''id'', PStr ''cli''), (''ok'', PBool False),
     (''error'', PDict [(''code'', PStr ''E_BAD_REQUEST''), (''msg'', PStr ''unknown cmd: PING'')])]"
  by (simp add: response_to_dict_def ping_answer_def failure_def render_def or_empty_def
      PROTOCOL_VERSION_def Let_def)

definition no_floats :: "real \<Rightarrow> string" where
  "no_floats r = []"

lemma ping_sizes:
  "length (json_bytes no_floats (call_dict ''PING'' [])) \<le> 1000"
  "length (json_bytes no_floats (response_to_dict ping_answer)) \<le> 1000"
  unfolding ping_dict by code_simp+

text \<open>A pause, whose answer holds the deadline as a float.\<close>

definition wire_floats :: "real \<Rightarrow> string" where
  "wire_floats r = (if r = 600 then ''600.0'' else ''0.0'')"

lemma wire_floats_print: "prints_back wire_floats 600"
  by (simp add: prints_back_def wire_floats_def lex_number_def int_part_def frac_part_def
      exp_part_def is_digit_def code_def py_float_of_str_def num_strip_def strip_by_def num_space_def
      ascii_space_def py_unsigned_float_def lower_def lower_char_def py_mantissa_def opt_digits_def
      undec_def scale10_def Let_def)

lemma pause_sizes:
  "length (json_bytes wire_floats (call_dict ''PAUSE'' (pause_args_of [7] 600))) \<le> 1000"
  "length (json_bytes wire_floats (response_to_dict pause_answer)) \<le> 1000"
  by code_simp+

theorem call_over_json_witness:
  "\<exists>as. snd (client_call (json_codec wire_floats) Connected ''/run/ocp/ocpd.sock'' None ''PAUSE''
       (pause_args_of [7] 600) as) = Inr (response_to_dict pause_answer) \<and>
     leased_until 0 7 600 (y_leases (dm_sys (snd (on_client plain_fmt (json_codec wire_floats) []
       (\<lambda>_. Some ''root'') (dispatch (demo_env 0)) (Creds 11 0 0)
       (fst (client_call (json_codec wire_floats) Connected ''/run/ocp/ocpd.sock'' None ''PAUSE''
         (pause_args_of [7] 600) as)) True demo_daemon))))"
proof -
  let ?C = "json_codec wire_floats" and ?args = "pause_args_of [7] 600"
  let ?as = "[Chunk (frame (json_bytes wire_floats (response_to_dict pause_answer)))]"
  let ?c = "caller_from_creds (\<lambda>_. Some ''root'') 11 0 0"
  have root: "?c = root_user" by (simp add: caller_from_creds_def root_user_def)
  have ok: "json_ok wire_floats (response_to_dict pause_answer)" "json_ok wire_floats (PDict ?args)"
    using wire_floats_print
    by (simp_all add: response_to_dict_def success_def demo_lease_dict_def pause_args_of_def ints_def
        or_empty_def)
  have small: "length (json_bytes wire_floats (call_dict ''PAUSE'' ?args)) \<le> MAX_BODY_BYTES"
    "length (json_bytes wire_floats (response_to_dict pause_answer)) \<le> MAX_BODY_BYTES"
    using pause_sizes by (simp_all add: MAX_BODY_BYTES_def)
  obtain d' where disp: "dispatch (demo_env 0) ?c (cli_request ''PAUSE'' ?args) demo_daemon =
      (Inr pause_answer, d')"
    using demo_cli_dispatch by (metis prod.collapse root)
  let ?served = "on_client plain_fmt ?C [] (\<lambda>_. Some ''root'') (dispatch (demo_env 0)) (Creds 11 0 0)
      (fst (client_call ?C Connected ''/run/ocp/ocpd.sock'' None ''PAUSE'' ?args ?as)) True demo_daemon"
  have call: "json_ok wire_floats (call_dict ''PAUSE'' ?args)" using ok(2) by (simp add: call_dict_ok)
  note bytes = json_codec_lemma [OF call]
  have sent: "fst (client_call ?C Connected ''/run/ocp/ocpd.sock'' None ''PAUSE'' ?args ?as) =
      frame (json_bytes wire_floats (call_dict ''PAUSE'' ?args))"
    using bytes(1) small(1) by (simp add: client_call_def MAX_BODY_BYTES_def)
  have read: "read_frame (frame (json_bytes wire_floats (call_dict ''PAUSE'' ?args)) @ []) =
      (Inr (json_bytes wire_floats (call_dict ''PAUSE'' ?args)), [])"
    by (rule frame_roundtrip_lemma [OF bytes(2) small(1)])
  have request: "request_from_bytes plain_fmt ?C [] (json_bytes wire_floats (call_dict ''PAUSE'' ?args)) =
      Inr (cli_request ''PAUSE'' ?args)"
    using bytes(3) request_dict_roundtrip [of "cli_request ''PAUSE'' ?args"]
    by (simp add: request_from_bytes_def decode_def call_dict_def request_to_dict_def cli_request_def)
  have "?served = ((frame (json_bytes wire_floats (response_to_dict pause_answer)), None), d')"
    unfolding sent using read request json_codec_lemma(1) [OF ok(1)] small(2) disp
    by (simp add: on_client_def Let_def send_response_def response_to_bytes_def encode_def
        write_frame_def)
  from call_over_json [OF disp ok(2,1) small(1) this] this small(2) demo_cli_leased
  show ?thesis by (auto simp: plain_chunks_def frame_def pack_I_def root demo_cli_answer)
qed

end
