(* ===== verification/Clients.thy ===== *)
theory Clients
  imports Wire
begin

text \<open>
  The daemon's server with any number of clients at once (\<open>UDSServer._on_client\<close> of
  \<open>src/src/ocp/ipc/server.py\<close>, one coroutine per connection). A client's bytes arrive in pieces, in
  between those of others and the events of \<open>Runs\<close>; its coroutine waits until the frame is complete,
  wrong, or cut off, and then runs to the answer without suspending, at some later moment.

  The lemmas: what happens to the daemon is a run of \<open>Runs\<close> in which each client's request is one
  event, and each client gets the answer it would get alone.
\<close>

section \<open>Connections\<close>

record connection_state =
  cn_peer :: peer
  cn_buf :: "byte list"
  cn_eof :: bool
  cn_reply :: "(byte list \<times> exn option) option"

record net =
  nt_conns :: "nat \<Rightarrow> connection_state option"
  nt_daemon :: daemon

text \<open>What surrounds one activation of a coroutine: \<open>alive\<close> is whether its peer still reads.\<close>

record respond_env =
  re_env :: serve_env
  re_uuid :: string
  re_alive :: bool

datatype net_event =
    Connect nat peer
  | Arrive nat "byte list"
  | HangUp nat
  | Reset nat
  | Respond nat respond_env
  | Internal event

definition is_serve :: "event \<Rightarrow> bool" where
  "is_serve e \<longleftrightarrow> (\<exists>env c req. e = Serve env c req)"

text \<open>Whether \<open>read_frame\<close> returns, with a body or an exception, on what has arrived.\<close>

definition settled :: "byte list \<Rightarrow> bool" where
  "settled buf \<longleftrightarrow> fst (read_frame buf) \<noteq> Inl IncompleteReadError"

definition can_answer :: "connection_state \<Rightarrow> bool" where
  "can_answer c \<longleftrightarrow> cn_reply c = None \<and> (settled (cn_buf c) \<or> cn_eof c \<or> cn_peer c \<in> {NoSocket, NoCreds})"

definition set_conn :: "nat \<Rightarrow> connection_state \<Rightarrow> net \<Rightarrow> net" where
  "set_conn i c n = n\<lparr>nt_conns := (nt_conns n)(i \<mapsto> c)\<rparr>"

definition serve_conn ::
    "codec \<Rightarrow> (int \<Rightarrow> string option) \<Rightarrow> respond_env \<Rightarrow> peer \<Rightarrow> byte list \<Rightarrow> daemon \<Rightarrow>
     (byte list \<times> exn option) \<times> daemon" where
  "serve_conn C getpwuid re p buf d =
     on_client (sv_fmt (re_env re)) C (re_uuid re) getpwuid (dispatch (re_env re)) p buf (re_alive re) d"

fun net_act :: "codec \<Rightarrow> (int \<Rightarrow> string option) \<Rightarrow> net_event \<Rightarrow> net \<Rightarrow> net option" where
  "net_act C gp (Connect i p) n =
     (if nt_conns n i = None
      then Some (set_conn i \<lparr>cn_peer = p, cn_buf = [], cn_eof = False, cn_reply = None\<rparr> n) else None)"
| "net_act C gp (Arrive i bs) n =
     (case nt_conns n i of
        Some c \<Rightarrow> if cn_eof c then None else Some (set_conn i (c\<lparr>cn_buf := cn_buf c @ bs\<rparr>) n)
      | None \<Rightarrow> None)"
| "net_act C gp (HangUp i) n =
     (case nt_conns n i of Some c \<Rightarrow> Some (set_conn i (c\<lparr>cn_eof := True\<rparr>) n) | None \<Rightarrow> None)"
| "net_act C gp (Reset i) n =
     (case nt_conns n i of
        Some c \<Rightarrow>
          if cn_reply c = None
          then Some (set_conn i (c\<lparr>cn_eof := True, cn_reply := Some ([], Some ConnectionLost)\<rparr>) n) else None
      | None \<Rightarrow> None)"
| "net_act C gp (Respond i re) n =
     (case nt_conns n i of
        Some c \<Rightarrow>
          if can_answer c
          then (case serve_conn C gp re (cn_peer c) (cn_buf c) (nt_daemon n) of
                  (reply, d) \<Rightarrow> Some (set_conn i (c\<lparr>cn_reply := Some reply\<rparr>) n\<lparr>nt_daemon := d\<rparr>))
          else None
      | None \<Rightarrow> None)"
| "net_act C gp (Internal e) n =
     (if is_serve e then None else Some (n\<lparr>nt_daemon := happen e (nt_daemon n)\<rparr>))"

fun net_acts :: "codec \<Rightarrow> (int \<Rightarrow> string option) \<Rightarrow> net_event list \<Rightarrow> net \<Rightarrow> net option" where
  "net_acts C gp [] n = Some n"
| "net_acts C gp (e # es) n = (case net_act C gp e n of None \<Rightarrow> None | Some n' \<Rightarrow> net_acts C gp es n')"

definition no_clients :: "daemon \<Rightarrow> net" where
  "no_clients d = \<lparr>nt_conns = (\<lambda>_. None), nt_daemon = d\<rparr>"

section \<open>One client alone\<close>

text \<open>Everything a client sends in a run, and who it is.\<close>

fun sent_by :: "nat \<Rightarrow> net_event list \<Rightarrow> byte list" where
  "sent_by i [] = []"
| "sent_by i (Arrive j bs # es) = (if i = j then bs @ sent_by i es else sent_by i es)"
| "sent_by i (_ # es) = sent_by i es"

fun peer_of :: "nat \<Rightarrow> net_event list \<Rightarrow> peer" where
  "peer_of i [] = NoSocket"
| "peer_of i (Connect j p # es) = (if i = j then p else peer_of i es)"
| "peer_of i (_ # es) = peer_of i es"

text \<open>The request the server makes of a client's bytes, as an event of \<open>Runs\<close>.\<close>

definition request_event ::
    "codec \<Rightarrow> (int \<Rightarrow> string option) \<Rightarrow> respond_env \<Rightarrow> peer \<Rightarrow> byte list \<Rightarrow> event list" where
  "request_event C gp re p input =
     (case p of
        Creds pid uid gid \<Rightarrow>
          (case fst (read_frame input) of
             Inl e \<Rightarrow> []
           | Inr body \<Rightarrow>
               (case request_from_bytes (sv_fmt (re_env re)) C (re_uuid re) body of
                  Inl e \<Rightarrow> []
                | Inr req \<Rightarrow> [Serve (re_env re) (caller_from_creds gp pid uid gid) req]))
      | _ \<Rightarrow> [])"

text \<open>The sequential history of a run: its answers and internal events, in order, each request read
  from all that its client ever sends.\<close>

fun history_of ::
    "codec \<Rightarrow> (int \<Rightarrow> string option) \<Rightarrow> (nat \<Rightarrow> peer) \<Rightarrow> (nat \<Rightarrow> byte list) \<Rightarrow> net_event list \<Rightarrow> event list"
  where
  "history_of C gp who what [] = []"
| "history_of C gp who what (Respond i re # es) =
     request_event C gp re (who i) (what i) @ history_of C gp who what es"
| "history_of C gp who what (Internal e # es) = e # history_of C gp who what es"
| "history_of C gp who what (_ # es) = history_of C gp who what es"

lemma history_append:
  "history_of C gp who what (es @ es') = history_of C gp who what es @ history_of C gp who what es'"
  by (induction es rule: history_of.induct [where ?a0.0 = C and ?a1.0 = gp and ?a2.0 = who and ?a3.0 = what]) auto

lemma readexactly_more:
  "fst (readexactly k s) \<noteq> Inl IncompleteReadError \<Longrightarrow>
   fst (readexactly k (s @ t)) = fst (readexactly k s) \<and> snd (readexactly k (s @ t)) = snd (readexactly k s) @ t"
  by (auto simp: readexactly_def split: if_splits)

text \<open>What follows the frame does not matter.\<close>

lemma settled_more: "settled buf \<Longrightarrow> fst (read_frame (buf @ extra)) = fst (read_frame buf)"
proof (cases "readexactly 4 buf")
  case (Pair h rest)
  assume s: "settled buf"
  then have "h \<noteq> Inl IncompleteReadError" using Pair by (auto simp: settled_def read_frame_def)
  then have "readexactly 4 (buf @ extra) = (h, rest @ extra)"
    using readexactly_more [of 4 buf extra] Pair by (auto simp: prod_eq_iff)
  then show ?thesis
    using s Pair readexactly_more [of _ rest extra]
    by (auto simp: settled_def read_frame_def Let_def split: sum.splits)
qed

lemma serve_conn_more:
  assumes "settled buf \<or> extra = [] \<or> p \<in> {NoSocket, NoCreds}"
  shows "serve_conn C gp re p (buf @ extra) d = serve_conn C gp re p buf d"
  using assms settled_more [of buf extra] by (cases p) (auto simp: serve_conn_def on_client_def)

lemma serve_conn_event:
  "snd (serve_conn C gp re p input d) = fold happen (request_event C gp re p input) d"
  by (auto simp: serve_conn_def on_client_def request_event_def Let_def split: peer.splits sum.splits prod.splits)

section \<open>Runs of the server\<close>

text \<open>What a step does to a connection that is there, and to one that is not.\<close>

lemma net_act_conn:
  assumes "net_act C gp e n = Some n'" "nt_conns n i = Some c"
  shows "\<exists>c'. nt_conns n' i = Some c' \<and> cn_peer c' = cn_peer c \<and> cn_buf c' = cn_buf c @ sent_by i [e] \<and>
    (cn_eof c \<longrightarrow> cn_eof c' \<and> sent_by i [e] = []) \<and> (cn_reply c \<noteq> None \<longrightarrow> cn_reply c' = cn_reply c) \<and>
    (cn_reply c' = cn_reply c \<or> (\<exists>re. e = Respond i re) \<or>
      e = Reset i \<and> cn_reply c' = Some ([], Some ConnectionLost))"
  using assms by (cases e) (auto simp: set_conn_def can_answer_def split: if_splits option.splits prod.splits)

lemma net_act_no_conn:
  assumes "net_act C gp e n = Some n'" "nt_conns n i = None"
  shows "nt_conns n' i = None \<and> sent_by i [e] = [] \<and> (\<forall>p. e \<noteq> Connect i p) \<and> (\<forall>re. e \<noteq> Respond i re) \<or>
    (\<exists>p. e = Connect i p \<and>
      nt_conns n' i = Some \<lparr>cn_peer = p, cn_buf = [], cn_eof = False, cn_reply = None\<rparr>)"
  using assms by (cases e) (auto simp: set_conn_def split: if_splits option.splits prod.splits)

lemma sent_by_cons: "sent_by i (e # es) = sent_by i [e] @ sent_by i es"
  by (cases e) auto

lemma net_acts_conn:
  assumes "net_acts C gp es n = Some n'" "nt_conns n i = Some c"
  shows "\<exists>c'. nt_conns n' i = Some c' \<and> cn_peer c' = cn_peer c \<and> cn_buf c' = cn_buf c @ sent_by i es \<and>
    (cn_eof c \<longrightarrow> sent_by i es = []) \<and> (cn_reply c \<noteq> None \<longrightarrow> cn_reply c' = cn_reply c)"
  using assms
proof (induction es arbitrary: n c)
  case (Cons e es)
  then obtain n1 where n1: "net_act C gp e n = Some n1" "net_acts C gp es n1 = Some n'"
    by (auto split: option.splits)
  from net_act_conn [OF n1(1) Cons.prems(2)] obtain c1 where c1: "nt_conns n1 i = Some c1"
    "cn_peer c1 = cn_peer c" "cn_buf c1 = cn_buf c @ sent_by i [e]"
    "cn_eof c \<longrightarrow> cn_eof c1 \<and> sent_by i [e] = []" "cn_reply c \<noteq> None \<longrightarrow> cn_reply c1 = cn_reply c"
    by blast
  from Cons.IH [OF n1(2) c1(1)] c1(2-) show ?case by (auto simp: sent_by_cons [of i e es])
qed simp

lemma net_acts_fresh:
  assumes "net_acts C gp es n = Some n'" "nt_conns n i = None" "nt_conns n' i = Some c'"
  shows "cn_peer c' = peer_of i es \<and> cn_buf c' = sent_by i es"
  using assms
proof (induction es arbitrary: n)
  case (Cons e es)
  then obtain n1 where n1: "net_act C gp e n = Some n1" "net_acts C gp es n1 = Some n'"
    by (auto split: option.splits)
  from net_act_no_conn [OF n1(1) Cons.prems(2)] show ?case
  proof
    assume *: "nt_conns n1 i = None \<and> sent_by i [e] = [] \<and> (\<forall>p. e \<noteq> Connect i p) \<and> (\<forall>re. e \<noteq> Respond i re)"
    then have "peer_of i (e # es) = peer_of i es" by (cases e) auto
    with Cons.IH [OF n1(2) _ Cons.prems(3)] * show ?thesis by (simp add: sent_by_cons [of i e es])
  next
    assume "\<exists>p. e = Connect i p \<and>
      nt_conns n1 i = Some \<lparr>cn_peer = p, cn_buf = [], cn_eof = False, cn_reply = None\<rparr>"
    then obtain p where "e = Connect i p"
      "nt_conns n1 i = Some \<lparr>cn_peer = p, cn_buf = [], cn_eof = False, cn_reply = None\<rparr>" by blast
    with net_acts_conn [OF n1(2) this(2)] Cons.prems(3) show ?thesis by auto
  qed
qed simp

text \<open>\<open>who\<close> and \<open>what\<close> are the peers and inputs of a run that ends in \<open>n'\<close>.\<close>

definition inputs :: "net \<Rightarrow> (nat \<Rightarrow> peer) \<Rightarrow> (nat \<Rightarrow> byte list) \<Rightarrow> bool" where
  "inputs n' who what \<longleftrightarrow> (\<forall>i c. nt_conns n' i = Some c \<longrightarrow> cn_peer c = who i \<and> cn_buf c = what i)"

text \<open>An answer given now is the answer to all the client ever sends.\<close>

lemma answer_now:
  assumes "nt_conns n i = Some c" "can_answer c" "net_act C gp (Respond i re) n = Some n1"
    and "net_acts C gp es n1 = Some n'" "inputs n' who what"
  shows "serve_conn C gp re (cn_peer c) (cn_buf c) d = serve_conn C gp re (who i) (what i) d"
proof -
  have "net_acts C gp (Respond i re # es) n = Some n'" using assms(3,4) by simp
  from net_acts_conn [OF this assms(1)] obtain c' where c': "nt_conns n' i = Some c'"
    "cn_peer c' = cn_peer c" "cn_buf c' = cn_buf c @ sent_by i es" "cn_eof c \<longrightarrow> sent_by i es = []"
    by auto
  then have "who i = cn_peer c" "what i = cn_buf c @ sent_by i es"
    using assms(5) by (auto simp: inputs_def)
  moreover have "settled (cn_buf c) \<or> sent_by i es = [] \<or> cn_peer c \<in> {NoSocket, NoCreds}"
    using assms(2) c'(4) by (auto simp: can_answer_def)
  ultimately show ?thesis using serve_conn_more by simp
qed

lemma net_act_daemon:
  assumes "net_act C gp e n = Some n1" "net_acts C gp es n1 = Some n'" "inputs n' who what"
  shows "nt_daemon n1 = fold happen (history_of C gp who what [e]) (nt_daemon n)"
proof (cases e)
  case (Respond i re)
  then obtain c where c: "nt_conns n i = Some c" "can_answer c"
    using assms(1) by (auto split: option.splits if_splits)
  have "nt_daemon n1 = snd (serve_conn C gp re (cn_peer c) (cn_buf c) (nt_daemon n))"
    using assms(1) c Respond by (auto split: prod.splits)
  also have "\<dots> = snd (serve_conn C gp re (who i) (what i) (nt_daemon n))"
    using answer_now [OF c _ assms(2,3)] assms(1) Respond by simp
  finally show ?thesis by (simp add: Respond serve_conn_event)
qed (use assms(1) in \<open>auto simp: set_conn_def split: option.splits if_splits\<close>)

lemma net_acts_daemon:
  assumes "net_acts C gp es n = Some n'" "inputs n' who what"
  shows "nt_daemon n' = fold happen (history_of C gp who what es) (nt_daemon n)"
  using assms(1)
proof (induction es arbitrary: n)
  case (Cons e es)
  then obtain n1 where n1: "net_act C gp e n = Some n1" "net_acts C gp es n1 = Some n'"
    by (auto split: option.splits)
  from Cons.IH [OF n1(2)] net_act_daemon [OF n1 assms(2)] show ?case
    using history_append [of C gp who what "[e]" es] by simp
qed simp

definition answered_in ::
    "codec \<Rightarrow> (int \<Rightarrow> string option) \<Rightarrow> (nat \<Rightarrow> peer) \<Rightarrow> (nat \<Rightarrow> byte list) \<Rightarrow> net_event list \<Rightarrow> daemon \<Rightarrow>
     nat \<Rightarrow> byte list \<times> exn option \<Rightarrow> bool" where
  "answered_in C gp who what es d i r \<longleftrightarrow>
     Reset i \<in> set es \<and> r = ([], Some ConnectionLost) \<or>
     (\<exists>es1 re es2. es = es1 @ Respond i re # es2 \<and>
        r = fst (serve_conn C gp re (who i) (what i) (fold happen (history_of C gp who what es1) d)))"

lemma answered_later:
  assumes "answered_in C gp who what es (fold happen (history_of C gp who what [e]) d) i r"
  shows "answered_in C gp who what (e # es) d i r"
proof (cases "Reset i \<in> set es \<and> r = ([], Some ConnectionLost)")
  case False
  then obtain es1 re es2 where *: "es = es1 @ Respond i re # es2"
    "r = fst (serve_conn C gp re (who i) (what i)
       (fold happen (history_of C gp who what es1) (fold happen (history_of C gp who what [e]) d)))"
    using assms unfolding answered_in_def by blast
  then have "e # es = (e # es1) @ Respond i re # es2"
    "r = fst (serve_conn C gp re (who i) (what i) (fold happen (history_of C gp who what (e # es1)) d))"
    using history_append [of C gp who what "[e]" es1] by simp_all
  then show ?thesis unfolding answered_in_def by blast
qed (simp add: answered_in_def)

lemma net_acts_replies:
  assumes "net_acts C gp es n = Some n'" "inputs n' who what"
    and "nt_conns n' i = Some c'" "cn_reply c' = Some r"
    and "\<forall>c. nt_conns n i = Some c \<longrightarrow> cn_reply c = None"
  shows "answered_in C gp who what es (nt_daemon n) i r"
  using assms(1,5)
proof (induction es arbitrary: n)
  case Nil
  with assms(3,4) show ?case by simp
next
  case (Cons e es)
  then obtain n1 where n1: "net_act C gp e n = Some n1" "net_acts C gp es n1 = Some n'"
    by (auto split: option.splits)
  have daemon: "nt_daemon n1 = fold happen (history_of C gp who what [e]) (nt_daemon n)"
    by (rule net_act_daemon [OF n1 assms(2)])
  have later: ?case if "\<forall>c. nt_conns n1 i = Some c \<longrightarrow> cn_reply c = None"
    using Cons.IH [OF n1(2) that] daemon by (simp add: answered_later)
  show ?case
  proof (cases "nt_conns n i")
    case None
    from net_act_no_conn [OF n1(1) this] show ?thesis by (intro later) auto
  next
    case (Some c)
    then have none: "cn_reply c = None" using Cons.prems(2) by simp
    from net_act_conn [OF n1(1) Some] obtain c1 where c1: "nt_conns n1 i = Some c1"
      "cn_reply c1 = cn_reply c \<or> (\<exists>re. e = Respond i re) \<or>
       e = Reset i \<and> cn_reply c1 = Some ([], Some ConnectionLost)" by blast
    have same: "cn_reply c1 = Some x \<Longrightarrow> r = x" for x
      using net_acts_conn [OF n1(2) c1(1)] assms(3,4) by auto
    consider "cn_reply c1 = None" | re where "e = Respond i re"
      | "e = Reset i" "cn_reply c1 = Some ([], Some ConnectionLost)" using c1(2) none by auto
    then show ?thesis
    proof cases
      case 1
      with c1(1) show ?thesis by (intro later) simp
    next
      case 2
      then have act: "can_answer c" "cn_reply c1 = Some (fst (serve_conn C gp re (cn_peer c) (cn_buf c) (nt_daemon n)))"
        using n1(1) Some c1(1) by (auto simp: set_conn_def split: if_splits prod.splits)
      have "serve_conn C gp re (cn_peer c) (cn_buf c) (nt_daemon n) =
          serve_conn C gp re (who i) (what i) (nt_daemon n)"
        using answer_now [OF Some act(1) _ n1(2) assms(2)] n1(1) 2 by simp
      with same [OF act(2)] 2 have "e # es = [] @ Respond i re # es"
        "r = fst (serve_conn C gp re (who i) (what i) (fold happen (history_of C gp who what []) (nt_daemon n)))"
        by simp_all
      then show ?thesis unfolding answered_in_def by blast
    next
      case 3
      with same show ?thesis by (auto simp: answered_in_def)
    qed
  qed
qed

text \<open>C17. However the bytes of any number of clients interleave, in pieces of any size, with each other and
  with whatever else happens, the daemon goes through a sequential run: the requests one at a time,
  each read from everything its client ever sends and each between the arrival of its last byte and
  its answer. Every client gets the answer it would get alone at that point of the run, unless its
  connection is reset. So what holds in every run of the daemon holds with clients at work.\<close>

theorem clients_linearizable:
  assumes "net_acts C gp es (no_clients d) = Some n"
  shows "nt_daemon n = fold happen (history_of C gp (\<lambda>i. peer_of i es) (\<lambda>i. sent_by i es) es) d \<and>
    (\<forall>i c r. nt_conns n i = Some c \<longrightarrow> cn_reply c = Some r \<longrightarrow>
       answered_in C gp (\<lambda>i. peer_of i es) (\<lambda>i. sent_by i es) es d i r) \<and>
    (daemon_run d \<longrightarrow> daemon_run (nt_daemon n))"
proof -
  have ins: "inputs n (\<lambda>i. peer_of i es) (\<lambda>i. sent_by i es)"
    using net_acts_fresh [OF assms] by (simp add: inputs_def no_clients_def)
  have runs: "daemon_run d \<Longrightarrow> daemon_run (fold happen evs d)" for evs d
    by (induction evs arbitrary: d) (simp_all add: daemon_run.event)
  show ?thesis
    using net_acts_daemon [OF assms ins] net_acts_replies [OF assms ins] runs
    by (auto simp: no_clients_def)
qed

text \<open>Two clients: one sends a request in two pieces, the other has no credentials.\<close>

definition ping_frame :: "byte list" where
  "ping_frame = frame (json_bytes no_floats (call_dict ''PING'' []))"

definition demo_respond :: respond_env where
  "demo_respond = \<lparr>re_env = demo_env 0, re_uuid = [], re_alive = True\<rparr>"

definition demo_traffic :: "net_event list" where
  "demo_traffic =
     [Connect 0 (Creds 10 1001 100), Arrive 0 (take 3 ping_frame), Connect 1 NoCreds,
      Respond 1 demo_respond, Arrive 0 (drop 3 ping_frame), Respond 0 demo_respond]"

lemma ping_settled: "settled ping_frame"
proof -
  have ok: "json_ok no_floats (call_dict ''PING'' [])" by (simp add: call_dict_def)
  have "length (json_bytes no_floats (call_dict ''PING'' [])) \<le> MAX_BODY_BYTES"
    using ping_sizes by (simp add: MAX_BODY_BYTES_def)
  from frame_roundtrip_lemma [OF json_codec_lemma(2) [OF ok] this, of "[]"] show ?thesis
    by (simp add: settled_def ping_frame_def)
qed

lemma serve_conn_no_creds: "serve_conn C gp re NoCreds buf d = (([], None), d)"
  by (simp add: serve_conn_def on_client_def)

theorem clients_linearizable_witness:
  "\<exists>n. net_acts (json_codec no_floats) (\<lambda>_. None) demo_traffic (no_clients demo_daemon) = Some n \<and>
     nt_daemon n = fold happen (history_of (json_codec no_floats) (\<lambda>_. None)
       (\<lambda>i. peer_of i demo_traffic) (\<lambda>i. sent_by i demo_traffic) demo_traffic) demo_daemon"
proof -
  obtain n where n: "net_acts (json_codec no_floats) (\<lambda>_. None) demo_traffic (no_clients demo_daemon) = Some n"
    using ping_settled serve_conn_no_creds
    by (cases "serve_conn (json_codec no_floats) (\<lambda>_. None) demo_respond (Creds 10 1001 100)
          ping_frame demo_daemon")
      (auto simp: demo_traffic_def no_clients_def set_conn_def can_answer_def)
  from clients_linearizable [OF n] n show ?thesis by blast
qed

end
