(* ===== verification/Loops.thy ===== *)
theory Loops
  imports Runs
begin

text \<open>
  The two background loops of the daemon and its clock (\<open>_monitor_loop\<close>, \<open>_lease_expiry_loop\<close> and
  \<open>_setup_signals\<close> of \<open>src/src/ocp/daemon.py\<close>). A loop is a coroutine that sleeps until a time and is
  then run by the event loop, not later than \<open>lag\<close> after it; in between happen the events of \<open>Runs\<close>,
  each at its time. The monotonic clock and the wall clock are taken to advance together.

  The lemmas: a lease is gone soon after its deadline, by the sweeps of either loop, whatever the disk
  does; but one failed write ends the expiry loop for good.
\<close>

datatype coroutine = Asleep pyfloat | Over "exn option"

record loops =
  lo_daemon :: daemon
  lo_monitor :: coroutine
  lo_expiry :: coroutine
  lo_stop :: bool
  lo_now :: real

fun later :: "real \<Rightarrow> pyfloat \<Rightarrow> pyfloat" where
  "later now (Fin r) = Fin (now + r)"
| "later now x = x"

text \<open>\<open>wait_for\<close> until the stop, with the configured interval as timeout.\<close>

definition poll_sleep :: "real \<Rightarrow> daemon \<Rightarrow> coroutine" where
  "poll_sleep now d =
     (case num_of (poll_interval_s (general (dm_cfg d))) of
        None \<Rightarrow> Over (Some TypeError)
      | Some x \<Rightarrow> Asleep (later now x))"

definition lease_sleep :: "real \<Rightarrow> daemon \<Rightarrow> coroutine" where
  "lease_sleep now d = Asleep (later now (expiry_sleep now (y_leases (dm_sys d))))"

text \<open>One activation of each loop, from the end of its sleep to the start of the next.\<close>

definition monitor_wake :: "tick_env \<Rightarrow> loops \<Rightarrow> loops" where
  "monitor_wake env s =
     (if lo_stop s then s\<lparr>lo_monitor := Over None\<rparr>
      else let d = daemon_tick env (lo_daemon s)
           in s\<lparr>lo_daemon := d, lo_monitor := poll_sleep (t_now env) d\<rparr>)"

definition expiry_wake :: "bool \<Rightarrow> real \<Rightarrow> loops \<Rightarrow> loops" where
  "expiry_wake io now s =
     (if lo_stop s then s\<lparr>lo_expiry := Over None\<rparr>
      else case expiry_round io now (lo_daemon s) of
        (Some e, d) \<Rightarrow> s\<lparr>lo_daemon := d, lo_expiry := Over (Some e)\<rparr>
      | (None, d) \<Rightarrow> s\<lparr>lo_daemon := d, lo_expiry := lease_sleep now d\<rparr>)"

text \<open>The tasks as \<open>run\<close> creates them: the monitor loop begins with a tick, the other with a sleep.\<close>

definition start_loops :: "real \<Rightarrow> daemon \<Rightarrow> loops" where
  "start_loops now d =
     \<lparr>lo_daemon = d, lo_monitor = Asleep (Fin now), lo_expiry = lease_sleep now d, lo_stop = False, lo_now = now\<rparr>"

section \<open>Timed runs\<close>

datatype loop_event =
    MonitorWake tick_env
  | ExpiryWake bool
  | Event event
  | StopSignal
  | Pass

definition due :: "real \<Rightarrow> bool \<Rightarrow> coroutine \<Rightarrow> bool" where
  "due now stop c \<longleftrightarrow> (case c of Asleep w \<Rightarrow> stop \<or> w \<le> Fin now | Over e \<Rightarrow> False)"

text \<open>The events other than those of the two loops, each with the clock reading of its time.\<close>

fun at_time :: "real \<Rightarrow> event \<Rightarrow> bool" where
  "at_time now (Serve env c req) = (sv_now env = now)"
| "at_time now (Tick env) = False"
| "at_time now (Expiry io t) = False"
| "at_time now (Sighup env) = (sv_now env = now)"
| "at_time now (PoolTask t b task) = (t = now)"
| "at_time now (WorkerExit po rc) = True"
| "at_time now (WriteHistory io) = True"

fun loop_act :: "real \<Rightarrow> loop_event \<Rightarrow> loops \<Rightarrow> loops option" where
  "loop_act now (MonitorWake env) s =
     (if due now (lo_stop s) (lo_monitor s) \<and> t_now env = now \<and> t_wall env = now
      then Some (monitor_wake env s) else None)"
| "loop_act now (ExpiryWake io) s =
     (if due now (lo_stop s) (lo_expiry s) then Some (expiry_wake io now s) else None)"
| "loop_act now (Event e) s =
     (if at_time now e then Some (s\<lparr>lo_daemon := happen e (lo_daemon s)\<rparr>) else None)"
| "loop_act now StopSignal s = Some (s\<lparr>lo_stop := True\<rparr>)"
| "loop_act now Pass s = Some s"

text \<open>Time does not pass a sleeping loop's wake by more than \<open>lag\<close>.\<close>

definition on_time :: "real \<Rightarrow> real \<Rightarrow> coroutine \<Rightarrow> bool" where
  "on_time lag now c \<longleftrightarrow> (case c of Asleep (Fin w) \<Rightarrow> now \<le> w + lag | _ \<Rightarrow> True)"

fun timed_run :: "real \<Rightarrow> (real \<times> loop_event) list \<Rightarrow> loops \<Rightarrow> loops option" where
  "timed_run lag [] s = Some s"
| "timed_run lag ((now, e) # es) s =
     (if lo_now s \<le> now \<and> on_time lag now (lo_monitor s) \<and> on_time lag now (lo_expiry s)
      then (case loop_act now e s of
              None \<Rightarrow> None | Some s' \<Rightarrow> timed_run lag es (s'\<lparr>lo_now := now\<rparr>))
      else None)"

section \<open>Leases after their deadline\<close>

text \<open>Every lease held ends after time \<open>c\<close>.\<close>

definition all_after :: "real \<Rightarrow> lease_store \<Rightarrow> bool" where
  "all_after c ls \<longleftrightarrow> (\<forall>g l. lease_get ls g = Some l \<longrightarrow> Fin c \<le> l_expires_at l)"

lemma fin_le_trans: "Fin c \<le> x \<Longrightarrow> c' \<le> c \<Longrightarrow> Fin c' \<le> x"
  by (cases x) auto

lemma all_after_mono: "all_after c ls \<Longrightarrow> c' \<le> c \<Longrightarrow> all_after c' ls"
  by (fastforce simp: all_after_def dest: fin_le_trans)

lemma sweep_after:
  assumes "map_ok (ls_leases ls)"
  shows "all_after now (snd (sweep_expired io now ls))"
  unfolding all_after_def
proof (intro allI impI)
  fix g l
  assume "lease_get (snd (sweep_expired io now ls)) g = Some l"
  then have l: "(g, l) \<in> set (ls_leases ls)" "g \<notin> set (expired_keys now (ls_leases ls))"
    by (auto simp: lease_get_def sweep_leases dest!: map_of_SomeD)
  then have "\<not> l_expires_at l \<le> Fin now" by (force simp: expired_keys_def)
  moreover have "l_expires_at l \<noteq> NaN" using assms l(1) by (auto simp: map_ok_def)
  ultimately show "Fin now \<le> l_expires_at l" by (simp add: pyfloat_not_le pyfloat_less_imp_le)
qed

lemma tick_after: "daemon_ok d \<Longrightarrow> all_after (t_wall env) (y_leases (dm_sys (daemon_tick env d)))"
  by (simp add: daemon_tick_def tick_leases swept_def sweep_and_record_frame start_tick_def
      daemon_ok_def sys_ok_def sweep_after)

lemma expiry_daemon: "y_leases (dm_sys (snd (expiry_round io now d))) = snd (sweep_expired io now (y_leases (dm_sys d)))"
  "dm_cfg (snd (expiry_round io now d)) = dm_cfg d"
  by (auto simp: expiry_round_def sweep_and_record_frame split: prod.splits dest!: arg_cong [where f = snd])

lemma expiry_after: "daemon_ok d \<Longrightarrow> all_after now (y_leases (dm_sys (snd (expiry_round io now d))))"
  by (simp add: expiry_daemon sweep_after daemon_ok_def sys_ok_def)

lemma sweep_keeps: "all_after c ls \<Longrightarrow> all_after c (snd (sweep_expired io now ls))"
  by (auto simp: all_after_def lease_get_def sweep_leases map_of_filter_key split: if_splits)

lemma acquire_keeps:
  assumes "all_after c ls" "c \<le> now" "0 \<le> dur"
  shows "all_after c (snd (acquire io uid user gs dur now ls))"
proof -
  have new: "Fin c \<le> l_expires_at (new_lease uid user dur now (ls_leases ls) g)" for g
  proof -
    have later: "Fin c \<le> Fin (now + real_of_int dur)" using assms(2,3) by simp
    have max: "Fin c \<le> fmax x (Fin (now + real_of_int dur))" if "x = Fin 0 \<or> Fin c \<le> x" for x
      using that later by (cases x) (auto simp: fmax_def)
    show ?thesis
      using assms(1) max
      by (auto simp: new_lease_def Let_def all_after_def lease_get_def split: option.splits)
  qed
  with assms(1) show ?thesis
    by (auto simp: all_after_def lease_get_def acquire_leases grant_loop_lookup split: if_splits)
qed

lemma release_keeps: "all_after c ls \<Longrightarrow> all_after c (snd (release io uid gs r ls))"
proof -
  have loop: "map_of (snd (snd (release_loop uid r gs m))) g \<in> {None, map_of m g}" for m g
  proof (induction gs arbitrary: m)
    case (Cons a gs)
    from Cons.IH [of m] Cons.IH [of "ddel a m"] show ?case
      by (auto simp: case_prod_beta split: option.splits if_splits)
  qed simp
  assume "all_after c ls"
  moreover have "map_of (ls_leases (snd (release io uid gs r ls))) g \<in> {None, map_of (ls_leases ls) g}" for g
    using loop [of "ls_leases ls" g] by (simp add: release_leases)
  ultimately show ?thesis
    unfolding all_after_def lease_get_def by (metis insertE option.distinct(1) singletonD)
qed

lemma check_pause_nonneg: "check_pause F req d = Inr (Inr (gs, dur)) \<Longrightarrow> 0 \<le> dur"
proof -
  assume chk: "check_pause F req d = Inr (Inr (gs, dur))"
  let ?v = "dict_get (PDict (rq_args req)) ''duration_s'' PNone"
  have v: "py_int ?v = Inr dur" "num_of ?v \<noteq> None" "py_le ?v (PInt 0) \<noteq> Inr True"
    using chk by (auto simp: check_pause_def Let_def res_simps split: option.splits if_splits)
  show ?thesis
  proof (cases ?v)
    case (PFloat x)
    with v show ?thesis by (cases x) (auto simp: py_cmp_def trunc_def)
  qed (use v in \<open>auto simp: py_cmp_def split: if_splits\<close>)
qed

lemma run_cmd_after:
  assumes "all_after c (y_leases (dm_sys d))" "c \<le> sv_now env"
  shows "all_after c (y_leases (dm_sys (snd (run_cmd env u cmd req d))))"
proof -
  have "all_after c (y_leases (dm_sys (snd (handle_pause env u req d))))"
  proof (rule handle_pause_cases [of env u req d])
    fix gs dur f
    let ?s = "snd (pause_gpus (sv_io env) (sv_now env) (c_uid u) (c_user u) gs dur (dm_sys d))"
    assume chk: "check_pause (sv_fmt env) req d = Inr (Inr (gs, dur))" and "records f"
      and eq: "snd (handle_pause env u req d) = f (d\<lparr>dm_sys := ?s\<rparr>)"
    then have "y_leases (dm_sys (f (d\<lparr>dm_sys := ?s\<rparr>))) = y_leases ?s" by (simp add: records_def)
    with eq show ?thesis
      using assms acquire_keeps [OF assms(1,2) check_pause_nonneg [OF chk]]
        pause_leases [of "sv_io env" "sv_now env" "c_uid u" "c_user u" gs dur "dm_sys d"]
      by fastforce
  qed (use assms(1) in simp)
  moreover have "all_after c (y_leases (dm_sys (snd (handle_resume env u req d))))"
    using assms(1) release_keeps [OF assms(1)]
    by (rule_tac handle_resume_cases [of env u req d]) (simp_all add: records_def resume_leases)
  ultimately show ?thesis
    using assms(1) reload_keeps by (auto simp: run_cmd_def config_reload_same)
qed

lemma happen_after:
  assumes "all_after c (y_leases (dm_sys d))" "at_time now e" "c \<le> now"
  shows "all_after c (y_leases (dm_sys (happen e d)))"
proof (cases e)
  case (Serve env u req)
  then show ?thesis
    using assms run_cmd_after [OF assms(1), of env u "upper (rq_cmd req)" req]
      dispatch_runs [of env u req d] by auto
qed (use assms in \<open>simp_all add: reload_keeps on_pool_def daemon_task_sys\<close>)

text \<open>A configuration whose loops poll at least every \<open>P\<close> seconds.\<close>

definition polls_within :: "real \<Rightarrow> config \<Rightarrow> bool" where
  "polls_within P cfg \<longleftrightarrow> num_sat (\<lambda>x. x \<le> Fin P) (poll_interval_s (general cfg))"

definition reloads_within :: "real \<Rightarrow> serve_env \<Rightarrow> bool" where
  "reloads_within P env \<longleftrightarrow>
     (\<forall>cfg. load_config (sv_cfg_path env) (sv_cfg_file env) = Inr cfg \<longrightarrow> polls_within P cfg)"

fun loads_within :: "real \<Rightarrow> loop_event \<Rightarrow> bool" where
  "loads_within P (Event (Serve env c req)) = reloads_within P env"
| "loads_within P (Event (Sighup env)) = reloads_within P env"
| "loads_within P _ = True"

lemma apply_new_config_cfg: "dm_cfg (snd (apply_new_config env cfg actor d)) = cfg"
  by (auto simp: apply_new_config_def swap_config_def dm_record_def Let_def
      split: prod.splits option.splits sum.splits)

lemma reload_polls:
  "polls_within P (dm_cfg d) \<Longrightarrow> reloads_within P env \<Longrightarrow> polls_within P (dm_cfg (snd (reload_config env actor d)))"
  by (auto simp: reload_config_def record_bad_config_def reloads_within_def apply_new_config_cfg split: sum.splits)

lemma happen_polls:
  assumes "polls_within P (dm_cfg d)" "loads_within P (Event e)"
  shows "polls_within P (dm_cfg (happen e d))"
proof (cases e)
  case (Serve env u req)
  have "dm_cfg (snd (handle_pause env u req d)) = dm_cfg d"
    by (rule handle_pause_cases [of env u req d]) (simp_all add: records_def)
  moreover have "dm_cfg (snd (handle_resume env u req d)) = dm_cfg d"
    by (rule handle_resume_cases [of env u req d]) (simp_all add: records_def)
  ultimately have "polls_within P (dm_cfg (snd (run_cmd env u cmd req d)))" for cmd
    using assms reload_polls Serve by (auto simp: run_cmd_def config_reload_same)
  with assms(1) Serve show ?thesis
    using dispatch_runs [of env u req d] by (metis happen.simps(1))
next
  case (PoolTask now b t)
  then show ?thesis
    using assms(1) by (auto simp: daemon_task_def on_worker_exit_def Let_def split: prod.splits option.splits)
qed (use assms reload_polls in \<open>simp_all add: expiry_daemon daemon_tick_def on_pool_def\<close>)

text \<open>A sleep that began at \<open>c\<close>, when every lease still had to end, and is not overdue.\<close>

definition sleeps_since :: "real \<Rightarrow> real \<Rightarrow> real \<Rightarrow> lease_store \<Rightarrow> coroutine \<Rightarrow> bool" where
  "sleeps_since lag P now ls k \<longleftrightarrow>
     (\<exists>w c. k = Asleep (Fin w) \<and> w \<le> c + P \<and> c \<le> now \<and> now \<le> w + lag \<and> all_after c ls)"

definition loops_ok :: "real \<Rightarrow> real \<Rightarrow> loops \<Rightarrow> bool" where
  "loops_ok lag P s \<longleftrightarrow>
     daemon_ok (lo_daemon s) \<and> polls_within P (dm_cfg (lo_daemon s)) \<and>
     (\<not> lo_stop s \<longrightarrow>
        sleeps_since lag P (lo_now s) (y_leases (dm_sys (lo_daemon s))) (lo_monitor s) \<and>
        (sleeps_since lag 30 (lo_now s) (y_leases (dm_sys (lo_daemon s))) (lo_expiry s) \<or>
         (\<exists>e. lo_expiry s = Over e)))"

lemma expiry_sleep_bounds: "\<exists>r. expiry_sleep now ls = Fin r \<and> 0 \<le> r \<and> r \<le> 30"
proof -
  have "\<exists>r. py_min (fmax (Fin 0) x) (Fin 30) = Fin r \<and> 0 \<le> r \<and> r \<le> 30" for x
    by (cases x) (auto simp: py_min_def fmax_def)
  then show ?thesis by (auto simp: expiry_sleep_def split: list.splits)
qed

lemma lease_sleep_since:
  "all_after now (y_leases (dm_sys d)) \<Longrightarrow> 0 \<le> lag \<Longrightarrow>
   sleeps_since lag 30 now (y_leases (dm_sys d)) (lease_sleep now d)"
proof -
  assume *: "all_after now (y_leases (dm_sys d))" "0 \<le> lag"
  obtain r where "expiry_sleep now (y_leases (dm_sys d)) = Fin r" "0 \<le> r" "r \<le> 30"
    using expiry_sleep_bounds by blast
  with * show ?thesis
    unfolding sleeps_since_def lease_sleep_def
    by (intro exI [of _ "now + r"] exI [of _ now]) simp
qed

lemma poll_sleep_since:
  assumes "daemon_ok d" "polls_within P (dm_cfg d)" "all_after now (y_leases (dm_sys d))" "0 \<le> lag"
  shows "sleeps_since lag P now (y_leases (dm_sys d)) (poll_sleep now d)"
proof -
  have "num_sat (\<lambda>x. \<not> x \<le> Fin 0) (poll_interval_s (general (dm_cfg d)))"
    using assms(1) by (simp add: daemon_ok_def config_ok_def Let_def)
  then obtain x where "num_of (poll_interval_s (general (dm_cfg d))) = Some x" "\<not> x \<le> Fin 0" "x \<le> Fin P"
    using assms(2) by (auto simp: num_sat_def polls_within_def split: option.splits)
  with assms(3,4) show ?thesis
    by (cases x) (auto simp: sleeps_since_def poll_sleep_def intro!: exI [of _ now])
qed

lemma sleeps_later:
  "sleeps_since lag P now ls k \<Longrightarrow> now \<le> now' \<Longrightarrow> on_time lag now' k \<Longrightarrow>
   (\<And>c. all_after c ls \<Longrightarrow> c \<le> now' \<Longrightarrow> all_after c ls') \<Longrightarrow> sleeps_since lag P now' ls' k"
  by (fastforce simp: sleeps_since_def on_time_def)

lemma monitor_wake_ok:
  assumes "loops_ok lag P s" "0 \<le> lag" "lo_now s \<le> t_now env" "on_time lag (t_now env) (lo_expiry s)"
    and "t_wall env = t_now env"
  shows "loops_ok lag P ((monitor_wake env s)\<lparr>lo_now := t_now env\<rparr>)"
proof -
  let ?d = "lo_daemon s" and ?now = "t_now env"
  let ?d' = "daemon_tick env ?d"
  note inv = assms(1) [unfolded loops_ok_def]
  have ok: "daemon_ok ?d'" "polls_within P (dm_cfg ?d')"
    using inv happen_ok [of ?d "Tick env"] by (simp_all add: daemon_tick_def)
  have after: "all_after ?now (y_leases (dm_sys ?d'))" using tick_after [of ?d env] inv assms(5) by simp
  then have all: "\<And>c. c \<le> ?now \<Longrightarrow> all_after c (y_leases (dm_sys ?d'))" by (rule all_after_mono)
  show ?thesis
    using inv ok poll_sleep_since [OF ok after assms(2)] sleeps_later [OF _ assms(3,4)] all
    by (auto simp: loops_ok_def monitor_wake_def Let_def)
qed

lemma expiry_wake_ok:
  assumes "loops_ok lag P s" "0 \<le> lag" "lo_now s \<le> now" "on_time lag now (lo_monitor s)"
  shows "loops_ok lag P ((expiry_wake io now s)\<lparr>lo_now := now\<rparr>)"
proof -
  let ?d = "lo_daemon s"
  note inv = assms(1) [unfolded loops_ok_def]
  obtain x d' where r: "expiry_round io now ?d = (x, d')" by fastforce
  have ok: "daemon_ok d'" "polls_within P (dm_cfg d')"
    using inv happen_ok [of ?d "Expiry io now"] expiry_daemon(2) [of io now ?d] r by simp_all
  have after: "all_after now (y_leases (dm_sys d'))" using expiry_after [of ?d now io] inv r by simp
  then have all: "\<And>c. c \<le> now \<Longrightarrow> all_after c (y_leases (dm_sys d'))" by (rule all_after_mono)
  show ?thesis
    using inv ok lease_sleep_since [OF after assms(2)] sleeps_later [OF _ assms(3,4)] all r
    by (auto simp: loops_ok_def expiry_wake_def split: option.splits)
qed

lemma loop_act_ok:
  assumes "loops_ok lag P s" "0 \<le> lag" "lo_now s \<le> now"
    and "on_time lag now (lo_monitor s)" "on_time lag now (lo_expiry s)"
    and "loop_act now e s = Some s'" "loads_within P e"
  shows "loops_ok lag P (s'\<lparr>lo_now := now\<rparr>)"
proof -
  let ?d = "lo_daemon s"
  note inv = assms(1) [unfolded loops_ok_def]
  have keep: "sleeps_since lag Q now (y_leases (dm_sys d')) k"
    if "sleeps_since lag Q (lo_now s) (y_leases (dm_sys ?d)) k" "on_time lag now k"
      "\<And>c. all_after c (y_leases (dm_sys ?d)) \<Longrightarrow> c \<le> now \<Longrightarrow> all_after c (y_leases (dm_sys d'))" for Q d' k
    using sleeps_later [OF that(1) assms(3) that(2)] that(3) by blast
  show ?thesis
  proof (cases e)
    case (MonitorWake env)
    with assms(3,5,6) show ?thesis
      using monitor_wake_ok [OF assms(1,2), of env] by (auto split: if_splits)
  next
    case (ExpiryWake io)
    with assms(6) show ?thesis
      using expiry_wake_ok [OF assms(1-4), of io] by (auto split: if_splits)
  next
    case (Event ev)
    then have ev: "at_time now ev" "s' = s\<lparr>lo_daemon := happen ev ?d\<rparr>"
      using assms(6) by (auto split: if_splits)
    have "daemon_ok (happen ev ?d)" "polls_within P (dm_cfg (happen ev ?d))"
      using inv happen_ok happen_polls assms(7) Event by blast+
    then show ?thesis
      using inv keep [of P "lo_monitor s" "happen ev ?d"] keep [of 30 "lo_expiry s" "happen ev ?d"]
        happen_after [OF _ ev(1)] assms(4,5) ev(2)
      by (auto simp: loops_ok_def)
  next
    case StopSignal
    then show ?thesis using inv assms(6) by (auto simp: loops_ok_def)
  next
    case Pass
    then show ?thesis
      using inv keep [of P "lo_monitor s" ?d] keep [of 30 "lo_expiry s" ?d] assms(4-6)
      by (auto simp: loops_ok_def)
  qed
qed

lemma timed_run_ok:
  "loops_ok lag P s \<Longrightarrow> 0 \<le> lag \<Longrightarrow> timed_run lag es s = Some s' \<Longrightarrow>
   \<forall>x \<in> set es. loads_within P (snd x) \<Longrightarrow> loops_ok lag P s'"
proof (induction lag es s rule: timed_run.induct)
  case (2 lag now e es s)
  then obtain s1 where "lo_now s \<le> now" "on_time lag now (lo_monitor s)" "on_time lag now (lo_expiry s)"
      "loop_act now e s = Some s1" "timed_run lag es (s1\<lparr>lo_now := now\<rparr>) = Some s'"
    by (auto split: if_splits option.splits)
  with 2 loop_act_ok [of lag P s now e s1] show ?case by simp
qed simp

text \<open>The daemon after its startup: the leases it loads have not ended.\<close>

lemma loaded_after:
  assumes "ls_leases ls = []"
  shows "all_after now (snd (load_leases F now ls))"
proof -
  have loop: "\<forall>g l. map_of (snd (load_loop F now ds m out)) g = Some l \<longrightarrow> Fin now < l_expires_at l"
    if "\<forall>g l. map_of m g = Some l \<longrightarrow> Fin now < l_expires_at l" for ds m out
    using that
  proof (induction ds arbitrary: m out)
    case (Cons d ds)
    have "\<forall>g k. map_of (dset (l_gpu x) x m) g = Some k \<longrightarrow> Fin now < l_expires_at k"
      if "Fin now < l_expires_at x" for x using that Cons.prems by auto
    note dset = this
    show ?case
    proof (cases "lease_from_dict F d")
      case (Inl e)
      then show ?thesis using Cons.IH [OF Cons.prems] Cons.prems by simp
    next
      case (Inr x)
      show ?thesis
      proof (cases "Fin now < l_expires_at x")
        case True
        from Cons.IH [OF dset [OF True]] Inr True show ?thesis by simp
      next
        case False
        from Cons.IH [OF Cons.prems] Inr False show ?thesis by simp
      qed
    qed
  qed simp
  have "\<forall>g l. lease_get (snd (load_leases F now ls)) g = Some l \<longrightarrow> Fin now < l_expires_at l"
    using loop [of "[]"] assms
    by (auto simp: load_leases_def lease_get_def Let_def case_prod_beta split: state_file.splits pyval.splits)
  then show ?thesis by (auto simp: all_after_def intro: pyfloat_less_imp_le)
qed

lemma startup_after:
  assumes "daemon_init cfg pid t sf hf = Inr d0" "startup env nvml_ok d0 = (None, d)"
  shows "all_after (sv_now env) (y_leases (dm_sys d))"
proof -
  have "ls_leases (y_leases (dm_sys d0)) = []" using assms(1) by (auto simp: daemon_init_def res_simps)
  moreover have "y_leases (dm_sys d) = snd (load_leases (sv_fmt env) (sv_now env) (y_leases (dm_sys d0)))"
    using assms(2)
    by (auto simp: startup_def Let_def split: sum.splits prod.splits option.splits)
  ultimately show ?thesis by (simp add: loaded_after)
qed

lemma poll_positive:
  assumes "daemon_ok d" "polls_within P (dm_cfg d)"
  shows "0 < P"
proof -
  have "num_sat (\<lambda>x. \<not> x \<le> Fin 0) (poll_interval_s (general (dm_cfg d)))"
    using assms(1) by (simp add: daemon_ok_def config_ok_def Let_def)
  then obtain x where "\<not> x \<le> Fin 0" "x \<le> Fin P"
    using assms(2) by (auto simp: num_sat_def polls_within_def split: option.splits)
  then show ?thesis by (cases x) auto
qed

lemma boot_loops_ok:
  assumes "load_config path file = Inr cfg" "daemon_init cfg pid t sf hf = Inr d0"
    and "startup env nvml_ok d0 = (None, d)" "polls_within P (dm_cfg d)" "0 \<le> lag"
  shows "loops_ok lag P (start_loops (sv_now env) d)"
proof -
  have ok: "daemon_ok d" using daemon_run_ok [OF daemon_run.started [OF assms(1-3)]] .
  note after = startup_after [OF assms(2,3)]
  have "sleeps_since lag P (sv_now env) (y_leases (dm_sys d)) (Asleep (Fin (sv_now env)))"
    using after assms(5) poll_positive [OF ok assms(4)] unfolding sleeps_since_def
    by (intro exI [of _ "sv_now env"] exI [of _ "sv_now env"]) simp
  then show ?thesis
    using ok assms(4,5) lease_sleep_since [OF after] by (simp add: loops_ok_def start_loops_def)
qed

text \<open>C19. No lease outlives its deadline by much. In every run of a daemon from its boot, whatever
  requests, reloads, failing writes and process exits happen in it, a lease still held at any time
  before the stop has ended at most one poll interval (and the event loop's lag) before; and at most
  30 seconds (and that lag) before, as long as the expiry loop runs.\<close>

theorem leases_end_in_time:
  assumes "load_config path file = Inr cfg" "daemon_init cfg pid t sf hf = Inr d0"
    and "startup env nvml_ok d0 = (None, d)" "polls_within P (dm_cfg d)"
    and "timed_run lag es (start_loops (sv_now env) d) = Some s" "0 \<le> lag"
    and "\<forall>x \<in> set es. loads_within P (snd x)" "\<not> lo_stop s"
    and "lease_get (y_leases (dm_sys (lo_daemon s))) g = Some l"
  shows "Fin (lo_now s - P - lag) \<le> l_expires_at l \<and>
    ((\<exists>e. lo_expiry s = Over e) \<or> Fin (lo_now s - 30 - lag) \<le> l_expires_at l)"
proof -
  from timed_run_ok [OF boot_loops_ok [OF assms(1-4,6)] assms(6,5,7)] assms(8)
  have s: "sleeps_since lag P (lo_now s) (y_leases (dm_sys (lo_daemon s))) (lo_monitor s)"
    "sleeps_since lag 30 (lo_now s) (y_leases (dm_sys (lo_daemon s))) (lo_expiry s) \<or> (\<exists>e. lo_expiry s = Over e)"
    by (auto simp: loops_ok_def)
  have bound: "Fin (lo_now s - Q - lag) \<le> l_expires_at l"
    if k: "sleeps_since lag Q (lo_now s) (y_leases (dm_sys (lo_daemon s))) k" for Q k
  proof -
    obtain w c where c: "w \<le> c + Q" "lo_now s \<le> w + lag" "Fin c \<le> l_expires_at l"
      using k assms(9) by (auto simp: sleeps_since_def all_after_def)
    from c(1,2) show ?thesis by (intro fin_le_trans [OF c(3)]) simp
  qed
  from s(2) show ?thesis
  proof
    assume "sleeps_since lag 30 (lo_now s) (y_leases (dm_sys (lo_daemon s))) (lo_expiry s)"
    from bound [OF s(1)] bound [OF this] show ?thesis by simp
  next
    assume "\<exists>e. lo_expiry s = Over e"
    with bound [OF s(1)] show ?thesis by simp
  qed
qed

section \<open>The end of the expiry loop\<close>

text \<open>A write that fails when the expiry loop saves the store ends the loop, and nothing starts it
  again: from then on leases end only with the ticks.\<close>

theorem expiry_loop_dies:
  assumes "due now (lo_stop s) (lo_expiry s)" "\<not> lo_stop s"
    and "(g, l) \<in> set (ls_leases (y_leases (dm_sys (lo_daemon s))))" "l_expires_at l \<le> Fin now"
    and "timed_run lag ((now, ExpiryWake False) # es) s = Some s'"
  shows "lo_expiry s' = Over (Some OSError)"
proof -
  have keys: "expired_keys now (ls_leases (y_leases (dm_sys (lo_daemon s)))) \<noteq> []"
    using assms(3,4) by (force simp: expired_keys_def filter_empty_conv)
  have pop: "fst (pop_all gs m) \<noteq> []" if "gs \<noteq> []" "set gs \<subseteq> set (dkeys m)" for gs m
    using that by (cases gs) (auto simp: case_prod_beta split: option.splits simp: map_of_eq_None_iff)
  have "set (expired_keys now (ls_leases (y_leases (dm_sys (lo_daemon s))))) \<subseteq>
      set (dkeys (ls_leases (y_leases (dm_sys (lo_daemon s)))))"
    by (auto simp: expired_keys_def)
  from pop [OF keys this] have "fst (expiry_round False now (lo_daemon s)) = Some OSError"
    by (simp add: expiry_round_def sweep_and_record_def sweep_expired_def persist_def Let_def case_prod_beta)
  then have over: "lo_expiry (expiry_wake False now s) = Over (Some OSError)"
    using assms(2) by (auto simp: expiry_wake_def split: prod.splits)
  have act: "lo_expiry t' = lo_expiry t" if "loop_act n e t = Some t'" "lo_expiry t = Over x" for n e t t' x
    using that by (cases e) (auto simp: due_def monitor_wake_def Let_def split: if_splits)
  have stays: "lo_expiry t' = Over x" if "timed_run lag es t = Some t'" "lo_expiry t = Over x" for es t t' x
    using that act by (induction lag es t rule: timed_run.induct) (fastforce split: if_splits option.splits)+
  from assms(5) obtain t where "timed_run lag es t = Some s'" "lo_expiry t = lo_expiry (expiry_wake False now s)"
    by (auto split: if_splits)
  with stays over show ?thesis by metis
qed

section \<open>Examples\<close>

text \<open>The small daemon of \<open>Service\<close> gets a pause of GPU 7 for 600 seconds, and its loops sleep on.\<close>

definition demo_loops :: "(real \<times> loop_event) list" where
  "demo_loops =
     [(0, Event (Serve (demo_env 0) root_user pause_req)), (0, MonitorWake (idle_env 0)), (2, Pass)]"

definition demo_paused :: daemon where
  "demo_paused = happen (Serve (demo_env 0) root_user pause_req) demo_daemon"

lemma demo_paused_facts:
  "daemon_run demo_paused" "leased_until 0 7 600 (y_leases (dm_sys demo_paused))" "dm_cfg demo_paused = default_config"
proof -
  show "daemon_run demo_paused" unfolding demo_paused_def by (rule daemon_run.event [OF demo_run])
  show "leased_until 0 7 600 (y_leases (dm_sys demo_paused))" using demo_pause by (auto simp: demo_paused_def)
  have "dm_cfg (snd (handle_pause env u req d)) = dm_cfg d" for env u req d
    by (rule handle_pause_cases [of env u req d]) (simp_all add: records_def)
  moreover have "upper (rq_cmd pause_req) = ''PAUSE''" by (simp add: pause_req_def demo_upper)
  ultimately have "dm_cfg (snd (run_cmd (demo_env 0) root_user (upper (rq_cmd pause_req)) pause_req demo_daemon)) = default_config"
    by (simp add: run_cmd_def demo_fields)
  then show "dm_cfg demo_paused = default_config"
    using dispatch_runs [of "demo_env 0" root_user pause_req demo_daemon]
    by (auto simp: demo_paused_def demo_fields)
qed

lemma demo_poll: "num_of (poll_interval_s (general default_config)) = Some (Fin 2)"
  by (simp add: default_config_def GeneralCfg_def kwarg_def)

lemma demo_loops_run:
  "timed_run 0 demo_loops (start_loops 0 demo_daemon) =
     Some \<lparr>lo_daemon = daemon_tick (idle_env 0) demo_paused, lo_monitor = Asleep (Fin 2),
       lo_expiry = Asleep (Fin 30), lo_stop = False, lo_now = 2\<rparr>"
proof -
  have sleep: "lease_sleep 0 demo_daemon = Asleep (Fin 30)"
    by (simp add: lease_sleep_def expiry_sleep_def lease_all_def demo_fields)
  have "poll_sleep 0 (daemon_tick (idle_env 0) demo_paused) = Asleep (Fin 2)"
    by (simp add: poll_sleep_def daemon_tick_def demo_paused_facts demo_poll)
  moreover have "snd (dispatch (demo_env 0) root_user pause_req demo_daemon) = demo_paused"
    by (simp add: demo_paused_def)
  moreover have "sv_now (demo_env 0) = 0" "t_now (idle_env 0) = 0" "t_wall (idle_env 0) = 0"
    by (simp_all add: demo_env_def idle_env_def)
  ultimately show ?thesis
    using sleep by (simp add: demo_loops_def start_loops_def monitor_wake_def due_def on_time_def Let_def)
qed

theorem leases_end_in_time_witness:
  "\<exists>s l. timed_run 0 demo_loops (start_loops 0 demo_daemon) = Some s \<and> lo_now s = 2 \<and>
     lease_get (y_leases (dm_sys (lo_daemon s))) 7 = Some l \<and> Fin 0 \<le> l_expires_at l"
proof -
  have "leased_until 0 7 600 (y_leases (dm_sys (happen (Tick (idle_env 0)) demo_paused)))"
    using happen_leased [OF daemon_run_ok [OF demo_paused_facts(1)] demo_paused_facts(2), of "Tick (idle_env 0)"]
    by (simp add: idle_env_def)
  then obtain l where l: "lease_get (y_leases (dm_sys (daemon_tick (idle_env 0) demo_paused))) 7 = Some l"
    by (auto simp: leased_until_def split: option.splits)
  have run: "timed_run 0 demo_loops (start_loops (sv_now (demo_env 0)) demo_daemon) =
      Some \<lparr>lo_daemon = daemon_tick (idle_env 0) demo_paused, lo_monitor = Asleep (Fin 2),
        lo_expiry = Asleep (Fin 30), lo_stop = False, lo_now = 2\<rparr>"
    using demo_loops_run by (simp add: demo_env_def)
  have "reloads_within 2 (demo_env 0)" "polls_within 2 default_config"
    using load_config_absent demo_poll
    by (auto simp: reloads_within_def polls_within_def num_sat_def demo_env_def)
  then have loads: "\<forall>x \<in> set demo_loops. loads_within 2 (snd x)" "polls_within 2 (dm_cfg demo_daemon)"
    by (simp_all add: demo_loops_def demo_fields)
  have "Fin 0 \<le> l_expires_at l"
    using leases_end_in_time [OF load_config_absent fresh_init fresh_startup loads(2) run _ loads(1)] l by simp
  with run l show ?thesis by (auto simp: demo_env_def)
qed

definition ended_lease :: daemon where
  "ended_lease = demo_daemon\<lparr>dm_sys := (dm_sys demo_daemon)\<lparr>y_leases :=
     \<lparr>ls_leases = [(7, \<lparr>l_uid = 0, l_user = ''root'', l_gpu = 7, l_acquired_at = Fin 0,
        l_expires_at = Fin 600\<rparr>)], ls_disk = SNoFile\<rparr>\<rparr>\<rparr>"

theorem expiry_loop_dies_witness:
  "\<exists>s'. timed_run 0 [(600, ExpiryWake False)]
      \<lparr>lo_daemon = ended_lease, lo_monitor = Asleep (Fin 601), lo_expiry = Asleep (Fin 600),
       lo_stop = False, lo_now = 599\<rparr> = Some s' \<and> lo_expiry s' = Over (Some OSError)"
proof -
  let ?s = "\<lparr>lo_daemon = ended_lease, lo_monitor = Asleep (Fin 601), lo_expiry = Asleep (Fin 600),
       lo_stop = False, lo_now = 599\<rparr>"
  obtain s' where s': "timed_run 0 ((600, ExpiryWake False) # []) ?s = Some s'"
    by (simp add: due_def on_time_def)
  from expiry_loop_dies [OF _ _ _ _ this, of 7] s' show ?thesis
    by (auto simp: due_def ended_lease_def)
qed

end
