(* ===== verification/Occupation.thy ===== *)
theory Occupation
  imports Loops
begin

text \<open>
  What the program is for: an idle GPU is occupied, and in time. \<open>Policy\<close> shows that a worker starts
  only after an idle time; here a GPU that stays watched, unleased and quiet gets one, at the latest
  when the idle time it needs and two rounds of the monitor loop are over, whatever else happens in
  the daemon.
\<close>

section \<open>A tick that finds the GPU quiet\<close>

definition starts_workers :: "tick_env \<Rightarrow> bool" where
  "starts_workers env \<longleftrightarrow> (\<forall>argv. hs_launch (t_host env) argv \<noteq> None)"

definition samples_quiet :: "config \<Rightarrow> int \<Rightarrow> tick_env \<Rightarrow> bool" where
  "samples_quiet cfg g env \<longleftrightarrow>
     (\<forall>i. \<exists>sample. t_sample env i g = Inr sample \<and> \<not> has_error sample \<and> is_quiet cfg sample = Inr True)"

lemma spawn_launched:
  assumes "policy_cfg_ok c (p_cfg (y_pool s))" "starts_workers env" "map_of (p_procs (y_pool s)) g = None"
  shows "v_proc (dev_view (snd (spawn_worker env g st s)) g) \<noteq> None"
proof -
  let ?h = "t_host env"
  let ?r = "spawn (hs_fmt ?h) (hs_exe ?h) (hs_launch ?h) (t_wall env) g (y_pool s)"
  have "all_elems (\<lambda>x. x = PStr ''mem'' \<or> x = PStr ''util'') (workloads (p_cfg (y_pool s)))"
    using assms(1) policy_numbers(3) by (auto simp: policy_cfg_ok_def)
  then obtain argv where "build_argv (hs_fmt ?h) (hs_exe ?h) (p_cfg (y_pool s)) g = Inr argv"
    using build_argv_ok by blast
  moreover obtain pid where "hs_launch ?h argv = Some pid"
    using assms(2) by (auto simp: starts_workers_def)
  ultimately have "\<exists>w. fst ?r = Inr w" "map_of (p_procs (snd ?r)) g \<noteq> None"
    using assms(3) by (simp_all add: spawn_def Let_def map_of_eq_None_iff)
  then show ?thesis
    by (auto simp: spawn_worker_cases dev_view_def put_state_def auto_record_def)
qed

lemma step_quiet:
  assumes "seen_by env i g s = Quiet" "starts_workers env"
    and "policy_cfg_ok (k_cfg (y_ctl s)) (p_cfg (y_pool s))" "view_ok (dev_view s g)"
    and "v = dev_view (snd (tick_step env dt i g s)) g"
  shows "v_proc v \<noteq> None \<or>
    view_streak v = view_streak (dev_view s g) + dt \<and>
    may_start (k_cfg (y_ctl s)) (view_streak (dev_view s g) + dt) \<noteq> Inr True"
proof -
  obtain sample where sample: "t_sample env i g = Inr sample" "\<not> has_error sample"
      "\<not> covers (y_leases s) g" "is_quiet (k_cfg (y_ctl s)) sample = Inr True" "pid_for (y_pool s) g = None"
    using assms(1) by (auto simp: seen_by_def observe_def split: sum.splits if_splits)
  obtain b where b: "may_start (k_cfg (y_ctl s)) (view_streak (dev_view s g) + dt) = Inr b"
    using policy_numbers(2) assms(3) by (auto simp: policy_cfg_ok_def)
  have free: "map_of (p_procs (y_pool s)) g = None"
    using assms(4) sample(5) by (simp add: view_ok_def dev_view_def pid_for_def)
  have spawned: "v_proc (dev_view (snd (spawn_worker env g st s')) g) \<noteq> None" if "y_pool s' = y_pool s" for st s'
    by (rule spawn_launched [of _ s', unfolded that, OF assms(3,2) free])
  let ?st1 = "(device_of g s)\<lparr>d_last_sample := Some sample\<rparr>"
  let ?st2 = "?st1\<lparr>d_idle_streak_s := view_streak (dev_view s g) + dt\<rparr>"
  let ?s2 = "put_state g ?st2 (put_state g ?st1 s)"
  have step: "tick_step env dt i g s =
      (if b then spawn_worker env g ?st2 ?s2
       else (None, put_state g (?st2\<lparr>d_last_decision := ''waiting_idle''\<rparr>) ?s2))"
    using sample b by (simp add: tick_step_def apply_sample_def Let_def device_streak)
  show ?thesis
  proof (cases b)
    case True
    then show ?thesis using spawned [of ?s2 ?st2] by (simp add: assms(5) step)
  next
    case False
    then show ?thesis using b by (simp add: assms(5) step)
  qed
qed

lemma swept_covers: "\<not> covers (y_leases s) g \<Longrightarrow> \<not> covers (y_leases (swept env s)) g"
  by (auto simp: swept_def sweep_and_record_frame start_tick_def covers_def sweep_leases pop_all_snd)

lemma tick_quiet:
  assumes "sys_ok c s" "config_ok c" "starts_workers env" "t_io env" "samples_quiet c g env"
    and "g \<in> set (k_watched (y_ctl s))" "distinct (k_watched (y_ctl s))" "\<not> covers (y_leases s) g"
    and "v_proc (dev_view s g) = None" "v = dev_view (snd (tick_once env s)) g"
  shows "v_proc v \<noteq> None \<or>
    view_streak v = view_streak (dev_view s g) + tick_dt env s \<and> may_start c (view_streak v) \<noteq> Inr True"
proof -
  have cfg: "k_cfg (y_ctl s) = c" "p_cfg (y_pool s) = worker c" "pool_ok (y_pool s)"
    using assms(1) by (simp_all add: sys_ok_def)
  have works: "fst (tick_once env s) = None"
  proof (rule ccontr)
    assume "fst (tick_once env s) \<noteq> None"
    then obtain e where "fst (tick_once env s) = Some e" by blast
    from tick_fails_lemma [OF _ _ cfg(3) this] cfg(1,2) assms(2-4) show False
      unfolding starts_workers_def by metis
  qed
  from assms(7,6) show ?thesis
  proof (cases rule: tick_at [where env = env])
    case aborted
    with works show ?thesis by simp
  next
    case (reached i s')
    have shared: "k_cfg (y_ctl s') = c" "p_cfg (y_pool s') = worker c" "y_leases s' = y_leases (swept env s)"
      using reached(4) cfg by (simp_all add: tick_shared_def)
    have view: "view_ok (dev_view s g)" using cfg(3) by (rule pool_ok_view)
    then have "v_meta (dev_view s' g) = None" using assms(9) reached(3) by (simp add: view_ok_def)
    then have "pid_for (y_pool s') g = None" by (simp add: dev_view_def pid_for_def)
    moreover obtain sample where "t_sample env i g = Inr sample" "\<not> has_error sample" "is_quiet c sample = Inr True"
      using assms(5) unfolding samples_quiet_def by blast
    ultimately have "seen_by env i g s' = Quiet"
      using shared swept_covers [OF assms(8)] by (simp add: seen_by_def observe_def)
    from step_quiet [OF this assms(3) _ _ refl, of "tick_dt env s"] show ?thesis
      using reached(3,6) assms(2,10) shared view by (auto simp: policy_cfg_ok_def)
  qed
qed

section \<open>What other events do to the idle time\<close>

definition reconfigured :: "controller \<Rightarrow> controller \<Rightarrow> bool" where
  "reconfigured k k' \<longleftrightarrow> (\<exists>c. k' = k\<lparr>k_cfg := c\<rparr> \<or> (\<exists>gs. k' = set_watched gs (k\<lparr>k_cfg := c\<rparr>)))"

lemma reconfigured_refl [simp]: "reconfigured k k"
  unfolding reconfigured_def by (rule exI [of _ "k_cfg k"]) simp

lemma apply_config_ctl: "reconfigured (y_ctl (dm_sys d)) (y_ctl (dm_sys (snd (apply_new_config env cfg actor d))))"
  by (auto simp: apply_new_config_def swap_config_def dm_record_def replace_config_def Let_def
      reconfigured_def split: sum.splits prod.splits option.splits)

lemma reload_ctl: "reconfigured (y_ctl (dm_sys d)) (y_ctl (dm_sys (snd (reload_config env actor d))))"
  using apply_config_ctl
  by (auto simp: reload_config_def record_bad_config_def dm_record_def split: sum.splits)

lemma run_cmd_ctl: "reconfigured (y_ctl (dm_sys d)) (y_ctl (dm_sys (snd (run_cmd env c cmd req d))))"
proof -
  have "y_ctl (dm_sys (snd (handle_pause env c req d))) = y_ctl (dm_sys d)"
    using stop_fold
    by (rule_tac handle_pause_cases [of env c req d])
      (auto simp: records_def pause_gpus_def Let_def split: prod.splits sum.splits)
  moreover have "y_ctl (dm_sys (snd (handle_resume env c req d))) = y_ctl (dm_sys d)"
    by (rule handle_resume_cases [of env c req d])
      (auto simp: records_def resume_gpus_def split: prod.splits)
  ultimately show ?thesis
    by (auto simp: run_cmd_def config_reload_same reload_ctl)
qed

lemma happen_ctl:
  assumes "\<forall>env. e \<noteq> Tick env"
  shows "reconfigured (y_ctl (dm_sys d)) (y_ctl (dm_sys (happen e d)))"
proof (cases e)
  case (Serve env c req)
  then show ?thesis
    using dispatch_runs [of env c req d] run_cmd_ctl [of d env c "upper (rq_cmd req)" req] by auto
next
  case (PoolTask now b t)
  then show ?thesis
    by (auto simp: daemon_task_def on_worker_exit_def Let_def dm_record_def split: prod.splits option.splits)
qed (use assms in \<open>auto simp: reload_ctl expiry_round_def sweep_and_record_frame on_pool_def split_beta\<close>)

text \<open>What a reconfiguration leaves of a GPU's idle time.\<close>

lemma reconfigured_streak:
  assumes "reconfigured (y_ctl s) (y_ctl s')"
  shows "k_last_tick_at (y_ctl s') = k_last_tick_at (y_ctl s)"
    "view_streak (dev_view s' g) \<in> {0, view_streak (dev_view s g)}"
    "g \<in> set (k_watched (y_ctl s')) \<Longrightarrow> view_streak (dev_view s' g) = view_streak (dev_view s g)"
  using assms
  by (auto simp: reconfigured_def view_streak_def dev_view_def set_watched_states new_device_def
      split: option.splits if_splits)

section \<open>The clock\<close>

abbreviation lo_sys :: "loops \<Rightarrow> system" where
  "lo_sys s \<equiv> dm_sys (lo_daemon s)"

definition clock_ok :: "loops \<Rightarrow> bool" where
  "clock_ok s \<longleftrightarrow> (\<forall>t. k_last_tick_at (y_ctl (lo_sys s)) = Some t \<longrightarrow> t \<le> lo_now s) \<and>
     (\<forall>g. 0 \<le> view_streak (dev_view (lo_sys s) g))"

lemma tick_streak_nonneg:
  assumes "0 \<le> tick_dt env s" "0 \<le> view_streak (dev_view s g)"
  shows "0 \<le> view_streak (dev_view (snd (tick_once env s)) g)"
proof (cases "sweep_failed env s")
  case False
  have "0 \<le> view_streak (dev_view (snd (for_each (tick_step env (tick_dt env s)) 0 (k_watched (y_ctl s)) (swept env s))) g)"
    by (rule devices.loop_invariant [where P = "\<lambda>v. 0 \<le> view_streak v" and C = "\<lambda>_. True"])
      (use assms step_streak in \<open>simp_all\<close>)
  with False show ?thesis by (simp add: tick_once_cases)
qed (use assms in \<open>simp add: tick_once_cases\<close>)

lemma clock_reconfigured:
  assumes "clock_ok s" "lo_now s \<le> now" "reconfigured (y_ctl (lo_sys s)) (y_ctl (lo_sys s'))"
  shows "clock_ok (s'\<lparr>lo_now := now\<rparr>)"
proof -
  have "0 \<le> view_streak (dev_view (lo_sys s') g)" for g
    using reconfigured_streak(2) [OF assms(3), of g] assms(1) by (auto simp: clock_ok_def)
  with reconfigured_streak(1) [OF assms(3)] assms(1,2) show ?thesis by (fastforce simp: clock_ok_def)
qed

lemma other_act:
  assumes "loop_act now e s = Some s'" "\<forall>env. e \<noteq> MonitorWake env"
  shows "reconfigured (y_ctl (lo_sys s)) (y_ctl (lo_sys s')) \<and> lo_monitor s' = lo_monitor s"
proof (cases e)
  case (ExpiryWake io)
  then show ?thesis
    using assms(1)
    by (auto simp: expiry_wake_def expiry_round_def split_beta sweep_and_record_frame split: if_splits option.splits)
next
  case (Event ev)
  then have ev: "at_time now ev" "s' = s\<lparr>lo_daemon := happen ev (lo_daemon s)\<rparr>"
    using assms(1) by (auto split: if_splits)
  from this(1) have "\<forall>env. ev \<noteq> Tick env" by auto
  then show ?thesis using happen_ctl [of ev "lo_daemon s"] ev(2) by simp
qed (use assms in auto)

lemma clock_step:
  assumes "clock_ok s" "lo_now s \<le> now" "loop_act now e s = Some s'"
  shows "clock_ok (s'\<lparr>lo_now := now\<rparr>)"
proof (cases "\<exists>env. e = MonitorWake env")
  case True
  then obtain env where s': "s' = monitor_wake env s" "t_now env = now" using assms(3) by (auto split: if_splits)
  have "0 \<le> tick_dt env (lo_sys s)"
    using assms(1,2) s'(2) by (auto simp: tick_dt_def clock_ok_def split: option.splits)
  with assms(1) tick_streak_nonneg have "0 \<le> view_streak (dev_view (snd (tick_once env (lo_sys s))) g)" for g
    by (simp add: clock_ok_def)
  with assms(1,2) s' show ?thesis
    by (fastforce simp: clock_ok_def monitor_wake_def daemon_tick_def Let_def tick_ctl)
next
  case False
  with other_act [OF assms(3)] clock_reconfigured [OF assms(1,2)] show ?thesis by blast
qed

lemma timed_run_clock:
  "timed_run lag es s = Some s' \<Longrightarrow> clock_ok s \<Longrightarrow> clock_ok s'"
proof (induction lag es s rule: timed_run.induct)
  case (2 lag now e es s)
  then show ?case using clock_step [of s now e] by (auto split: if_splits option.splits)
qed simp

lemma startup_clock:
  assumes "daemon_init cfg pid t sf hf = Inr d0" "startup env nvml_ok d0 = (None, d)"
  shows "clock_ok (start_loops now d)"
proof -
  have "\<exists>gs. y_ctl (dm_sys d) = set_watched gs (controller_init cfg)"
    using assms
    by (auto simp: startup_def daemon_init_def res_simps dm_record_def Let_def
        split: sum.splits prod.splits option.splits)
  then have "reconfigured (controller_init cfg) (y_ctl (dm_sys d))"
    unfolding reconfigured_def by (auto intro!: exI [of _ cfg] simp: controller_init_def)
  then have "reconfigured (y_ctl ((dm_sys d)\<lparr>y_ctl := controller_init cfg\<rparr>)) (y_ctl (dm_sys d))" by simp
  from reconfigured_streak(1,2) [OF this] show ?thesis
    by (auto simp: clock_ok_def start_loops_def controller_init_def dev_view_def view_streak_def)
qed

section \<open>Occupied in time\<close>

text \<open>The GPU is watched and free, and the configuration in force wants workers after an idle time of at
  most \<open>D\<close>.\<close>

definition idle_at :: "real \<Rightarrow> int \<Rightarrow> loops \<Rightarrow> bool" where
  "idle_at D g s \<longleftrightarrow> \<not> lo_stop s \<and>
     g \<in> set (k_watched (y_ctl (lo_sys s))) \<and> distinct (k_watched (y_ctl (lo_sys s))) \<and>
     \<not> covers (y_leases (lo_sys s)) g \<and>
     num_sat (\<lambda>x. x \<le> Fin D) (idle_debounce_s (thresholds (dm_cfg (lo_daemon s)))) \<and>
     truthy (workloads (worker (dm_cfg (lo_daemon s))))"

definition quiet_wake :: "int \<Rightarrow> loops \<Rightarrow> loop_event \<Rightarrow> bool" where
  "quiet_wake g s e \<longleftrightarrow>
     (case e of
        MonitorWake env \<Rightarrow> starts_workers env \<and> t_io env \<and> samples_quiet (dm_cfg (lo_daemon s)) g env
      | _ \<Rightarrow> True)"

fun idle_through :: "real \<Rightarrow> int \<Rightarrow> (real \<times> loop_event) list \<Rightarrow> loops \<Rightarrow> bool" where
  "idle_through D g [] s \<longleftrightarrow> idle_at D g s"
| "idle_through D g ((now, e) # es) s \<longleftrightarrow> idle_at D g s \<and> quiet_wake g s e \<and>
     (case loop_act now e s of
        None \<Rightarrow> False | Some s' \<Rightarrow> idle_through D g es (s'\<lparr>lo_now := now\<rparr>))"

text \<open>The loop has not ticked since \<open>n\<close>, but will soon; or it has, from \<open>u\<close> on, and the GPU has been idle
  since, but not long enough.\<close>

definition waiting :: "real \<Rightarrow> real \<Rightarrow> real \<Rightarrow> real \<Rightarrow> int \<Rightarrow> loops \<Rightarrow> bool" where
  "waiting lag P D n g s \<longleftrightarrow>
     (\<exists>w. lo_monitor s = Asleep (Fin w) \<and> lo_now s \<le> w + lag \<and>
        (w \<le> n + P \<or>
         (\<exists>u m. u \<le> n + P + lag \<and> w \<le> m + P \<and> k_last_tick_at (y_ctl (lo_sys s)) = Some m \<and>
            m - u \<le> view_streak (dev_view (lo_sys s) g) \<and> view_streak (dev_view (lo_sys s) g) < D)))"

lemma may_start_after:
  assumes "num_sat (\<lambda>x. x \<le> Fin D) (idle_debounce_s (thresholds cfg))" "truthy (workloads (worker cfg))" "D \<le> t"
  shows "may_start cfg t = Inr True"
proof -
  obtain x where "num_of (idle_debounce_s (thresholds cfg)) = Some x" "x \<le> Fin D"
    using assms(1) by (auto simp: num_sat_def split: option.splits)
  moreover from this(2) assms(3) have "x \<le> Fin t" by (cases x) simp_all
  ultimately show ?thesis using assms(2) by (simp add: may_start_def r_and_def py_cmp_def)
qed

lemma waiting_wake:
  assumes "waiting lag P D n g s" "loops_ok lag P s" "clock_ok s" "idle_at D g s"
    and "quiet_wake g s (MonitorWake env)" "lo_now s \<le> now" "on_time lag now (lo_monitor s)" "0 \<le> lag"
    and "loop_act now (MonitorWake env) s = Some s'" "on_time lag now (lo_expiry s)"
    and "\<not> lo_stop s'" "gpu_proc (lo_daemon s) g = None" "gpu_proc (lo_daemon s') g = None"
  shows "waiting lag P D n g (s'\<lparr>lo_now := now\<rparr>)"
proof -
  let ?c = "dm_cfg (lo_daemon s)" and ?t = "view_streak (dev_view (lo_sys s) g)"
  let ?t' = "view_streak (dev_view (lo_sys s') g)"
  have s': "s' = monitor_wake env s" "t_now env = now" using assms(9) by (auto split: if_splits)
  have sys: "lo_sys s' = snd (tick_once env (lo_sys s))"
    using assms(4) s' by (simp add: idle_at_def monitor_wake_def daemon_tick_def Let_def)
  have ok: "sys_ok ?c (lo_sys s)" "config_ok ?c" using assms(2) by (simp_all add: loops_ok_def daemon_ok_def)
  have "?t' = ?t + tick_dt env (lo_sys s) \<and> may_start ?c ?t' \<noteq> Inr True"
    using tick_quiet [OF ok, of env g] assms(4,5,12,13) sys
    by (auto simp: idle_at_def quiet_wake_def gpu_proc_def dev_view_def)
  then have streak: "?t' = ?t + tick_dt env (lo_sys s)" "\<not> D \<le> ?t'"
    using may_start_after [of D ?c ?t'] assms(4) by (auto simp: idle_at_def)
  have last: "k_last_tick_at (y_ctl (lo_sys s')) = Some now" by (simp add: sys tick_ctl s'(2))
  have "loops_ok lag P (s'\<lparr>lo_now := now\<rparr>)"
    by (rule loop_act_ok [OF assms(2,8,6,7,10,9)]) simp
  then obtain w where w: "lo_monitor s' = Asleep (Fin w)" "w \<le> now + P" "now \<le> w + lag"
    using assms(11) by (fastforce simp: loops_ok_def sleeps_since_def)
  have pos: "0 \<le> ?t'"
    using clock_step [OF assms(3,6,9)] by (simp add: clock_ok_def)
  obtain w0 where w0: "lo_monitor s = Asleep (Fin w0)"
    "w0 \<le> n + P \<or> (\<exists>u m. u \<le> n + P + lag \<and> k_last_tick_at (y_ctl (lo_sys s)) = Some m \<and> m - u \<le> ?t)"
    using assms(1) by (auto simp: waiting_def)
  then have "\<exists>u \<le> n + P + lag. now - u \<le> ?t'"
  proof (elim disjE exE conjE)
    assume "w0 \<le> n + P"
    with w0(1) assms(7) have "now \<le> n + P + lag" by (simp add: on_time_def)
    with pos show ?thesis by (intro exI [of _ now]) simp
  next
    fix u m
    assume "u \<le> n + P + lag" "k_last_tick_at (y_ctl (lo_sys s)) = Some m" "m - u \<le> ?t"
    with streak(1) s'(2) show ?thesis by (intro exI [of _ u]) (simp add: tick_dt_def)
  qed
  with w last streak(2) show ?thesis unfolding waiting_def by auto
qed

lemma waiting_step:
  assumes "waiting lag P D n g s" "loops_ok lag P s" "clock_ok s" "idle_at D g s"
    and "quiet_wake g s e" "lo_now s \<le> now" "on_time lag now (lo_monitor s)" "0 \<le> lag"
    and "loop_act now e s = Some s'" "on_time lag now (lo_expiry s)"
    and "idle_at D g (s'\<lparr>lo_now := now\<rparr>)" "gpu_proc (lo_daemon s) g = None" "gpu_proc (lo_daemon s') g = None"
  shows "waiting lag P D n g (s'\<lparr>lo_now := now\<rparr>)"
proof (cases "\<exists>env. e = MonitorWake env")
  case True
  with assms waiting_wake [OF assms(1-4) _ assms(6-8), of _ s'] show ?thesis by (auto simp: idle_at_def)
next
  case False
  then have other: "reconfigured (y_ctl (lo_sys s)) (y_ctl (lo_sys s'))" "lo_monitor s' = lo_monitor s"
    using other_act [OF assms(9)] by auto
  have "view_streak (dev_view (lo_sys s') g) = view_streak (dev_view (lo_sys s) g)"
    using reconfigured_streak(3) [OF other(1)] assms(11) by (simp add: idle_at_def)
  with reconfigured_streak(1) [OF other(1)] assms(1,7) other(2) show ?thesis
    by (auto simp: waiting_def on_time_def)
qed

lemma idle_first: "idle_through D g es s \<Longrightarrow> idle_at D g s"
  by (cases es) auto

lemma idle_positive: "daemon_ok (lo_daemon s) \<Longrightarrow> idle_at D g s \<Longrightarrow> 0 < D"
proof -
  assume ok: "daemon_ok (lo_daemon s)" "idle_at D g s"
  then have "num_sat (\<lambda>x. \<not> x \<le> Fin 0) (idle_debounce_s (thresholds (dm_cfg (lo_daemon s))))"
    by (simp add: daemon_ok_def config_ok_def Let_def)
  with ok(2) obtain x where "\<not> x \<le> Fin 0" "x \<le> Fin D"
    by (auto simp: idle_at_def num_sat_def split: option.splits)
  then show ?thesis by (cases x) auto
qed

lemma waiting_run:
  assumes "timed_run lag es s = Some s'" "idle_through D g es s" "\<forall>x \<in> set es. loads_within P (snd x)" "0 \<le> lag"
    and "waiting lag P D n g s" "loops_ok lag P s" "clock_ok s"
    and "\<And>fs gs t. es = fs @ gs \<Longrightarrow> timed_run lag fs s = Some t \<Longrightarrow> gpu_proc (lo_daemon t) g = None"
  shows "waiting lag P D n g s' \<and> loops_ok lag P s' \<and> clock_ok s' \<and> idle_at D g s'"
  using assms
proof (induction lag es s rule: timed_run.induct)
  case (2 lag now e es s)
  then obtain s1 where s1: "lo_now s \<le> now" "on_time lag now (lo_monitor s)" "on_time lag now (lo_expiry s)"
      "loop_act now e s = Some s1" "timed_run lag es (s1\<lparr>lo_now := now\<rparr>) = Some s'"
    by (auto split: if_splits option.splits)
  let ?t = "s1\<lparr>lo_now := now\<rparr>"
  have later: "gpu_proc (lo_daemon t) g = None" if "es = fs @ gs" "timed_run lag fs ?t = Some t" for fs gs t
    using 2(9) [of "(now, e) # fs" gs t] that s1 by simp
  show ?case
  proof (rule 2(1))
    show "waiting lag P D n g ?t"
    proof (rule waiting_step [OF _ _ _ _ _ s1(1,2) _ s1(4,3)])
      show "gpu_proc (lo_daemon s) g = None" using 2(9) [of "[]" _ s] by simp
      show "gpu_proc (lo_daemon s1) g = None" using later [of "[]" _ ?t] by simp
    qed (use 2 s1 idle_first in auto)
    show "loops_ok lag P ?t" using loop_act_ok [OF 2(7,5) s1(1-4)] 2(4) by simp
    show "clock_ok ?t" using clock_step [OF 2(8) s1(1,4)] .
  qed (use 2 s1 later in auto)
qed simp

text \<open>C4. An idle GPU is occupied in time. Take any run of the daemon from its boot, and any part of it
  through which the GPU stays watched and unleased, is quiet in the samples the ticks get, and the
  configuration in force (reloads may change it) wants workers after an idle time of at most \<open>D\<close> seconds
  and polls at least every \<open>P\<close> seconds; the saves and the starts of processes work. Once that part is
  longer than \<open>D\<close> and two rounds of the monitor loop, a worker process has been on the GPU.\<close>

theorem idle_gpu_occupied:
  assumes "load_config path file = Inr cfg" "daemon_init cfg pid t sf hf = Inr d0"
    and "startup env nvml_ok d0 = (None, d)" "polls_within P (dm_cfg d)"
    and "timed_run lag es1 (start_loops (sv_now env) d) = Some s1" "timed_run lag es2 s1 = Some s2"
    and "\<forall>x \<in> set (es1 @ es2). loads_within P (snd x)" "0 \<le> lag"
    and "idle_through D g es2 s1" "lo_now s1 + D + 2 * (P + lag) < lo_now s2"
  shows "\<exists>fs gs s. es2 = fs @ gs \<and> timed_run lag fs s1 = Some s \<and> gpu_proc (lo_daemon s) g \<noteq> None"
proof (rule ccontr)
  assume none: "\<nexists>fs gs s. es2 = fs @ gs \<and> timed_run lag fs s1 = Some s \<and> gpu_proc (lo_daemon s) g \<noteq> None"
  have ok: "loops_ok lag P s1"
    using timed_run_ok [OF boot_loops_ok [OF assms(1-4,8)] assms(8,5)] assms(7) by simp
  have clock: "clock_ok s1" using timed_run_clock [OF assms(5)] startup_clock [OF assms(2,3)] by blast
  have idle: "idle_at D g s1" using assms(9) by (rule idle_first)
  have "waiting lag P D (lo_now s1) g s1"
    using ok idle by (auto simp: loops_ok_def sleeps_since_def idle_at_def waiting_def)
  with waiting_run [OF assms(6,9) _ assms(8) _ ok clock] assms(7) none
  have s2: "waiting lag P D (lo_now s1) g s2" "loops_ok lag P s2" "clock_ok s2" "idle_at D g s2" by auto
  then have "0 < P" "0 < D" using poll_positive idle_positive by (auto simp: loops_ok_def)
  moreover have "lo_now s2 \<le> lo_now s1 + D + 2 * (P + lag)"
    using s2(1,3) calculation assms(8) unfolding waiting_def clock_ok_def by fastforce
  ultimately show False using assms(10) by simp
qed

text \<open>The small daemon of \<open>Service\<close>: GPU 7 is watched and idle, no lease is held; the loop is late by up to 40
  seconds.\<close>

definition calm :: "loops \<Rightarrow> bool" where
  "calm s \<longleftrightarrow> dm_cfg (lo_daemon s) = default_config \<and> k_watched (y_ctl (lo_sys s)) = [7] \<and>
     ls_leases (y_leases (lo_sys s)) = [] \<and> \<not> lo_stop s"

definition calm_run :: "(real \<times> loop_event) list" where
  "calm_run = [(0, MonitorWake (idle_env 0)), (40, MonitorWake (idle_env 40)), (60, ExpiryWake True),
     (80, MonitorWake (idle_env 80)), (115, Pass)]"

lemma calm_idle: "calm s \<Longrightarrow> idle_at 30 7 s"
  by (simp add: calm_def idle_at_def covers_def default_config_def ThresholdsCfg_def WorkerCfg_def kwarg_def
      num_sat_def)

lemma calm_quiet: "calm s \<Longrightarrow> quiet_wake 7 s (MonitorWake (idle_env t))"
  by (simp add: quiet_wake_def calm_def starts_workers_def samples_quiet_def idle_env_def plain_host_def
      has_error_def is_quiet_def r_and_def default_config_def ThresholdsCfg_def kwarg_def py_cmp_def
      mem_used_pct_def)

lemma calm_wake:
  assumes "calm s" "lo_monitor s = Asleep (Fin w)" "w \<le> t"
  shows "\<exists>s'. loop_act t (MonitorWake (idle_env t)) s = Some s' \<and> calm s' \<and>
    lo_monitor s' = Asleep (Fin (t + 2)) \<and> lo_expiry s' = lo_expiry s"
proof -
  have "ls_leases (y_leases (snd (tick_once (idle_env t) (lo_sys s)))) = []"
    using assms(1) by (simp add: tick_leases swept_def sweep_and_record_frame start_tick_def sweep_leases calm_def)
  with assms show ?thesis
    by (simp add: due_def monitor_wake_def Let_def calm_def daemon_tick_def tick_ctl poll_sleep_def demo_poll)
      (simp add: idle_env_def)
qed

lemma calm_expiry:
  assumes "calm s" "lo_expiry s = Asleep (Fin w)" "w \<le> t"
  shows "\<exists>s'. loop_act t (ExpiryWake True) s = Some s' \<and> calm s' \<and>
    lo_expiry s' = Asleep (Fin (t + 30)) \<and> lo_monitor s' = lo_monitor s"
proof -
  obtain x d' where r: "expiry_round True t (lo_daemon s) = (x, d')" by fastforce
  then have "x = None"
    using assms(1) sweep_error [of True t "lo_sys s"]
    by (cases x) (auto simp: expiry_round_def split_beta)
  moreover have "dm_cfg d' = default_config \<and> k_watched (y_ctl (dm_sys d')) = [7] \<and> ls_leases (y_leases (dm_sys d')) = []"
    using assms(1) r
    by (auto simp: expiry_round_def split_beta sweep_and_record_frame sweep_leases calm_def)
  ultimately show ?thesis
    using assms r
    by (simp add: due_def expiry_wake_def calm_def lease_sleep_def expiry_sleep_def lease_all_def)
qed

theorem idle_gpu_occupied_witness:
  "\<exists>fs gs s. calm_run = fs @ gs \<and> timed_run 40 fs (start_loops 0 demo_daemon) = Some s \<and>
     gpu_proc (lo_daemon s) 7 \<noteq> None"
proof -
  let ?s = "start_loops 0 demo_daemon"
  have start: "calm ?s" "lo_monitor ?s = Asleep (Fin 0)" "lo_expiry ?s = Asleep (Fin 30)" "lo_now ?s = 0"
    by (simp_all add: calm_def start_loops_def demo_fields lease_sleep_def expiry_sleep_def lease_all_def)
  obtain a where a: "loop_act 0 (MonitorWake (idle_env 0)) ?s = Some a" "calm a"
      "lo_monitor a = Asleep (Fin 2)" "lo_expiry a = Asleep (Fin 30)"
    using calm_wake [OF start(1,2), of 0] start(3) by auto
  have calm: "calm (s\<lparr>lo_now := t\<rparr>) = calm s" for s t by (simp add: calm_def)
  obtain b where b: "loop_act 40 (MonitorWake (idle_env 40)) (a\<lparr>lo_now := 0\<rparr>) = Some b" "calm b"
      "lo_monitor b = Asleep (Fin 42)" "lo_expiry b = Asleep (Fin 30)"
    using calm_wake [of "a\<lparr>lo_now := 0\<rparr>" 2 40] a by (auto simp: calm)
  obtain c where c: "loop_act 60 (ExpiryWake True) (b\<lparr>lo_now := 40\<rparr>) = Some c" "calm c"
      "lo_monitor c = Asleep (Fin 42)" "lo_expiry c = Asleep (Fin 90)"
    using calm_expiry [of "b\<lparr>lo_now := 40\<rparr>" 30 60] b by (auto simp: calm)
  obtain e where e: "loop_act 80 (MonitorWake (idle_env 80)) (c\<lparr>lo_now := 60\<rparr>) = Some e" "calm e"
      "lo_monitor e = Asleep (Fin 82)" "lo_expiry e = Asleep (Fin 90)"
    using calm_wake [of "c\<lparr>lo_now := 60\<rparr>" 42 80] c by (auto simp: calm)
  have run: "timed_run 40 calm_run ?s = Some (e\<lparr>lo_now := 115\<rparr>)"
    using start a b c e by (simp add: calm_run_def on_time_def del: loop_act.simps) simp
  have idle: "idle_through 30 7 calm_run ?s"
    using start a b c e
    by (simp add: calm_run_def calm_idle calm_quiet calm del: loop_act.simps) (simp add: calm_idle calm quiet_wake_def)
  have empty: "timed_run 40 [] (start_loops (sv_now (demo_env 0)) demo_daemon) = Some ?s"
    by (simp add: demo_env_def)
  have polls: "polls_within 2 (dm_cfg demo_daemon)"
    using demo_poll by (simp add: polls_within_def num_sat_def demo_fields)
  have loads: "\<forall>x \<in> set ([] @ calm_run). loads_within 2 (snd x)" by (simp add: calm_run_def)
  show ?thesis
    by (rule idle_gpu_occupied [OF load_config_absent fresh_init fresh_startup polls empty run loads _ idle])
      (simp_all add: start)
qed

end
