(* ===== verification/Orphans.thy ===== *)
theory Orphans
  imports Runs
begin

text \<open>
  A worker on a GPU that is no longer watched. A reload (\<open>_apply_new_config\<close> of \<open>daemon.py\<close>) may take
  a GPU off the watched ones while its worker runs: \<open>set_watched\<close> of \<open>controller.py\<close> drops the device
  state only, ticks pass the GPU by, and \<open>pause\<close> refuses it as unknown. So the worker occupies the
  GPU, and no user can get it back, until the GPU is watched again or the daemon stops.
\<close>

definition stops :: "int \<Rightarrow> task \<Rightarrow> bool" where
  "stops g t \<longleftrightarrow>
     (case t of StopTask h \<Rightarrow> h = g | StopWait h po \<Rightarrow> h = g | StopKill h po \<Rightarrow> h = g
      | WatchTask h po \<Rightarrow> False)"

lemma stops_simps [simp]:
  "stops g (StopTask h) = (h = g)" "stops g (StopWait h po) = (h = g)"
  "stops g (StopKill h po) = (h = g)" "\<not> stops g (WatchTask h po)"
  by (simp_all add: stops_def)

text \<open>The process \<open>po\<close> runs on \<open>g\<close> and nothing is under way to stop it.\<close>

definition left_alone :: "int \<Rightarrow> nat \<Rightarrow> pool \<Rightarrow> bool" where
  "left_alone g po p \<longleftrightarrow>
     map_of (p_procs p) g = Some po \<and> p_exited p po = None \<and> (\<forall>t \<in> set (p_tasks p). \<not> stops g t)"

lemma left_alone_cong:
  "p_procs p' = p_procs p \<Longrightarrow> p_exited p' = p_exited p \<Longrightarrow> p_tasks p' = p_tasks p \<Longrightarrow>
   left_alone g po p' = left_alone g po p"
  by (simp add: left_alone_def)

lemma left_alone_schedule: "left_alone g po p \<Longrightarrow> h \<noteq> g \<Longrightarrow> left_alone g po (schedule_stop h p)"
  by (auto simp: left_alone_def schedule_stop_def)

lemma left_alone_spawn: "left_alone g po p \<Longrightarrow> left_alone g po (snd (spawn F exe launch now h p))"
  by (rule spawn_cases [of F exe launch now h p]) (auto simp: left_alone_def)

lemma left_alone_task:
  assumes "left_alone g po p" "t \<in> set (p_tasks p)"
  shows "left_alone g po (fst (activate timeout t p))"
proof -
  let ?q = "p\<lparr>p_tasks := remove1 t (p_tasks p)\<rparr>"
  have q: "left_alone g po ?q" using assms(1) by (auto simp: left_alone_def dest: in_set_takeD notin_set_remove1)
  have "\<not> stops g t" using assms by (auto simp: left_alone_def)
  moreover have "left_alone g po (cleanup h ?q)" if "h \<noteq> g" for h
    using q that by (auto simp: left_alone_def cleanup_def split: option.splits)
  moreover have "left_alone g po (add_task u ?q)" if "\<not> stops g u" for u
    using q that by (auto simp: left_alone_def add_task_def)
  moreover have "h \<noteq> g" if "map_of (p_procs p) h = Some po'" "p_exited p po' \<noteq> None" for h po'
    using assms(1) that by (auto simp: left_alone_def)
  ultimately show ?thesis
    using q by (cases t) (auto simp: activate_def split: option.splits)
qed

lemma left_alone_step:
  assumes "left_alone g po (y_pool s)" "h \<noteq> g"
  shows "left_alone g po (y_pool (snd (tick_step env dt i h s)))"
proof -
  have put: "y_pool (put_state h st s') = y_pool s'" for st s' by (simp add: put_state_def)
  have "left_alone g po (y_pool (snd (spawn_worker env h st s')))" if "left_alone g po (y_pool s')" for st s'
    using left_alone_spawn [OF that]
    by (auto simp: spawn_worker_def put auto_record_def Let_def split: sum.splits prod.splits dest!: arg_cong [where f = snd])
  with assms show ?thesis
    by (auto simp: tick_step_def apply_sample_def auto_record_def Let_def put ctl_schedule_stop_def
        left_alone_schedule split: sum.splits)
qed

lemma left_alone_tick:
  assumes "left_alone g po (y_pool s)" "g \<notin> set (k_watched (y_ctl s))"
  shows "left_alone g po (y_pool (snd (tick_once env s)))"
proof (cases "sweep_failed env s")
  case False
  have "left_alone g po (y_pool (snd (for_each (tick_step env (tick_dt env s)) 0 (k_watched (y_ctl s)) (swept env s))))"
    proof (rule for_each_invariant)
    show "left_alone g po (y_pool (swept env s))" using assms(1) by simp
    show "left_alone g po (y_pool (snd (tick_step env (tick_dt env s) i h s')))"
      if "h \<in> set (k_watched (y_ctl s))" "left_alone g po (y_pool s')" for i h s'
    proof (rule left_alone_step [OF that(2)])
      show "h \<noteq> g" using that(1) assms(2) by auto
    qed
  qed
  with False show ?thesis by (simp add: tick_once_cases)
qed (use assms in \<open>simp add: tick_once_cases\<close>)

lemma left_alone_pause:
  assumes "left_alone g po (y_pool s)" "g \<notin> set (k_watched (y_ctl s))"
  shows "left_alone g po (y_pool (snd (pause_gpus io now uid user gpus dur s)))"
proof (cases "g \<in> set gpus")
  case True
  then have "filter (\<lambda>g. g \<notin> set (k_watched (y_ctl s))) gpus \<noteq> []"
    using assms(2) by (auto simp: filter_empty_conv)
  then show ?thesis using assms(1) by (simp add: pause_gpus_def)
next
  case False
  let ?f = "\<lambda>g s. if pid_for (y_pool s) g \<noteq> None then ctl_schedule_stop g s else s"
  have "left_alone g po (y_pool (fold ?f hs v))" if "left_alone g po (y_pool v)" "g \<notin> set hs" for hs v
    using that by (induction hs arbitrary: v) (auto simp: ctl_schedule_stop_def left_alone_schedule)
  with False assms(1) show ?thesis
    by (auto simp: pause_gpus_def Let_def split: prod.splits sum.splits)
qed

lemma left_alone_reload:
  "left_alone g po (y_pool (dm_sys (snd (reload_config env actor d)))) = left_alone g po (y_pool (dm_sys d))"
  by (rule left_alone_cong)
    (auto simp: reload_config_def apply_new_config_def swap_config_def record_bad_config_def
      replace_worker_config_def Let_def split: sum.splits prod.splits option.splits)

lemma left_alone_cmd:
  assumes "left_alone g po (y_pool (dm_sys d))" "g \<notin> set (k_watched (y_ctl (dm_sys d)))"
  shows "left_alone g po (y_pool (dm_sys (snd (run_cmd env c cmd req d))))"
proof -
  have "left_alone g po (y_pool (dm_sys (snd (handle_pause env c req d))))"
    using assms left_alone_pause [OF assms]
    by (rule_tac handle_pause_cases [of env c req d]) (simp_all add: records_def)
  moreover have "left_alone g po (y_pool (dm_sys (snd (handle_resume env c req d))))"
    using assms by (rule_tac handle_resume_cases [of env c req d]) (simp_all add: records_def resume_leases)
  ultimately show ?thesis
    using assms by (auto simp: run_cmd_def config_reload_same left_alone_reload)
qed

lemma left_alone_happen:
  assumes "left_alone g po (y_pool (dm_sys d))" "g \<notin> set (k_watched (y_ctl (dm_sys d)))"
    and "\<forall>rc. e \<noteq> WorkerExit po rc"
  shows "left_alone g po (y_pool (dm_sys (happen e d)))"
proof (cases e)
  case (Serve env c req)
  then show ?thesis
    using assms(1) left_alone_cmd [OF assms(1,2), of env c "upper (rq_cmd req)" req]
      dispatch_runs [of env c req d] by auto
next
  case (PoolTask now b t)
  then show ?thesis using assms(1) left_alone_task [OF assms(1)] by (simp add: daemon_task_sys)
next
  case (WorkerExit po' rc)
  then show ?thesis using assms by (auto simp: on_pool_def process_exit_def left_alone_def)
qed (use assms in \<open>simp_all add: left_alone_tick daemon_tick_def left_alone_reload expiry_round_def
      sweep_and_record_frame split_beta\<close>)

text \<open>Whatever happens while the GPU stays unwatched, requests by root, ticks, sweeps and reloads
  included, its worker stays in the pool and nothing is under way to stop it; and no one is granted a
  pause of the GPU.\<close>

theorem unwatched_worker_stays:
  assumes "left_alone g po (y_pool (dm_sys d))"
    and "\<forall>k \<le> length es. g \<notin> set (k_watched (y_ctl (dm_sys (fold happen (take k es) d))))"
    and "\<forall>rc. WorkerExit po rc \<notin> set es"
  shows "left_alone g po (y_pool (dm_sys (fold happen es d))) \<and>
    (\<forall>io now uid user gpus dur. g \<in> set gpus \<longrightarrow>
       isl (fst (pause_gpus io now uid user gpus dur (dm_sys (fold happen es d)))))"
proof
  show "left_alone g po (y_pool (dm_sys (fold happen es d)))"
    using assms
  proof (induction es arbitrary: d)
    case (Cons e es)
    have "left_alone g po (y_pool (dm_sys (happen e d)))"
      using Cons.prems(2) [THEN spec, of 0] Cons.prems(3)
      by (intro left_alone_happen [OF Cons.prems(1)]) auto
    moreover have "\<forall>k \<le> length es. g \<notin> set (k_watched (y_ctl (dm_sys (fold happen (take k es) (happen e d)))))"
      using Cons.prems(2) by (auto dest: spec [where x = "Suc k" for k])
    ultimately show ?case using Cons.IH Cons.prems(3) by simp
  qed simp
  have "g \<notin> set (k_watched (y_ctl (dm_sys (fold happen es d))))" using assms(2) by auto
  then show "\<forall>io now uid user gpus dur. g \<in> set gpus \<longrightarrow>
      isl (fst (pause_gpus io now uid user gpus dur (dm_sys (fold happen es d))))"
    by (auto simp: pause_gpus_def Let_def filter_empty_conv)
qed

text \<open>The small daemon of \<open>Service\<close> watches GPU 7; here a worker runs on GPU 3.\<close>

definition orphaned :: daemon where
  "orphaned = on_pool (\<lambda>p. snd (spawn plain_fmt ''python'' (\<lambda>_. Some 100) 0 3 p)) demo_daemon"

lemma orphaned_pool:
  "p_procs (y_pool (dm_sys orphaned)) = [(3, 0)]" "p_exited (y_pool (dm_sys orphaned)) = (\<lambda>_. None)"
  "p_tasks (y_pool (dm_sys orphaned)) = [WatchTask 3 0]"
  by (simp_all add: orphaned_def on_pool_def demo_fields spawn_def pool_init_def build_argv_def
      join_strs_def default_config_def WorkerCfg_def kwarg_def Let_def)

theorem unwatched_worker_stays_witness:
  "left_alone 3 0 (y_pool (dm_sys (fold happen [Expiry True 5, PoolTask 6 False (WatchTask 3 0)] orphaned)))"
proof (rule unwatched_worker_stays [THEN conjunct1])
  show "left_alone 3 0 (y_pool (dm_sys orphaned))" by (simp add: left_alone_def orphaned_pool)
  have watched: "k_watched (y_ctl (dm_sys orphaned)) = [7]"
    by (simp add: orphaned_def on_pool_def demo_fields)
  have "k_watched (y_ctl (dm_sys (happen e d))) = k_watched (y_ctl (dm_sys d))"
    if "e \<in> {Expiry True 5, PoolTask 6 False (WatchTask 3 0)}" for e d
    using that
    by (auto simp: expiry_round_def split_beta sweep_and_record_frame daemon_task_def on_worker_exit_def Let_def
        split: option.splits)
  then have "k_watched (y_ctl (dm_sys (fold happen es orphaned))) = [7]"
    if "set es \<subseteq> {Expiry True 5, PoolTask 6 False (WatchTask 3 0)}" for es
    using that watched by (induction es rule: rev_induct) simp_all
  moreover have "set (take k [Expiry True 5, PoolTask 6 False (WatchTask 3 0)]) \<subseteq>
      {Expiry True 5, PoolTask 6 False (WatchTask 3 0)}" for k
    by (rule subset_trans [OF set_take_subset]) simp
  ultimately show "\<forall>k \<le> length [Expiry True 5, PoolTask 6 False (WatchTask 3 0)].
      3 \<notin> set (k_watched (y_ctl (dm_sys (fold happen
        (take k [Expiry True 5, PoolTask 6 False (WatchTask 3 0)]) orphaned))))"
    by (auto simp del: fold.simps take_Cons take_Suc_Cons)
qed simp

end
