(* ===== verification/LogSetup.thy ===== *)
theory LogSetup
  imports Config
begin

text \<open>
  \<open>src/src/ocp/logging_setup.py\<close>: the level and the handlers of the root logger, on what the standard
  library's \<open>setLevel\<close>, \<open>removeHandler\<close> and \<open>addHandler\<close> do. Which messages the daemon then prints
  depends on \<open>general.log_level\<close>, which validation does not look at.

  The lemmas: whatever the level is, setting up leaves one handler, on stderr, and a level; a name
  that is not a level counts as INFO.
\<close>

datatype stream = Stdout | Stderr | OtherStream string

record log_handler =
  lh_stream :: stream
  lh_format :: string

record logger =
  lg_level :: int
  lg_handlers :: "log_handler list"

definition level_names :: "(string \<times> int) list" where
  "level_names =
     [(''CRITICAL'', 50), (''FATAL'', 50), (''ERROR'', 40), (''WARN'', 30), (''WARNING'', 30),
      (''INFO'', 20), (''DEBUG'', 10), (''NOTSET'', 0)]"

text \<open>\<open>logging._checkLevel\<close>: an integer (a bool is one) or the name of a level.\<close>

definition check_level :: "pyval \<Rightarrow> int res" where
  "check_level v =
     (case v of
        PInt i \<Rightarrow> Inr i
      | PBool b \<Rightarrow> Inr (if b then 1 else 0)
      | PStr s \<Rightarrow> (case map_of level_names s of None \<Rightarrow> Inl ValueError | Some i \<Rightarrow> Inr i)
      | _ \<Rightarrow> Inl TypeError)"

definition set_level :: "pyval \<Rightarrow> logger \<Rightarrow> exn option \<times> logger" where
  "set_level v g = (case check_level v of Inl e \<Rightarrow> (Some e, g) | Inr i \<Rightarrow> (None, g\<lparr>lg_level := i\<rparr>))"

definition remove_handler :: "log_handler \<Rightarrow> logger \<Rightarrow> logger" where
  "remove_handler h g = g\<lparr>lg_handlers := remove1 h (lg_handlers g)\<rparr>"

definition add_handler :: "log_handler \<Rightarrow> logger \<Rightarrow> logger" where
  "add_handler h g =
     (if h \<in> set (lg_handlers g) then g else g\<lparr>lg_handlers := lg_handlers g @ [h]\<rparr>)"

definition stderr_handler :: log_handler where
  "stderr_handler = \<lparr>lh_stream = Stderr, lh_format = ''%(asctime)s %(levelname)s %(name)s: %(message)s''\<rparr>"

definition log_setup :: "pyval \<Rightarrow> logger \<Rightarrow> logger" where
  "log_setup level g0 =
     (let (err, g1) = set_level level g0;
          g2 = (case err of None \<Rightarrow> g1 | Some e \<Rightarrow> snd (set_level (PInt 20) g1));
          g3 = fold remove_handler (lg_handlers g2) g2
      in add_handler stderr_handler g3)"

text \<open>What a message of a severity causes: the streams it is printed to.\<close>

definition printed_to :: "int \<Rightarrow> logger \<Rightarrow> stream list" where
  "printed_to severity g = (if lg_level g \<le> severity then map lh_stream (lg_handlers g) else [])"

section \<open>After setting up\<close>

lemma remove_all: "lg_handlers (fold remove_handler hs g) = fold remove1 hs (lg_handlers g)"
  by (induction hs arbitrary: g) (simp_all add: remove_handler_def)

lemma fold_remove1_self: "fold remove1 hs hs = []"
proof -
  have "fold remove1 hs (hs @ ys) = ys" for ys
    by (induction hs) (simp_all add: remove1_append)
  from this [of "[]"] show ?thesis by simp
qed

lemma remove_level: "lg_level (fold remove_handler hs g) = lg_level g"
  by (induction hs arbitrary: g) (simp_all add: remove_handler_def)

text \<open>After the setup a message is printed exactly once, to stderr, if its severity is at least the
  configured level, and at least INFO when the configuration names no level; whatever was set up
  before, so a second setup does not print messages twice.\<close>

theorem setup_prints_once:
  "printed_to severity (log_setup level g0) =
     (if (case check_level level of Inr i \<Rightarrow> i | Inl e \<Rightarrow> 20) \<le> severity then [Stderr] else [])"
proof -
  have "lg_handlers (log_setup level g0) = [stderr_handler]"
    by (auto simp: log_setup_def Let_def add_handler_def remove_all fold_remove1_self split: prod.splits option.splits)
  moreover have "lg_level (log_setup level g0) = (case check_level level of Inr i \<Rightarrow> i | Inl e \<Rightarrow> 20)"
    by (auto simp: log_setup_def Let_def add_handler_def remove_level set_level_def check_level_def [of "PInt 20"]
        split: sum.splits)
  ultimately show ?thesis by (simp add: printed_to_def stderr_handler_def)
qed

end
