(* ===== verification/Spec2Isabelle.thy ===== *)
theory Spec2Isabelle
  imports LeaseSpec Nvml Pidfile Listener Storage WorkerRun Clients Occupation Orphans LogSetup
begin

text \<open>
  OCP, the Occupy Compute Process: a root daemon watches GPUs, occupies idle ones with worker
  processes, and lets whitelisted users reserve GPUs for a while (\<open>pause\<close>). The sources are
  the Python files under \<open>src/src/ocp\<close>; this development models the daemon, its IPC, the worker
  process and the command line.

  The program. \<open>daemon.py\<close> serves requests on a Unix socket (\<open>ipc/server.py\<close>,
  \<open>ipc/protocol.py\<close>; the client is \<open>ipc/client.py\<close>), identifies the caller by the socket's
  credentials (\<open>auth.py\<close>) and runs a command: status, history, configuration (\<open>config.py\<close>),
  pause and resume. Pauses are leases on GPUs (\<open>lease.py\<close>), saved in a state file. A monitor
  loop ticks the controller (\<open>controller.py\<close>), which samples each watched GPU
  (\<open>monitor/nvml.py\<close>) and starts or stops its worker through the pool (\<open>worker/manager.py\<close>).
  A worker (\<open>worker/main.py\<close>) holds memory (\<open>worker/memory.py\<close>) and computes
  (\<open>worker/compute.py\<close>) until it is told to stop. Everything that happens is an event in a
  bounded history (\<open>history.py\<close>). Users talk to the daemon with \<open>cli.py\<close>.

  The theories, in the order they build on each other:
    Prelude    Python floats, dynamically typed values, exceptions, results, dicts
    PyText     strings, \<open>int(x)\<close> and \<open>float(x)\<close>, reading documents
    Duration   \<open>duration.py\<close>: parse and format, an exact grammar, a round trip
    GpuSpec    \<open>gpuspec.py\<close>: parsing GPU lists, exactly, with a round trip
    Auth       \<open>auth.py\<close>: callers, the whitelist, the README's tiers as a linear order
    Config     \<open>config.py\<close>: sections, validation against declared ranges, loading
    Lease      \<open>lease.py\<close>: the store, what each operation does to every GPU, save and load
    LeaseRuns  runs of the lease store: recovery after a crash, exclusivity as a contract
    LeaseSpec  the specification of the store, a map of reservations, and the refinement
    History    \<open>history.py\<close>: ring, queue, writer, compaction, reload, queries
    Monitor    \<open>monitor/base.py\<close>: samples
    Nvml       \<open>monitor/nvml.py\<close>: handles, samples, devices with MIG
    Workers    \<open>worker/manager.py\<close>: the pool as a step relation over its tasks
    Controller \<open>controller.py\<close>: device states, the tick, pause and resume
    Policy     what the tick guarantees for each GPU
    Protocol   \<open>ipc/protocol.py\<close>: frames on bytes, requests and responses
    Json       the JSON text of messages and files: a writer, a lexer and a reader
    Ipc        \<open>ipc/client.py\<close>, \<open>ipc/server.py\<close>: a whole call
    Daemon     \<open>daemon.py\<close>: commands, dispatch, reload, startup, background tasks
    Service    authorization, answers, reload, for one request
    Runs       the daemon over any sequence of events: its invariant and the promise of a pause
    Paths      \<open>paths.py\<close>: the program's files, on the standard library's paths
    Pidfile    \<open>Pidfile\<close> of \<open>daemon.py\<close>: starts, stops and crashes of several daemons
    Argparse   the standard library's parser, as far as the program uses it
    Lifecycle  \<open>run\<close>, \<open>_shutdown\<close> and \<open>main\<close> of \<open>daemon.py\<close>: boot, shutdown, exit codes
    Listener   the socket file of \<open>ipc/server.py\<close>
    WorkerArgs \<open>_parse_args\<close> of \<open>worker/main.py\<close> and the command line the pool writes
    MemLoad    \<open>worker/memory.py\<close>: sizes, bounds, retries
    UtilLoad   \<open>worker/compute.py\<close>: duty cycle and matrix sizes
    WorkerRun  \<open>worker/main.py\<close>: a worker process with its two controllers and signals
    Cli        \<open>cli.py\<close>: the commands
    CliRuns    the commands against the daemon and the machine
    Wire       a command's call over the socket, through JSON and frames, to the dispatcher
    Files      the bytes of the state file and of the history
    JsonPrefix what the reader makes of a cut text and of two texts on one line
    Storage    the system calls that write the files, which may fail or be cut short anywhere
    Clients    many connections whose bytes interleave, and the requests they amount to
    Loops      the background loops of \<open>daemon.py\<close>, their sleeps and the clock
    Occupation idle GPUs are occupied, and in time
    Orphans    workers on GPUs that a reload takes off the watched ones
    LogSetup   \<open>logging_setup.py\<close>

  State and operations. A dataclass or object is a record with its fields (\<open>lease\<close>,
  \<open>lease_store\<close>, \<open>history_store\<close>, \<open>pool\<close>, \<open>controller\<close>, \<open>system\<close>, \<open>daemon\<close>, \<open>nvml_monitor\<close>,
  \<open>mem_ctl\<close>, \<open>util_ctl\<close>); a method is a function that takes the state and returns it updated,
  with the exception that left it, if any (\<open>exn + 'a\<close>, or \<open>exn option\<close>): what was done before the
  exception stays done. A dict is an association list in insertion order. Values from JSON or TOML
  are \<open>pyval\<close>, whatever type the code expects, and what Python does with the wrong type is a
  branch. What surrounds the program is an argument: clock readings, whether a write succeeds, what
  NVML samples, the pid a started process gets, the password database, the bytes a socket delivers
  and how they are cut, random numbers, the files a command finds. A command of \<open>cli.py\<close> is the
  list of its outputs and effects and the way it ends.

  Concurrency. Handlers, ticks, sweeps and reloads hold the controller's lock, or run without
  an \<open>await\<close> that suspends, so each is one function. The coroutines that do suspend (\<open>stop\<close>,
  \<open>_watch\<close>) are tasks of the pool, and \<open>pool_step\<close> and \<open>event\<close> let them interleave with
  everything else in any order. The two controllers of a worker and its signal handler are
  actions (\<open>worker_act\<close>) of one event loop, which a coroutine that does not await keeps busy.
  Several daemons that start at once interleave by system call (\<open>pid_step\<close>). The bytes of many
  clients interleave with each other and with everything else (\<open>net_act\<close>); a whole request is then
  one event of the daemon. A write of a file is a list of system calls, each of which may fail, or
  be where the process is killed, possibly with a part of the bytes written (\<open>run_calls\<close>). The two
  background loops sleep and wake by the clock (\<open>timed_run\<close>): a sleeper wakes when its time has come,
  at most \<open>lag\<close> later; the wall clock and the monotonic clock advance together there.

  Interfaces. \<open>bounded_log\<close> (History), \<open>exclusive_store\<close> (LeaseRuns), \<open>refinement\<close> (LeaseSpec),
  \<open>device_loop\<close> (Policy) and \<open>request_handler\<close> (Ipc) state as locales what one part relies on in
  another; each is interpreted on the model's own definitions (\<open>ring\<close>, \<open>leases\<close>, \<open>reserve\<close>,
  \<open>devices\<close>, \<open>ipc\<close>), and the properties rest on the interpretations.

  What the properties show. A granted pause is kept and recovered (Runs, LeaseRuns, Lifecycle), an
  idle GPU is occupied in time (Occupation), workers start only on unleased GPUs that were quiet
  long enough (Policy), and a device that has MIG on when its handle is taken is refused (below).
  The lease store is a map of reservations (LeaseSpec), a lease is gone a poll interval after its
  deadline (Loops), the files on disk survive errors and kills (Storage), concurrent clients are
  served as if one after the other (Clients), commands need the tier they declare (Service), one
  daemon runs (Pidfile), a worker does what its section says, within its memory bounds, and ends
  when told to, if its target is at most 95 (WorkerArgs, MemLoad, WorkerRun), and exit codes mean
  what they say (Lifecycle, CliRuns). Where the code falls short, a theorem says how: a boot that
  fails empties the saved leases, targets above 95 starve the worker's event loop, a stop between
  two starts lets two daemons run, \<open>--json\<close> hides a refusal, a failed save ends the
  expiry loop, a write cut before its line end costs two events, a reshape that fails half way
  ends the compute coroutine, the worker of a GPU that is no longer watched stays.

  Modelling conventions. Arithmetic on finite floats is exact; \<open>int(max * 1.2)\<close> is
  \<open>6 * max div 5\<close>. Strings hold code points below 256; reading a text with others is
  marked as beyond the model. The interpreter's limits on the digits of an integer and on the
  depth of a document, log calls and the calendar are not modelled. The readings of the clock
  within one handler are one reading. A process start fails with OSError only (Popen raises
  ValueError for a NUL byte in an argument, which only a \<open>nice\<close> that is such a string
  can bring). The end of a worker, where its tasks are cancelled and awaited, is one action
  (\<open>Finish\<close>). Recursion is structural, except for \<open>recv_loop\<close>,
  \<open>find_tokens\<close>, \<open>lex\<close> and \<open>py_equal\<close>, whose termination is
  proved; the loops of a worker, which end only from outside, are runs over what they meet in each
  round, and \<open>ocp daemon on\<close> and \<open>off\<close> look fifty times because the code
  does. No definition uses fuel.

  Not modelled: how a finite float prints (a parameter, with the hypothesis that what it prints
  reads back, as \<open>float.__repr__\<close> documents), the option parsing of typer, the libraries torch,
  pynvml and setproctitle beyond what their calls return or raise, the single log calls, and the
  scripts and tests.
\<close>

section \<open>From NVML to the occupied GPUs\<close>

text \<open>C20. MIG is checked when the handle of a device is taken, and a device that has it on then is
  refused. If MIG is on at a device whose handle the monitor does not hold, whatever errors the
  library has, the device is not enumerated, a sample of it is an error, and the controller, given
  that sample, leaves workers and leases alone. The monitor does not hold the handle if MIG was on at
  every call it has served. A device whose handle was taken before MIG was switched on is not
  checked again, and is sampled like any other.\<close>

theorem mig_device_refused:
  assumes "mig_on N g"
  shows "(nvml_run F (\<lambda>N. mig_on N g) m \<longrightarrow> map_of (nm_handles m) g = None) \<and>
    (case map_of (nm_handles m) g of
       None \<Rightarrow>
         (\<forall>gs. fst (monitor_enumerate F N m) = Inr gs \<longrightarrow> g \<notin> set gs) \<and>
         has_error (fst (monitor_sample F N g m)) \<and>
         fst (apply_sample env g (fst (monitor_sample F N g m)) dt s) = None \<and>
         y_pool (snd (apply_sample env g (fst (monitor_sample F N g m)) dt s)) = y_pool s \<and>
         y_leases (snd (apply_sample env g (fst (monitor_sample F N g m)) dt s)) = y_leases s
     | Some h \<Rightarrow> nm_open m \<longrightarrow> fst (monitor_sample F N g m) =
         (case read_sample N g h of Inl e \<Rightarrow> error_sample F g e | Inr sample \<Rightarrow> sample))"
proof (intro conjI impI)
  assume "nvml_run F (\<lambda>N. mig_on N g) m"
  from nvml_run_uncached [OF this] show "map_of (nm_handles m) g = None" by (simp add: uncached_def)
next
  show "case map_of (nm_handles m) g of
       None \<Rightarrow>
         (\<forall>gs. fst (monitor_enumerate F N m) = Inr gs \<longrightarrow> g \<notin> set gs) \<and>
         has_error (fst (monitor_sample F N g m)) \<and>
         fst (apply_sample env g (fst (monitor_sample F N g m)) dt s) = None \<and>
         y_pool (snd (apply_sample env g (fst (monitor_sample F N g m)) dt s)) = y_pool s \<and>
         y_leases (snd (apply_sample env g (fst (monitor_sample F N g m)) dt s)) = y_leases s
     | Some h \<Rightarrow> nm_open m \<longrightarrow> fst (monitor_sample F N g m) =
         (case read_sample N g h of Inl e \<Rightarrow> error_sample F g e | Inr sample \<Rightarrow> sample)"
  proof (cases "map_of (nm_handles m) g")
    case None
    then have un: "uncached g m" by (simp add: uncached_def)
    then have err: "has_error (fst (monitor_sample F N g m))" by (rule mig_sample_error [OF assms])
    have "g \<notin> set gs" if "fst (monitor_enumerate F N m) = Inr gs" for gs
      by (rule mig_not_enumerated [OF assms un that])
    with err None show ?thesis by (auto simp: apply_sample_def put_state_def Let_def)
  next
    case (Some h)
    then show ?thesis by (auto simp: monitor_sample_def cached_handle split: sum.split)
  qed
qed

text \<open>Two devices, of which the second has MIG on, for examples.\<close>

definition demo_nvml :: nvml where
  "demo_nvml =
     \<lparr>nv_import = None, nv_init = None, nv_count = Inr 2, nv_handle = (\<lambda>i. Inr (nat i)),
      nv_mig_mode = (\<lambda>h. Inr (int h)), nv_mig_enable = Inr 1, nv_memory = (\<lambda>_. Inr (0, 0)),
      nv_util = (\<lambda>_. Inr 0), nv_procs_v3 = (\<lambda>_. Inr []), nv_procs = (\<lambda>_. Inr [])\<rparr>"

theorem mig_device_refused_witness:
  "has_error (fst (monitor_sample plain_fmt demo_nvml 1 (snd (monitor_open plain_fmt demo_nvml monitor_init))))"
proof -
  let ?m = "snd (monitor_open plain_fmt demo_nvml monitor_init)"
  have on: "mig_on demo_nvml 1" by (simp add: mig_on_def demo_nvml_def)
  then have "nvml_run plain_fmt (\<lambda>N. mig_on N 1) ?m"
    by (intro nvml_run.opened nvml_run.init)
  then have "map_of (nm_handles ?m) 1 = None" using mig_device_refused [OF on] by blast
  with mig_device_refused [OF on, of plain_fmt ?m] show ?thesis by simp
qed

end
